(* ===== verification/Go_Prelude.thy ===== *)
theory Go_Prelude
  imports Main "HOL-Library.State_Monad" "HOL-Library.Word"
begin

text \<open>
  What the components share of the Go language and its standard library: error values with
  their wrapping chains (\<open>errors\<close>, \<open>fmt.Errorf\<close>), decimal formatting and parsing of
  machine integers (\<open>strconv\<close>), \<open>strings.SplitN\<close> at the first separator, and the
  effects monad.  An operation that reads or changes the outside world is a
  \<^typ>\<open>('w, 'a) state\<close>; an operation that can also fail returns a sum whose left side is the
  error, exactly as a Go function returns \<open>(value, err)\<close> and its caller tests \<open>err != nil\<close>.

  \<open>uint64\<close> is the type \<open>u64\<close> of 64-bit words, so that additions wrap as they do in Go.
  An \<open>int64\<close> or \<open>int\<close> of the source is an \<^typ>\<open>int\<close>: the sources only compare these
  values, print them, or subtract them under a guard that keeps the difference in range.
  A \<open>time.Time\<close> is an \<^typ>\<open>int\<close> (nanoseconds), a nil pointer is \<^const>\<open>None\<close>.
\<close>

named_theorems go_run \<open>equations that run the operations of a component\<close>
named_theorems go_frame \<open>what an operation leaves unchanged\<close>

type_synonym u64 = "64 word"
type_synonym time = int

section \<open>Errors\<close>

text \<open>
  \<open>Sentinel\<close> is a package-level \<open>errors.New\<close> variable that callers compare with
  \<open>errors.Is\<close>; \<open>Err\<close> is any other leaf error; \<open>NumError\<close> is the error of
  \<open>strconv\<close> (function, input, reason); \<open>Wrap pre e suf\<close> is \<open>fmt.Errorf("pre%wsuf", e)\<close>;
  \<open>ServiceError\<close> is the error type of \<open>pkg/app/errors\<close>, whose constructors never leave its cause nil.
\<close>

datatype Category =
    CategoryNoError | CategoryDataError | CategoryUnauthorized | CategoryForbidden
  | CategoryResourceNotFound | CategoryNotSupported | CategoryDataConflict | CategoryLocked
  | CategoryGone | CategoryDependencyFailure | CategoryGeneralError | CategoryRecovering
  | CategoryConnectionTimeout

datatype goerr =
    Err string
  | Sentinel string
  | NumError string string string
  | Wrap string goerr string
  | ServiceError Category string goerr

primrec go_Error :: "goerr \<Rightarrow> string" where
  "go_Error (Err s) = s"
| "go_Error (Sentinel s) = s"
| "go_Error (NumError f n r) = ''strconv.'' @ f @ '': parsing '' @ n @ '': '' @ r"
| "go_Error (Wrap pre e suf) = pre @ go_Error e @ suf"
| "go_Error (ServiceError c m e) = go_Error e"

primrec errors_Is :: "goerr \<Rightarrow> goerr \<Rightarrow> bool" where
  "errors_Is (Err s) t \<longleftrightarrow> False"
| "errors_Is (Sentinel s) t \<longleftrightarrow> t = Sentinel s"
| "errors_Is (NumError f n r) t \<longleftrightarrow> False"
| "errors_Is (Wrap pre e suf) t \<longleftrightarrow> errors_Is e t"
| "errors_Is (ServiceError c m e) t \<longleftrightarrow> m = go_Error t \<or> errors_Is e t"

text \<open>\<open>errors.As\<close> with a \<open>*ServiceError\<close> target: the outermost one of the chain.\<close>

primrec errors_As_ServiceError :: "goerr \<Rightarrow> Category option" where
  "errors_As_ServiceError (Err s) = None"
| "errors_As_ServiceError (Sentinel s) = None"
| "errors_As_ServiceError (NumError f n r) = None"
| "errors_As_ServiceError (Wrap pre e suf) = errors_As_ServiceError e"
| "errors_As_ServiceError (ServiceError c m e) = Some c"

abbreviation Errorf :: "string \<Rightarrow> goerr \<Rightarrow> goerr" where
  "Errorf pre e \<equiv> Wrap (pre @ '': '') e ''''"

section \<open>Effects\<close>

abbreviation ret :: "'a \<Rightarrow> ('w, 'a) state" where
  "ret \<equiv> State_Monad.return"

text \<open>Reading and updating the state.\<close>

definition gets :: "('w \<Rightarrow> 'a) \<Rightarrow> ('w, 'a) state" where
  "gets f = State (\<lambda>w. (f w, w))"

definition modify :: "('w \<Rightarrow> 'w) \<Rightarrow> ('w, unit) state" where
  "modify f = State (\<lambda>w. ((), f w))"

lemma run_gets [simp, go_run]: "run_state (gets f) w = (f w, w)"
  by (simp add: gets_def)

lemma run_modify [simp, go_run]: "run_state (modify f) w = ((), f w)"
  by (simp add: modify_def)

lemma run_obtain: obtains r s1 where "run_state m s = (r, s1)"
  by (cases "run_state m s")

lemma run_unit_obtain: obtains s1 where "run_state m s = ((), s1)"
  by (cases "run_state m s") auto

text \<open>A \<open>for range\<close> loop whose body returns nothing.\<close>

fun for_each :: "'a list \<Rightarrow> ('a \<Rightarrow> ('w, unit) state) \<Rightarrow> ('w, unit) state" where
  "for_each [] f = ret ()"
| "for_each (x # xs) f = do { f x; for_each xs f }"

text \<open>A loop that stops at the first error, as \<open>if err != nil \{ return err \}\<close> does.\<close>

fun for_err :: "'a list \<Rightarrow> ('a \<Rightarrow> ('w, goerr + unit) state) \<Rightarrow> ('w, goerr + unit) state" where
  "for_err [] f = ret (Inr ())"
| "for_err (x # xs) f = do {
     r \<leftarrow> f x;
     case r of Inl e \<Rightarrow> ret (Inl e) | Inr _ \<Rightarrow> for_err xs f }"

text \<open>The invariant rules of the two loops.\<close>

lemma for_each_inv:
  assumes "\<And>x w. x \<in> set xs \<Longrightarrow> I w \<Longrightarrow> I (snd (run_state (f x) w))"
    and "I w"
  shows "I (snd (run_state (for_each xs f) w))"
  using assms
proof (induction xs arbitrary: w)
  case (Cons x xs)
  obtain w' where x: "run_state (f x) w = ((), w')"
    by (metis old.unit.exhaust prod.collapse)
  then have "I w'"
    using Cons.prems(1)[of x w] Cons.prems(2) by simp
  then have "I (snd (run_state (for_each xs f) w'))"
    by (intro Cons.IH) (use Cons.prems(1) in auto)
  with x show ?case by simp
qed simp

lemma for_err_inv:
  assumes "\<And>x w. x \<in> set xs \<Longrightarrow> I w \<Longrightarrow> I (snd (run_state (f x) w))"
    and "I w"
  shows "I (snd (run_state (for_err xs f) w))"
  using assms
proof (induction xs arbitrary: w)
  case (Cons x xs)
  obtain r w' where x: "run_state (f x) w = (r, w')"
    by (metis prod.collapse)
  then have "I w'"
    using Cons.prems(1)[of x w] Cons.prems(2) by simp
  then have "I (snd (run_state (for_err xs f) w'))"
    by (intro Cons.IH) (use Cons.prems(1) in auto)
  with x \<open>I w'\<close> show ?case by (cases r) simp_all
qed simp

lemma for_each_append [go_run]:
  "run_state (for_each (xs @ ys) f) w =
     run_state (for_each ys f) (snd (run_state (for_each xs f) w))"
  by (induction xs arbitrary: w) (auto split: prod.splits)

text \<open>
  \<open>stays R m\<close>: every run of \<open>m\<close> relates the states before and after by \<open>R\<close>.  For a preorder
  \<open>R\<close> (something is kept, or only grows) it passes through sequences of operations.
\<close>

definition stays :: "('w \<Rightarrow> 'w \<Rightarrow> bool) \<Rightarrow> ('w, 'a) state \<Rightarrow> bool" where
  "stays R m \<longleftrightarrow> (\<forall>w r w'. run_state m w = (r, w') \<longrightarrow> R w w')"

lemma staysD: "stays R m \<Longrightarrow> run_state m w = (r, w') \<Longrightarrow> R w w'"
  by (auto simp: stays_def)

locale preorder_rel =
  fixes R :: "'w \<Rightarrow> 'w \<Rightarrow> bool"
  assumes R_refl: "R w w" and R_trans: "R u v \<Longrightarrow> R v w \<Longrightarrow> R u w"
begin

lemma stays_ret: "stays R (ret x)"
  by (simp add: stays_def R_refl)

lemma stays_bind:
  assumes "stays R m" "\<And>x. stays R (f x)"
  shows "stays R (State_Monad.bind m f)"
  unfolding stays_def
proof (intro allI impI)
  fix w r w' assume run: "run_state (State_Monad.bind m f) w = (r, w')"
  obtain x w1 where x: "run_state m w = (x, w1)" by (rule run_obtain)
  with run have "run_state (f x) w1 = (r, w')" by simp
  with x assms show "R w w'" by (meson R_trans staysD)
qed

lemmas stays_intros = stays_ret stays_bind

end

lemma upt_split: "i \<le> j \<Longrightarrow> j \<le> k \<Longrightarrow> [i..<k] = [i..<j] @ [j..<k]"
  by (metis le_iff_add upt_add_eq_append)

lemma upt_prefix:
  assumes eq: "[a..<b] @ ys = [c..<n]" and "a < b"
  shows "a = c" "b \<le> n" "ys = [b..<n]"
proof -
  have "length [a..<b] + length ys = length [c..<n]"
    using eq by (metis length_append)
  moreover have "hd ([a..<b] @ ys) = a"
    using \<open>a < b\<close> by simp
  ultimately show ac: "a = c" and "b \<le> n"
    using eq \<open>a < b\<close> by auto
  have "ys = drop (length [a..<b]) ([a..<b] @ ys)"
    by simp
  also have "\<dots> = drop (b - a) [c..<n]"
    unfolding eq by simp
  finally show "ys = [b..<n]"
    using \<open>a < b\<close> ac by (simp add: drop_upt)
qed

section \<open>uint64 arithmetic\<close>

lemma u64_less: "unat (a :: u64) < 2 ^ 64"
  using unsigned_less[of a] by simp

lemma u64_Suc: "a \<noteq> - 1 \<Longrightarrow> unat ((a :: u64) + 1) = Suc (unat a)"
  using unatSuc[of a] by (simp add: add.commute add_eq_0_iff)

lemma u64_add: "unat (a :: u64) + unat b < 2 ^ 64 \<Longrightarrow> unat (a + b) = unat a + unat b"
  by (simp add: unat_word_ariths)

end
