(* ===== verification/Strconv.thy ===== *)
theory Strconv
  imports Go_Prelude
begin

text \<open>
  The part of Go's \<open>strconv\<close> and \<open>strings\<close> that the middleware uses on offsets and block
  numbers: \<open>FormatUint\<close>, \<open>FormatInt\<close>, \<open>ParseUint\<close>, \<open>ParseInt\<close> (base 10, 64 bits)
  and \<open>strings.SplitN(s, sep, 2)\<close> with a one-character separator.  The round trips proved here carry every
  statement about persisted offsets.
\<close>

section \<open>Decimal digits\<close>

definition digit_char :: "nat \<Rightarrow> char" where
  "digit_char d = char_of (48 + d)"

definition is_digit :: "char \<Rightarrow> bool" where
  "is_digit c \<longleftrightarrow> 48 \<le> (of_char c :: nat) \<and> (of_char c :: nat) \<le> 57"

definition digit_val :: "char \<Rightarrow> nat" where
  "digit_val c = of_char c - 48"

fun fmt_nat :: "nat \<Rightarrow> string" where
  "fmt_nat n = (if n < 10 then [digit_char n] else fmt_nat (n div 10) @ [digit_char (n mod 10)])"

declare fmt_nat.simps [simp del]

definition digits_val :: "string \<Rightarrow> nat" where
  "digits_val s = foldl (\<lambda>n c. 10 * n + digit_val c) 0 s"

lemma of_char_digit [simp]: "d < 10 \<Longrightarrow> (of_char (digit_char d) :: nat) = 48 + d"
  by (simp add: digit_char_def)

lemma is_digit_char [simp]: "d < 10 \<Longrightarrow> is_digit (digit_char d)"
  by (simp add: is_digit_def)

lemma digit_val_char [simp]: "d < 10 \<Longrightarrow> digit_val (digit_char d) = d"
  by (simp add: digit_val_def)

lemma fmt_nat_digits: "list_all is_digit (fmt_nat n)"
proof (induction n rule: fmt_nat.induct)
  case (1 n)
  then show ?case by (subst fmt_nat.simps) (simp add: list_all_iff)
qed

lemma fmt_nat_nonempty [simp]: "fmt_nat n \<noteq> []"
  by (subst fmt_nat.simps) simp

lemma digits_val_snoc: "digits_val (s @ [c]) = 10 * digits_val s + digit_val c"
  by (simp add: digits_val_def)

lemma digits_val_fmt [simp]: "digits_val (fmt_nat n) = n"
proof (induction n rule: fmt_nat.induct)
  case (1 n)
  show ?case
  proof (cases "n < 10")
    case True
    then show ?thesis by (subst fmt_nat.simps) (simp add: digits_val_def)
  next
    case False
    with "1" show ?thesis by (subst fmt_nat.simps) (simp add: digits_val_snoc)
  qed
qed

lemma fmt_nat_inject [simp]: "fmt_nat m = fmt_nat n \<longleftrightarrow> m = n"
  by (metis digits_val_fmt)

lemma fmt_nat_set: "c \<in> set (fmt_nat n) \<Longrightarrow> is_digit c"
  using fmt_nat_digits[of n] by (simp add: list_all_iff)

lemma non_digit_notin_fmt: "\<not> is_digit c \<Longrightarrow> c \<notin> set (fmt_nat n)"
  using fmt_nat_set by blast

lemma hd_fmt_nat_digit: "is_digit (hd (fmt_nat n))"
  by (rule fmt_nat_set[where n = n]) simp

lemma sign_not_fmt: "\<not> is_digit c \<Longrightarrow> c # s \<noteq> fmt_nat k"
  by (metis hd_fmt_nat_digit list.sel(1))

section \<open>Formatting\<close>

definition FormatUint :: "u64 \<Rightarrow> string" where
  "FormatUint n = fmt_nat (unat n)"

definition FormatInt :: "int \<Rightarrow> string" where
  "FormatInt n = (if n < 0 then CHR ''-'' # fmt_nat (nat (- n)) else fmt_nat (nat n))"

lemma FormatUint_inject [simp]: "FormatUint m = FormatUint n \<longleftrightarrow> m = n"
  by (simp add: FormatUint_def word_unat_eq_iff)

lemma FormatInt_inject [simp]: "FormatInt m = FormatInt n \<longleftrightarrow> m = n"
proof -
  have "CHR ''-'' # s \<noteq> fmt_nat k" for s k
    by (rule sign_not_fmt) (simp add: is_digit_def)
  then show ?thesis
    unfolding FormatInt_def by (auto simp: nat_eq_iff) (metis list.inject)+
qed

section \<open>Parsing\<close>

text \<open>
  \<open>ParseUint(s, 10, 64)\<close>: the empty string and any non-digit are a syntax error, a value above
  the largest \<open>uint64\<close> is a range error.  \<open>ParseInt\<close> first takes an optional sign.
\<close>

definition MaxUint64 :: nat where "MaxUint64 = 2 ^ 64 - 1"

definition parse_mag :: "string \<Rightarrow> string \<Rightarrow> string \<Rightarrow> goerr + nat" where
  "parse_mag fn whole s =
     (if s = [] \<or> \<not> list_all is_digit s then Inl (NumError fn whole ''invalid syntax'')
      else if digits_val s > MaxUint64 then Inl (NumError fn whole ''value out of range'')
      else Inr (digits_val s))"

definition ParseUint :: "string \<Rightarrow> goerr + u64" where
  "ParseUint s = (case parse_mag ''ParseUint'' s s of Inl e \<Rightarrow> Inl e | Inr n \<Rightarrow> Inr (of_nat n))"

definition ParseInt :: "string \<Rightarrow> goerr + int" where
  "ParseInt s =
     (let neg = (s \<noteq> [] \<and> hd s = CHR ''-'');
          mag = (if s \<noteq> [] \<and> (hd s = CHR ''-'' \<or> hd s = CHR ''+'') then tl s else s)
      in case parse_mag ''ParseInt'' s mag of
           Inl e \<Rightarrow> Inl e
         | Inr n \<Rightarrow>
             if \<not> neg \<and> n \<ge> 2 ^ 63 then Inl (NumError ''ParseInt'' s ''value out of range'')
             else if neg \<and> n > 2 ^ 63 then Inl (NumError ''ParseInt'' s ''value out of range'')
             else Inr (if neg then - int n else int n))"

lemma parse_mag_fmt: "n \<le> MaxUint64 \<Longrightarrow> parse_mag fn w (fmt_nat n) = Inr n"
  using fmt_nat_digits[of n] by (simp add: parse_mag_def)

lemma FormatUint_nonempty [simp]: "FormatUint n \<noteq> []"
  by (simp add: FormatUint_def)

lemma ParseUint_FormatUint [simp]: "ParseUint (FormatUint n) = Inr n"
proof -
  have "unat n < 2 ^ LENGTH(64)"
    by (rule unsigned_less)
  then have "unat n \<le> MaxUint64"
    by (simp add: MaxUint64_def)
  then show ?thesis
    by (simp add: ParseUint_def FormatUint_def parse_mag_fmt)
qed

definition int64_range :: "int \<Rightarrow> bool" where
  "int64_range n \<longleftrightarrow> - (2 ^ 63) \<le> n \<and> n < 2 ^ 63"

lemma ParseInt_fmt_nat: "n < 2 ^ 63 \<Longrightarrow> ParseInt (fmt_nat n) = Inr (int n)"
  using hd_fmt_nat_digit[of n]
  by (auto simp: ParseInt_def parse_mag_fmt MaxUint64_def is_digit_def Let_def)

lemma ParseInt_FormatInt [simp]:
  assumes "int64_range n"
  shows "ParseInt (FormatInt n) = Inr n"
proof (cases "n < 0")
  case True
  with assms have "nat (- n) \<le> 2 ^ 63"
    by (simp add: int64_range_def)
  with True show ?thesis
    by (auto simp: ParseInt_def FormatInt_def parse_mag_fmt MaxUint64_def Let_def)
next
  case False
  with assms show ?thesis
    by (simp add: FormatInt_def ParseInt_fmt_nat int64_range_def nat_less_iff)
qed

lemma ParseInt_range: "ParseInt s = Inr n \<Longrightarrow> int64_range n"
  by (auto simp: ParseInt_def int64_range_def Let_def split: sum.splits if_splits)

section \<open>Splitting at the first separator\<close>

text \<open>The parts of \<open>strings.SplitN(s, sep, 2)\<close> for a one-character separator.\<close>

definition SplitN2 :: "string \<Rightarrow> char \<Rightarrow> string list" where
  "SplitN2 s c =
     (if c \<in> set s
      then [takeWhile (\<lambda>x. x \<noteq> c) s, tl (dropWhile (\<lambda>x. x \<noteq> c) s)]
      else [s])"

lemma SplitN2_hit: "c \<notin> set a \<Longrightarrow> SplitN2 (a @ c # b) c = [a, b]"
  by (auto simp: SplitN2_def takeWhile_append dropWhile_append)

lemma SplitN2_nonempty [simp]: "SplitN2 s c \<noteq> []"
  by (simp add: SplitN2_def)

end
