(* ===== verification/Ledger_Values.thy ===== *)
theory Ledger_Values
  imports Strconv "HOL-Library.List_Lexorder" "HOL-Library.Char_ord" "HOL-Library.Multiset"
begin

text \<open>
  The package \<open>pkg/cantonsdk/values\<close>: Daml values as the Ledger API delivers them
  (\<open>lapiv2.Value\<close>), the accessors that read them, the constructors that build them, and the
  Splice metadata codec.

  A pointer that the code tests for nil is an option.  A nil \<open>*Value\<close> is \<^const>\<open>None\<close>; the
  oneof \<open>Sum\<close> is the datatype's constructor, \<open>V_NoSum\<close> when it is unset.  The one message
  pointer that is dereferenced without a test (the \<open>List\<close> of a list value) is
  taken to be present, as a decoded protobuf oneof always has it.  A Go map is
  \<open>('k \<rightharpoonup> 'v) option\<close>, \<^const>\<open>None\<close> for the nil map; a map that is iterated
  (\<open>EncodeMetadata\<close>) is given as the association list of the iteration.
\<close>

section \<open>Values\<close>

datatype Value =
    V_NoSum
  | V_Unit
  | V_Bool bool
  | V_Int64 int
  | V_Date int
  | V_Timestamp int
  | V_Numeric string
  | V_Party string
  | V_Text string
  | V_ContractId string
  | V_Optional "Value option option"
  | V_List "Value option list"
  | V_TextMap "(string \<times> Value option) list option"
  | V_GenMap "(Value option \<times> Value option) list option"
  | V_Record "(string \<times> Value option) list option"
  | V_Variant string "Value option"
  | V_Enum string

type_synonym Record = "(string \<times> Value option) list"
type_synonym vmap = "(string \<rightharpoonup> Value option) option"

text \<open>Reading a key of a Go map of pointers: absent keys and the nil map give nil.\<close>

definition mget :: "vmap \<Rightarrow> string \<Rightarrow> Value option" where
  "mget m k = (case m of None \<Rightarrow> None | Some f \<Rightarrow> (case f k of None \<Rightarrow> None | Some v \<Rightarrow> v))"

lemma mget_simps [simp]:
  "mget None k = None"
  "mget (Some f) k = (case f k of None \<Rightarrow> None | Some v \<Rightarrow> v)"
  by (simp_all add: mget_def)

text \<open>\<open>time.Time\{\}\<close> (January 1, year 1) and the microsecond conversions.\<close>

definition zero_time :: time where
  "zero_time = - 62135596800 * 10 ^ 9"

definition UnixMicro :: "int \<Rightarrow> time" where
  "UnixMicro us = us * 1000"

definition to_UnixMicro :: "time \<Rightarrow> int" where
  "to_UnixMicro t = t div 1000"

lemma to_UnixMicro_UnixMicro [simp]: "to_UnixMicro (UnixMicro us) = us"
  by (simp add: to_UnixMicro_def UnixMicro_def)

section \<open>Records\<close>

definition RecordToMap :: "Record option \<Rightarrow> vmap" where
  "RecordToMap r =
     (case r of
        None \<Rightarrow> Some Map.empty
      | Some fs \<Rightarrow> Some (foldl (\<lambda>out f. if fst f = '''' then out else out(fst f \<mapsto> snd f)) Map.empty fs))"

section \<open>Accessors\<close>

fun Text :: "Value option \<Rightarrow> string" where
  "Text (Some (V_Text t)) = t"
| "Text _ = ''''"

fun TextOK :: "Value option \<Rightarrow> string \<times> bool" where
  "TextOK (Some (V_Text t)) = (t, True)"
| "TextOK _ = ('''', False)"

fun Party :: "Value option \<Rightarrow> string" where
  "Party (Some (V_Party p)) = p"
| "Party _ = ''''"

fun PartyOK :: "Value option \<Rightarrow> string \<times> bool" where
  "PartyOK (Some (V_Party p)) = (p, True)"
| "PartyOK _ = ('''', False)"

fun PartyList :: "Value option \<Rightarrow> string list" where
  "PartyList (Some (V_List es)) = filter (\<lambda>p. p \<noteq> '''') (map Party es)"
| "PartyList _ = []"

fun Numeric :: "Value option \<Rightarrow> string" where
  "Numeric (Some (V_Numeric n)) = n"
| "Numeric _ = ''0''"

fun NumericOK :: "Value option \<Rightarrow> string \<times> bool" where
  "NumericOK (Some (V_Numeric n)) = (n, True)"
| "NumericOK _ = ('''', False)"

fun ContractID :: "Value option \<Rightarrow> string" where
  "ContractID (Some (V_ContractId c)) = c"
| "ContractID _ = ''''"

fun IsNone :: "Value option \<Rightarrow> bool" where
  "IsNone None = True"
| "IsNone (Some (V_Optional opt)) = (case opt of None \<Rightarrow> True | Some v \<Rightarrow> v = None)"
| "IsNone (Some _) = False"

fun OptionalText :: "Value option \<Rightarrow> string" where
  "OptionalText (Some (V_Optional (Some v))) = Text v"
| "OptionalText _ = ''''"

fun OptionalParty :: "Value option \<Rightarrow> string" where
  "OptionalParty (Some (V_Optional (Some v))) = Party v"
| "OptionalParty _ = ''''"

fun Timestamp :: "Value option \<Rightarrow> time" where
  "Timestamp (Some (V_Timestamp t)) = UnixMicro t"
| "Timestamp _ = zero_time"

fun TimestampOK :: "Value option \<Rightarrow> time \<times> bool" where
  "TimestampOK (Some (V_Timestamp t)) = (UnixMicro t, True)"
| "TimestampOK _ = (zero_time, False)"

fun NewtypeText :: "Value option \<Rightarrow> string" where
  "NewtypeText (Some (V_Record (Some (f # fs)))) = Text (snd f)"
| "NewtypeText _ = ''''"

fun RecordField :: "Value option \<Rightarrow> vmap" where
  "RecordField (Some (V_Record (Some r))) = RecordToMap (Some r)"
| "RecordField _ = None"

definition NestedTextField :: "Value option \<Rightarrow> string \<Rightarrow> string" where
  "NestedTextField v f = Text (mget (RecordField v) f)"

definition NestedTextFieldOK :: "Value option \<Rightarrow> string \<Rightarrow> string \<times> bool" where
  "NestedTextFieldOK v f = TextOK (mget (RecordField v) f)"

definition NestedPartyField :: "Value option \<Rightarrow> string \<Rightarrow> string" where
  "NestedPartyField v f = Party (mget (RecordField v) f)"

definition NestedPartyFieldOK :: "Value option \<Rightarrow> string \<Rightarrow> string \<times> bool" where
  "NestedPartyFieldOK v f = PartyOK (mget (RecordField v) f)"

definition OptionalRecordFields :: "Value option \<Rightarrow> vmap" where
  "OptionalRecordFields v =
     (if IsNone v then None
      else case v of
        Some (V_Optional (Some (Some u))) \<Rightarrow> RecordField (Some u)
      | _ \<Rightarrow> None)"

text \<open>The first entry with the key wins, in both encodings.\<close>

fun MapLookupText :: "Value option \<Rightarrow> string \<Rightarrow> string" where
  "MapLookupText (Some (V_TextMap (Some es))) key =
     (case find (\<lambda>e. fst e = key) es of None \<Rightarrow> '''' | Some e \<Rightarrow> Text (snd e))"
| "MapLookupText (Some (V_GenMap (Some es))) key =
     (case find (\<lambda>e. Text (fst e) = key) es of None \<Rightarrow> '''' | Some e \<Rightarrow> Text (snd e))"
| "MapLookupText _ key = ''''"

section \<open>Constructors\<close>

definition TextValue :: "string \<Rightarrow> Value option" where "TextValue v = Some (V_Text v)"
definition PartyValue :: "string \<Rightarrow> Value option" where "PartyValue v = Some (V_Party v)"
definition NumericValue :: "string \<Rightarrow> Value option" where "NumericValue v = Some (V_Numeric v)"
definition ContractIDValue :: "string \<Rightarrow> Value option" where
  "ContractIDValue v = Some (V_ContractId v)"
definition TimestampValue :: "time \<Rightarrow> Value option" where
  "TimestampValue t = Some (V_Timestamp (to_UnixMicro t))"
definition None_value :: "Value option" where "None_value = Some (V_Optional None)"
definition Optional :: "Value option \<Rightarrow> Value option" where
  "Optional v = Some (V_Optional (Some v))"
definition NewtypeValue :: "Value option \<Rightarrow> Value option" where
  "NewtypeValue inner = Some (V_Record (Some [('''', inner)]))"
definition ListValue :: "Value option list \<Rightarrow> Value option" where
  "ListValue es = Some (V_List es)"
definition Int64Value :: "int \<Rightarrow> Value option" where "Int64Value v = Some (V_Int64 v)"

lemmas value_defs = TextValue_def PartyValue_def NumericValue_def ContractIDValue_def
  TimestampValue_def None_value_def Optional_def NewtypeValue_def ListValue_def Int64Value_def

section \<open>Splice metadata\<close>

definition DecodeTextMap :: "Value option \<Rightarrow> (string \<rightharpoonup> string)" where
  "DecodeTextMap v =
     (case v of
        Some (V_TextMap (Some es)) \<Rightarrow> foldl (\<lambda>out e. out(fst e \<mapsto> Text (snd e))) Map.empty es
      | _ \<Rightarrow> Map.empty)"

definition DecodeMetadata :: "Value option \<Rightarrow> (string \<rightharpoonup> string)" where
  "DecodeMetadata v =
     (case v of
        Some (V_Record (Some r)) \<Rightarrow>
          (case mget (RecordToMap (Some r)) ''values'' of
             None \<Rightarrow> Map.empty
           | Some u \<Rightarrow> DecodeTextMap (Some u))
      | _ \<Rightarrow> Map.empty)"

definition MetaKeySymbol :: string where
  "MetaKeySymbol = ''splice.chainsafe.io/symbol''"

definition MetaSymbol :: "Value option \<Rightarrow> string" where
  "MetaSymbol v = (case DecodeMetadata v MetaKeySymbol of None \<Rightarrow> '''' | Some s \<Rightarrow> s)"

text \<open>\<open>kvs\<close> is the map in the order in which \<open>range\<close> happens to deliver it.\<close>

definition EncodeMetadata :: "(string \<times> string) list \<Rightarrow> Value option" where
  "EncodeMetadata kvs =
     (let keys = sort (map fst kvs);
          entries = map (\<lambda>k. (k, TextValue (case map_of kvs k of None \<Rightarrow> '''' | Some v \<Rightarrow> v))) keys
      in Some (V_Record (Some [(''values'', Some (V_TextMap (Some entries)))])))"

definition EmptyMetadata :: "Value option" where
  "EmptyMetadata = EncodeMetadata []"

definition EncodeInstrumentId :: "string \<Rightarrow> string \<Rightarrow> Value option" where
  "EncodeInstrumentId admin i =
     Some (V_Record (Some [(''admin'', PartyValue admin), (''id'', TextValue i)]))"

definition EncodeExtraArgs :: "(string \<times> string) list \<Rightarrow> Value option" where
  "EncodeExtraArgs choiceContext =
     (let contextValue = (if length choiceContext > 0 then EncodeMetadata choiceContext
                          else EmptyMetadata)
      in Some (V_Record (Some [(''context'', contextValue), (''meta'', EmptyMetadata)])))"

definition EncodeOptionalMetadata :: "(string \<times> string) list \<Rightarrow> Value option" where
  "EncodeOptionalMetadata kvs =
     (if length kvs = 0 then None_value else Optional (EncodeMetadata kvs))"

definition DecodeOptionalMetadata :: "Value option \<Rightarrow> (string \<rightharpoonup> string) option" where
  "DecodeOptionalMetadata v =
     (if IsNone v then None
      else case v of
        Some (V_Optional (Some (Some u))) \<Rightarrow> Some (DecodeMetadata (Some u))
      | _ \<Rightarrow> None)"

definition MetaSymbolFromRecord :: "Record option \<Rightarrow> string" where
  "MetaSymbolFromRecord args =
     (case args of None \<Rightarrow> '''' | Some r \<Rightarrow> MetaSymbol (mget (RecordToMap (Some r)) ''meta''))"

definition DecodeInstrumentId :: "Value option \<Rightarrow> string \<times> string" where
  "DecodeInstrumentId v =
     (case v of
        Some (V_Record (Some r)) \<Rightarrow>
          (let fields = RecordToMap (Some r)
           in (Party (mget fields ''admin''), Text (mget fields ''id'')))
      | _ \<Rightarrow> ('''', ''''))"

section \<open>Lemmas\<close>

lemma RecordToMap_foldl:
  "foldl (\<lambda>out f. if fst f = '''' then out else out(fst f \<mapsto> snd f)) m fs =
     m ++ map_of (rev (filter (\<lambda>f. fst f \<noteq> '''') fs))"
  by (induction fs arbitrary: m) (auto simp: map_add_def fun_eq_iff split: option.splits)

text \<open>Reading a field of a record gives its last occurrence; unlabelled fields are invisible.\<close>

lemma mget_RecordToMap:
  assumes "k \<noteq> ''''" "distinct (map fst (filter (\<lambda>f. fst f \<noteq> '''') fs))" "(k, v) \<in> set fs"
  shows "mget (RecordToMap (Some fs)) k = v"
proof -
  have "map_of (rev (filter (\<lambda>f. fst f \<noteq> '''') fs)) k = Some v"
    using assms by (intro map_of_is_SomeI) (auto simp: rev_map[symmetric])
  then show ?thesis by (simp add: RecordToMap_def RecordToMap_foldl)
qed

text \<open>The accessors invert the constructors.\<close>

lemma accessor_inverse [simp]:
  "Text (TextValue s) = s" "Party (PartyValue s) = s" "Numeric (NumericValue s) = s"
  "ContractID (ContractIDValue s) = s" "NewtypeText (NewtypeValue (TextValue s)) = s"
  "OptionalText (Optional (TextValue s)) = s" "OptionalParty (Optional (PartyValue s)) = s"
  by (simp_all add: value_defs)

lemma DecodeInstrumentId_Encode [simp]:
  "DecodeInstrumentId (EncodeInstrumentId admin i) = (admin, i)"
  by (simp add: DecodeInstrumentId_def EncodeInstrumentId_def RecordToMap_def Let_def value_defs)

text \<open>Folding entries whose values are a function of their keys.\<close>

lemma foldl_text_entries:
  "foldl (\<lambda>out e. out(fst e \<mapsto> Text (snd e))) m (map (\<lambda>k. (k, TextValue (f k))) ks) =
     (\<lambda>k. if k \<in> set ks then Some (f k) else m k)"
  by (induction ks arbitrary: m) (auto simp: fun_eq_iff)

lemma DecodeMetadata_Encode: "DecodeMetadata (EncodeMetadata kvs) = map_of kvs"
proof -
  have "DecodeMetadata (EncodeMetadata kvs) =
      (\<lambda>k. if k \<in> set (map fst kvs)
           then Some (case map_of kvs k of None \<Rightarrow> '''' | Some v \<Rightarrow> v) else None)"
    by (simp add: DecodeMetadata_def EncodeMetadata_def DecodeTextMap_def RecordToMap_def
        Let_def foldl_text_entries)
  also have "\<dots> = map_of kvs"
  proof (rule ext)
    fix k
    show "(if k \<in> set (map fst kvs)
           then Some (case map_of kvs k of None \<Rightarrow> '''' | Some v \<Rightarrow> v) else None) = map_of kvs k"
    proof (cases "map_of kvs k")
      case None
      then have "k \<notin> fst ` set kvs"
        by (simp add: map_of_eq_None_iff)
      with None show ?thesis by simp
    next
      case (Some v)
      then have "k \<in> fst ` set kvs"
        by (metis map_of_eq_None_iff option.distinct(1))
      with Some show ?thesis by simp
    qed
  qed
  finally show ?thesis .
qed

text \<open>
  The encoding of a metadata map is a function of the map and not of the order in which Go
  iterates over it: two iteration orders of the same map give the same value, which is what lets a
  prepared transaction be hashed and signed twice with the same result.
\<close>

lemma metadata_deterministic:
  assumes "distinct (map fst kvs)" "distinct (map fst kvs')" "map_of kvs = map_of kvs'"
  shows "EncodeMetadata kvs = EncodeMetadata kvs'"
proof -
  have "set (map fst kvs) = set (map fst kvs')"
    using assms(3) by (metis dom_map_of_conv_image_fst list.set_map)
  then have "mset (map fst kvs) = mset (map fst kvs')"
    using assms(1,2) by (simp only: set_eq_iff_mset_eq_distinct)
  then have "sort (map fst kvs) = sort (map fst kvs')"
    by (simp only: properties_for_sort mset_sort sorted_sort)
  then show ?thesis
    by (simp add: EncodeMetadata_def Let_def assms(3))
qed

text \<open>
  C32: what the encoders write the decoders read back: a metadata map (for every iteration order
  of it), an optional metadata map, where the empty map becomes \<open>None\<close>, and the administrator and
  id of an instrument.
\<close>

theorem values_roundtrip:
  "DecodeMetadata (EncodeMetadata kvs) = map_of kvs \<and>
   DecodeOptionalMetadata (EncodeOptionalMetadata kvs) = (if kvs = [] then None else Some (map_of kvs)) \<and>
   DecodeInstrumentId (EncodeInstrumentId admin i) = (admin, i)"
proof -
  obtain v where v: "EncodeMetadata kvs = Some v" by (simp add: EncodeMetadata_def Let_def)
  then have "DecodeMetadata (Some v) = map_of kvs" using DecodeMetadata_Encode[of kvs] by simp
  then show ?thesis
    by (simp add: v DecodeOptionalMetadata_def EncodeOptionalMetadata_def value_defs)
qed

end
