(* ===== verification/Relayer_Store.thy ===== *)
theory Relayer_Store
  imports Ledger_Values
begin

text \<open>
  The relayer's data (\<open>pkg/relayer/types.go\<close>, \<open>config.go\<close>) and its PostgreSQL store
  (\<open>pkg/relayer/store\<close>).  The Go interface \<open>engine.BridgeStore\<close> is a record of
  operations over a world \<open>'w\<close>; the locale \<open>bridge_store\<close> states what its clients rely
  on, and it is interpreted on the SQL statements of \<open>PGStore\<close>.

  The database is two tables, the clock that \<open>time.Now\<close> and \<open>current_timestamp\<close> read, and a
  schedule of outcomes: every statement executed (and every \<open>RowsAffected\<close> call) takes the next
  entry, which makes it fail with an error or lets it through; an exhausted schedule lets
  everything through.
\<close>

section \<open>Types\<close>

definition ChainCanton :: string where "ChainCanton = ''canton''"
definition ChainEthereum :: string where "ChainEthereum = ''ethereum''"
definition OffsetBegin :: string where "OffsetBegin = ''BEGIN''"

datatype TransferStatus =
    TransferStatusPending
  | TransferStatusCompleted
  | TransferStatusFailed

datatype TransferDirection =
    DirectionCantonToEthereum
  | DirectionEthereumToCanton

record Transfer =
  T_ID :: string
  T_Direction :: TransferDirection
  T_Status :: TransferStatus
  T_SourceChain :: string
  T_DestinationChain :: string
  T_SourceTxHash :: string
  T_DestinationTxHash :: "string option"
  T_TokenAddress :: string
  T_Amount :: string
  T_Sender :: string
  T_Recipient :: string
  T_Nonce :: int
  T_SourceBlockNumber :: u64
  T_RetryCount :: int
  T_CreatedAt :: time
  T_UpdatedAt :: time
  T_CompletedAt :: "time option"
  T_ErrorMessage :: "string option"

record ChainState =
  CS_ChainID :: string
  CS_LastBlock :: u64
  CS_Offset :: string
  CS_UpdatedAt :: time

record Event =
  E_ID :: string
  E_TransactionID :: string
  E_SourceChain :: string
  E_DestinationChain :: string
  E_SourceTxHash :: string
  E_SourceContractID :: string
  E_TokenAddress :: string
  E_Amount :: string
  E_Sender :: string
  E_Recipient :: string
  E_Nonce :: int
  E_SourceBlockNumber :: u64
  E_Checkpoint :: bool

record Config =
  MaxRetries :: int
  RetryDelay :: int
  CantonChainID :: string
  CantonStartBlock :: u64
  CantonLookback :: int
  EthChainID :: string
  EthStartBlock :: u64
  EthLookbackBlocks :: int
  EthTokenContract :: string

section \<open>The store interface\<close>

record 'w BridgeStore =
  CreateTransfer :: "Transfer \<Rightarrow> ('w, goerr + bool) state"
  GetTransfer :: "string \<Rightarrow> ('w, goerr + Transfer option) state"
  UpdateTransferStatus :: "string \<Rightarrow> TransferStatus \<Rightarrow> string option \<Rightarrow> string option
     \<Rightarrow> ('w, goerr + unit) state"
  IncrementRetryCount :: "string \<Rightarrow> ('w, goerr + unit) state"
  GetChainState :: "string \<Rightarrow> ('w, goerr + ChainState option) state"
  SetChainState :: "string \<Rightarrow> u64 \<Rightarrow> string \<Rightarrow> ('w, goerr + unit) state"
  GetPendingTransfers :: "TransferDirection \<Rightarrow> ('w, goerr + Transfer list) state"
  ListTransfers :: "int \<Rightarrow> ('w, goerr + Transfer list) state"

section \<open>The database\<close>

type_synonym TransferDao = Transfer
type_synonym ChainStateDao = ChainState

record relayer_db =
  db_transfers :: "TransferDao list"
  db_chain_state :: "string \<rightharpoonup> ChainStateDao"
  db_now :: time
  db_faults :: "goerr option list"

text \<open>The outcome of the next database call.\<close>

definition db_exec :: "('a relayer_db_scheme, goerr option) state" where
  "db_exec = State (\<lambda>d. case db_faults d of
     [] \<Rightarrow> (None, d)
   | f # fs \<Rightarrow> (f, d\<lparr>db_faults := fs\<rparr>))"

definition Now :: "('a relayer_db_scheme, time) state" where
  "Now = gets db_now"

text \<open>
  \<open>CreatedAt\<close> and \<open>UpdatedAt\<close> are not copied into the row, so the columns' default
  (\<open>current_timestamp\<close>) applies on insertion.
\<close>

definition toTransferDao :: "Transfer \<Rightarrow> TransferDao" where
  "toTransferDao t = t\<lparr>T_CreatedAt := zero_time, T_UpdatedAt := zero_time\<rparr>"

definition fromTransferDao :: "TransferDao \<Rightarrow> Transfer" where
  "fromTransferDao d = d"

definition fromChainStateDao :: "ChainStateDao \<Rightarrow> ChainState" where
  "fromChainStateDao d = d"

definition column_defaults :: "time \<Rightarrow> TransferDao \<Rightarrow> TransferDao" where
  "column_defaults now d =
     d\<lparr>T_CreatedAt := (if T_CreatedAt d = zero_time then now else T_CreatedAt d),
       T_UpdatedAt := (if T_UpdatedAt d = zero_time then now else T_UpdatedAt d)\<rparr>"

definition has_row :: "string \<Rightarrow> 'a relayer_db_scheme \<Rightarrow> bool" where
  "has_row i d \<longleftrightarrow> i \<in> T_ID ` set (db_transfers d)"

definition insert_row :: "TransferDao \<Rightarrow> 'a relayer_db_scheme \<Rightarrow> 'a relayer_db_scheme" where
  "insert_row t d = d\<lparr>db_transfers := db_transfers d @ [t]\<rparr>"

definition pg_CreateTransfer :: "Transfer \<Rightarrow> ('a relayer_db_scheme, goerr + bool) state" where
  "pg_CreateTransfer t = do {
     let dao = toTransferDao t;
     err \<leftarrow> db_exec;
     case err of
       Some e \<Rightarrow> ret (Inl (Errorf ''create transfer'' e))
     | None \<Rightarrow> do {
         conflict \<leftarrow> gets (has_row (T_ID dao));
         now \<leftarrow> Now;
         (if conflict then ret ()
          else modify (insert_row (column_defaults now dao)));
         err \<leftarrow> db_exec;
         (case err of
            Some e \<Rightarrow> ret (Inl (Errorf ''create transfer rows affected'' e))
          | None \<Rightarrow> ret (Inr (\<not> conflict))) } }"

definition pg_GetTransfer :: "string \<Rightarrow> ('a relayer_db_scheme, goerr + Transfer option) state" where
  "pg_GetTransfer i = do {
     err \<leftarrow> db_exec;
     case err of
       Some e \<Rightarrow> ret (Inl (Errorf ''get transfer'' e))
     | None \<Rightarrow> gets (\<lambda>d. Inr (map_option fromTransferDao (find (\<lambda>t. T_ID t = i) (db_transfers d)))) }"

text \<open>An \<open>UPDATE transfers SET \<dots> WHERE id = ?\<close> statement.\<close>

definition update_row :: "string \<Rightarrow> (TransferDao \<Rightarrow> TransferDao) \<Rightarrow> 'a relayer_db_scheme \<Rightarrow> 'a relayer_db_scheme" where
  "update_row i f d = d\<lparr>db_transfers := map (\<lambda>t. if T_ID t = i then f t else t) (db_transfers d)\<rparr>"

definition exec_update ::
  "string \<Rightarrow> string \<Rightarrow> (TransferDao \<Rightarrow> TransferDao) \<Rightarrow> ('a relayer_db_scheme, goerr + unit) state" where
  "exec_update what i f = do {
     err \<leftarrow> db_exec;
     case err of
       Some e \<Rightarrow> ret (Inl (Errorf what e))
     | None \<Rightarrow> do {
         found \<leftarrow> gets (has_row i);
         modify (update_row i f);
         err \<leftarrow> db_exec;
         (case err of
            Some e \<Rightarrow> ret (Inl (Errorf (what @ '' rows affected'') e))
          | None \<Rightarrow> ret (if found then Inr () else Inl (Err (''transfer '' @ i @ '' not found'')))) } }"

definition set_status ::
  "time \<Rightarrow> TransferStatus \<Rightarrow> string option \<Rightarrow> string option \<Rightarrow> TransferDao \<Rightarrow> TransferDao" where
  "set_status now status destTxHash errMsg t =
     (let t' = t\<lparr>T_Status := status, T_DestinationTxHash := destTxHash,
                T_ErrorMessage := errMsg, T_UpdatedAt := now\<rparr>
      in if status = TransferStatusCompleted then t'\<lparr>T_CompletedAt := Some now\<rparr> else t')"

definition pg_UpdateTransferStatus ::
  "string \<Rightarrow> TransferStatus \<Rightarrow> string option \<Rightarrow> string option
     \<Rightarrow> ('a relayer_db_scheme, goerr + unit) state" where
  "pg_UpdateTransferStatus i status destTxHash errMsg = do {
     now \<leftarrow> Now;
     exec_update ''update transfer status'' i (set_status now status destTxHash errMsg) }"

definition bump_retry :: "time \<Rightarrow> TransferDao \<Rightarrow> TransferDao" where
  "bump_retry now t = t\<lparr>T_RetryCount := T_RetryCount t + 1, T_UpdatedAt := now\<rparr>"

definition pg_IncrementRetryCount :: "string \<Rightarrow> ('a relayer_db_scheme, goerr + unit) state" where
  "pg_IncrementRetryCount i = do {
     now \<leftarrow> Now;
     exec_update ''increment retry count'' i (bump_retry now) }"

definition pg_GetPendingTransfers ::
  "TransferDirection \<Rightarrow> ('a relayer_db_scheme, goerr + Transfer list) state" where
  "pg_GetPendingTransfers direction = do {
     err \<leftarrow> db_exec;
     case err of
       Some e \<Rightarrow> ret (Inl (Errorf ''get pending transfers'' e))
     | None \<Rightarrow> gets (\<lambda>d. Inr (map fromTransferDao (sort_key T_CreatedAt
         (filter (\<lambda>t. T_Direction t = direction \<and> T_Status t = TransferStatusPending)
            (db_transfers d))))) }"

definition pg_ListTransfers :: "int \<Rightarrow> ('a relayer_db_scheme, goerr + Transfer list) state" where
  "pg_ListTransfers limit = do {
     err \<leftarrow> db_exec;
     case err of
       Some e \<Rightarrow> ret (Inl (Errorf ''list transfers'' e))
     | None \<Rightarrow> gets (\<lambda>d. Inr (map fromTransferDao
         (let ts = sort_key (\<lambda>t. - T_CreatedAt t) (db_transfers d)
          in if limit > 0 then take (nat limit) ts else ts))) }"

definition pg_GetChainState ::
  "string \<Rightarrow> ('a relayer_db_scheme, goerr + ChainState option) state" where
  "pg_GetChainState chainID = do {
     err \<leftarrow> db_exec;
     case err of
       Some e \<Rightarrow> ret (Inl (Errorf ''get chain state'' e))
     | None \<Rightarrow> gets (\<lambda>d. Inr (map_option fromChainStateDao (db_chain_state d chainID))) }"

definition pg_SetChainState ::
  "string \<Rightarrow> u64 \<Rightarrow> string \<Rightarrow> ('a relayer_db_scheme, goerr + unit) state" where
  "pg_SetChainState chainID blockNumber offset = do {
     now \<leftarrow> Now;
     err \<leftarrow> db_exec;
     case err of
       Some e \<Rightarrow> ret (Inl (Errorf ''set chain state'' e))
     | None \<Rightarrow> do {
         modify (\<lambda>d. d\<lparr>db_chain_state := (db_chain_state d)(chainID \<mapsto>
           \<lparr>CS_ChainID = chainID, CS_LastBlock = blockNumber, CS_Offset = offset,
            CS_UpdatedAt = now\<rparr>)\<rparr>);
         ret (Inr ()) } }"

definition PGStore :: "'a relayer_db_scheme BridgeStore" where
  "PGStore = \<lparr>CreateTransfer = pg_CreateTransfer, GetTransfer = pg_GetTransfer,
     UpdateTransferStatus = pg_UpdateTransferStatus, IncrementRetryCount = pg_IncrementRetryCount,
     GetChainState = pg_GetChainState, SetChainState = pg_SetChainState,
     GetPendingTransfers = pg_GetPendingTransfers, ListTransfers = pg_ListTransfers\<rparr>"

section \<open>The contract of the store\<close>

text \<open>
  \<open>rows\<close> and \<open>chain\<close> are what the two tables say, \<open>inv\<close> is the store's own invariant.
  An operation that reports an error may nevertheless have taken effect: the error of
  \<open>RowsAffected\<close> comes after the statement.  What no operation does is report a success
  that is not in the table, touch another row, or touch the other table.
\<close>

text \<open>\<open>stamped t t'\<close>: the row \<open>t'\<close> is \<open>t\<close> with the timestamps of the database.\<close>

definition stamped :: "Transfer \<Rightarrow> Transfer \<Rightarrow> bool" where
  "stamped t t' \<longleftrightarrow> t' = t\<lparr>T_CreatedAt := T_CreatedAt t', T_UpdatedAt := T_UpdatedAt t'\<rparr>"

lemma stamped_fields:
  assumes "stamped t t'"
  shows "T_ID t' = T_ID t" "T_Direction t' = T_Direction t" "T_Status t' = T_Status t"
    "T_RetryCount t' = T_RetryCount t" "T_CompletedAt t' = T_CompletedAt t"
proof -
  have "T_ID t' = T_ID (t\<lparr>T_CreatedAt := T_CreatedAt t', T_UpdatedAt := T_UpdatedAt t'\<rparr>)"
    "T_Direction t' = T_Direction (t\<lparr>T_CreatedAt := T_CreatedAt t', T_UpdatedAt := T_UpdatedAt t'\<rparr>)"
    "T_Status t' = T_Status (t\<lparr>T_CreatedAt := T_CreatedAt t', T_UpdatedAt := T_UpdatedAt t'\<rparr>)"
    "T_RetryCount t' = T_RetryCount (t\<lparr>T_CreatedAt := T_CreatedAt t', T_UpdatedAt := T_UpdatedAt t'\<rparr>)"
    "T_CompletedAt t' = T_CompletedAt (t\<lparr>T_CreatedAt := T_CreatedAt t', T_UpdatedAt := T_UpdatedAt t'\<rparr>)"
    using assms unfolding stamped_def by (rule arg_cong)+
  then show "T_ID t' = T_ID t" "T_Direction t' = T_Direction t" "T_Status t' = T_Status t"
    "T_RetryCount t' = T_RetryCount t" "T_CompletedAt t' = T_CompletedAt t"
    by simp_all
qed

locale bridge_store =
  fixes S :: "'w BridgeStore"
    and rows :: "'w \<Rightarrow> string \<rightharpoonup> Transfer"
    and chain :: "'w \<Rightarrow> string \<rightharpoonup> ChainState"
    and inv :: "'w \<Rightarrow> bool"
  assumes create_law:
    "run_state (CreateTransfer S t) w = (r, w') \<Longrightarrow> inv w \<Longrightarrow>
       inv w' \<and> chain w' = chain w \<and>
       (rows w' = rows w \<and> r \<noteq> Inr True \<and> (r = Inr False \<longrightarrow> rows w (T_ID t) \<noteq> None)
        \<or> (\<exists>t'. rows w (T_ID t) = None \<and> r \<noteq> Inr False \<and> stamped t t' \<and>
             rows w' = (rows w)(T_ID t \<mapsto> t')))"
    and update_law:
    "run_state (UpdateTransferStatus S i st h m) w = (ru, w') \<Longrightarrow> inv w \<Longrightarrow>
       inv w' \<and> chain w' = chain w \<and>
       (rows w' = rows w \<and> ru \<noteq> Inr ()
        \<or> (\<exists>t now. rows w i = Some t \<and> rows w' = (rows w)(i \<mapsto> set_status now st h m t)))"
    and retry_law:
    "run_state (IncrementRetryCount S i) w = (ru, w') \<Longrightarrow> inv w \<Longrightarrow>
       inv w' \<and> chain w' = chain w \<and>
       (rows w' = rows w \<and> ru \<noteq> Inr ()
        \<or> (\<exists>t now. rows w i = Some t \<and> rows w' = (rows w)(i \<mapsto> bump_retry now t)))"
    and set_chain_law:
    "run_state (SetChainState S c b off) w = (ru, w') \<Longrightarrow> inv w \<Longrightarrow>
       inv w' \<and> rows w' = rows w \<and>
       (if ru = Inr () then \<exists>s. chain w' = (chain w)(c \<mapsto> s) \<and>
           CS_ChainID s = c \<and> CS_LastBlock s = b \<and> CS_Offset s = off
        else chain w' = chain w)"
    and get_chain_law:
    "run_state (GetChainState S c) w = (rc, w') \<Longrightarrow> inv w \<Longrightarrow>
       inv w' \<and> rows w' = rows w \<and> chain w' = chain w \<and> (\<forall>s. rc = Inr s \<longrightarrow> s = chain w c)"
    and get_law:
    "run_state (GetTransfer S i) w = (rt, w') \<Longrightarrow> inv w \<Longrightarrow>
       inv w' \<and> rows w' = rows w \<and> chain w' = chain w \<and> (\<forall>t. rt = Inr t \<longrightarrow> t = rows w i)"
    and pending_law:
    "run_state (GetPendingTransfers S dir) w = (rp, w') \<Longrightarrow> inv w \<Longrightarrow>
       inv w' \<and> rows w' = rows w \<and> chain w' = chain w \<and>
       (\<forall>ts. rp = Inr ts \<longrightarrow> distinct (map T_ID ts) \<and>
          (\<forall>t. t \<in> set ts \<longleftrightarrow> rows w (T_ID t) = Some t \<and> T_Direction t = dir \<and>
             T_Status t = TransferStatusPending))"

section \<open>PGStore meets it\<close>

definition rows_of :: "'a relayer_db_scheme \<Rightarrow> string \<rightharpoonup> Transfer" where
  "rows_of d = map_of (map (\<lambda>t. (T_ID t, t)) (db_transfers d))"

definition unique_ids :: "'a relayer_db_scheme \<Rightarrow> bool" where
  "unique_ids d \<longleftrightarrow> distinct (map T_ID (db_transfers d))"

lemma run_db_exec [simp, go_run]:
  "run_state db_exec d =
     (case db_faults d of [] \<Rightarrow> (None, d) | f # fs \<Rightarrow> (f, d\<lparr>db_faults := fs\<rparr>))"
  by (simp add: db_exec_def)

lemma run_Now [simp, go_run]: "run_state Now d = (db_now d, d)"
  by (simp add: Now_def)

lemma map_of_by_key:
  "map_of (map (\<lambda>t. (k t, t)) ts) i = find (\<lambda>t. k t = i) ts"
  by (induction ts) auto

lemma has_row_rows_of: "has_row i d \<longleftrightarrow> rows_of d i \<noteq> None"
  by (auto simp: has_row_def rows_of_def map_of_eq_None_iff image_image)

lemma rows_of_update [simp]:
  "rows_of (db_faults_update f d) = rows_of d"
  "rows_of (db_chain_state_update g d) = rows_of d"
  "has_row i (db_faults_update f d) = has_row i d"
  "unique_ids (db_faults_update f d) = unique_ids d"
  "unique_ids (db_chain_state_update g d) = unique_ids d"
  by (simp_all add: rows_of_def has_row_def unique_ids_def)

lemma rows_of_insert_row:
  "rows_of (insert_row t d) =
     (if rows_of d (T_ID t) = None then (rows_of d)(T_ID t \<mapsto> t) else rows_of d)"
  by (auto simp: rows_of_def insert_row_def fun_eq_iff map_add_def split: option.splits)

lemma insert_row_frame [simp]:
  "db_chain_state (insert_row t d) = db_chain_state d"
  "db_faults (insert_row t d) = db_faults d"
  "db_now (insert_row t d) = db_now d"
  "unique_ids (insert_row t d) \<longleftrightarrow> unique_ids d \<and> \<not> has_row (T_ID t) d"
  by (auto simp: insert_row_def unique_ids_def has_row_def)

lemma stamped_row: "stamped t (t\<lparr>T_CreatedAt := a, T_UpdatedAt := b\<rparr>)"
  by (simp add: stamped_def)

lemma new_row:
  "column_defaults now (toTransferDao t) = t\<lparr>T_CreatedAt := now, T_UpdatedAt := now\<rparr>"
  "T_ID (toTransferDao t) = T_ID t"
  by (simp_all add: column_defaults_def toTransferDao_def)

lemma rows_of_update_row:
  assumes "\<And>t. T_ID (f t) = T_ID t"
  shows "rows_of (update_row i f d) =
    (case rows_of d i of None \<Rightarrow> rows_of d | Some t \<Rightarrow> (rows_of d)(i \<mapsto> f t))"
proof -
  have "map_of (map (\<lambda>t. (T_ID t, t)) (map (\<lambda>t. if T_ID t = i then f t else t) ts)) =
    (case map_of (map (\<lambda>t. (T_ID t, t)) ts) i of
       None \<Rightarrow> map_of (map (\<lambda>t. (T_ID t, t)) ts)
     | Some t \<Rightarrow> (map_of (map (\<lambda>t. (T_ID t, t)) ts))(i \<mapsto> f t))" for ts
    by (induction ts) (auto simp: fun_eq_iff assms split: option.splits)
  then show ?thesis
    by (simp add: rows_of_def update_row_def del: map_map cong: option.case_cong)
qed

lemma update_row_frame [simp]:
  "db_chain_state (update_row i f d) = db_chain_state d"
  "db_faults (update_row i f d) = db_faults d"
  "db_now (update_row i f d) = db_now d"
  by (simp_all add: update_row_def)

lemma unique_ids_update_row [simp]:
  "(\<And>t. T_ID (f t) = T_ID t) \<Longrightarrow> unique_ids (update_row i f d) = unique_ids d"
  by (auto simp: unique_ids_def update_row_def intro!: arg_cong[where f = distinct])

lemma set_status_fields [simp]:
  "T_ID (set_status now st h m t) = T_ID t"
  "T_Direction (set_status now st h m t) = T_Direction t"
  "T_RetryCount (set_status now st h m t) = T_RetryCount t"
  "T_Status (set_status now st h m t) = st"
  "T_CompletedAt (set_status now st h m t) =
     (if st = TransferStatusCompleted then Some now else T_CompletedAt t)"
  by (simp_all add: set_status_def Let_def)

lemma bump_retry_fields [simp]:
  "T_ID (bump_retry now t) = T_ID t"
  "T_Direction (bump_retry now t) = T_Direction t"
  "T_RetryCount (bump_retry now t) = T_RetryCount t + 1"
  "T_Status (bump_retry now t) = T_Status t"
  "T_CompletedAt (bump_retry now t) = T_CompletedAt t"
  by (simp_all add: bump_retry_def)

lemma run_exec_update:
  assumes "run_state (exec_update what i f) d = (r, d')" "\<And>t. T_ID (f t) = T_ID t"
  shows "unique_ids d' = unique_ids d \<and> db_chain_state d' = db_chain_state d \<and> db_now d' = db_now d \<and>
    (rows_of d' = rows_of d \<and> r \<noteq> Inr ()
     \<or> (\<exists>t. rows_of d i = Some t \<and> rows_of d' = (rows_of d)(i \<mapsto> f t)))"
  using assms
  by (auto simp: exec_update_def has_row_rows_of rows_of_update_row
      split: list.splits option.splits if_splits prod.splits)

lemma fromDao_id: "fromTransferDao = id" "fromChainStateDao = id"
  by (simp_all add: fun_eq_iff fromTransferDao_def fromChainStateDao_def)

lemma distinct_map_sort_filter:
  assumes "distinct (map f xs)"
  shows "distinct (map f (sort_key k (filter P xs)))"
proof -
  have "mset (map f (sort_key k (filter P xs))) = mset (map f (filter P xs))"
    by simp
  then show ?thesis
    using assms by (metis distinct_map_filter mset_eq_imp_distinct_iff)
qed

lemma find_row: "find (\<lambda>t. T_ID t = i) (db_transfers d) = rows_of d i"
  by (simp add: rows_of_def map_of_by_key)

lemma rows_of_mem:
  "unique_ids d \<Longrightarrow> rows_of d (T_ID t) = Some t \<longleftrightarrow> t \<in> set (db_transfers d)"
  unfolding unique_ids_def rows_of_def
  by (subst map_of_eq_Some_iff) (auto simp: comp_def)

interpretation pg: bridge_store PGStore rows_of db_chain_state unique_ids
proof (unfold_locales, goal_cases)
  case (1 t w r w')
  then show ?case
    by (auto simp: PGStore_def pg_CreateTransfer_def new_row has_row_rows_of rows_of_insert_row
        split: list.splits option.splits if_splits intro!: exI stamped_row)
next
  case (2 i st h m w r w')
  then show ?case
    by (auto simp: PGStore_def pg_UpdateTransferStatus_def dest!: run_exec_update)
next
  case (3 i w r w')
  then show ?case
    by (auto simp: PGStore_def pg_IncrementRetryCount_def dest!: run_exec_update)
next
  case (4 c b off w r w')
  then show ?case
    by (auto simp: PGStore_def pg_SetChainState_def split: list.splits option.splits)
next
  case (5 c w r w')
  then show ?case
    by (auto simp: PGStore_def pg_GetChainState_def fromDao_id option.map_id0
        split: list.splits option.splits)
next
  case (6 i w r w')
  then show ?case
    by (auto simp: PGStore_def pg_GetTransfer_def fromDao_id find_row option.map_id0
        split: list.splits option.splits)
next
  case (7 dir w r w')
  then show ?case
    by (auto simp: PGStore_def pg_GetPendingTransfers_def fromDao_id rows_of_mem unique_ids_def
        distinct_map_sort_filter
        split: list.splits option.splits)
qed

end
