(* ===== verification/Relayer_Processor.thy ===== *)
theory Relayer_Processor
  imports Relayer_Store
begin

text \<open>
  \<open>pkg/relayer/engine/processor.go\<close>: the loop that takes events from a source chain, records
  each as a transfer, submits it to the destination chain and remembers how far it got.  The Go
  interfaces \<open>Source\<close> and \<open>Destination\<close> are records of operations over a world \<open>'w\<close>; the
  processor's only mutable field, \<open>lastSavedOffset\<close>, stands beside that world in \<open>pstate\<close>.

  The \<open>select\<close> of \<open>Start\<close> picks, at every turn of the loop, one of the channels that are
  ready.  Its choices are the last argument of \<open>Start\<close>, so that a theorem about \<open>Start\<close> for
  every such list is a theorem about every interleaving of the three channels.  Metrics and log
  lines are written and never read; they are left out.
\<close>

section \<open>Interfaces\<close>

record Source =
  GetChainID :: string
  ExtractOffset :: "Event \<Rightarrow> string"

text \<open>The result of \<open>SubmitTransfer\<close> is \<open>(destTxHash, skipped, err)\<close>.\<close>

record 'w Destination =
  SubmitTransfer :: "Event \<Rightarrow> ('w, goerr + string \<times> bool) state"
  D_GetChainID :: string

record 'w Processor =
  p_source :: Source
  p_destination :: "'w Destination"
  p_store :: "'w BridgeStore"
  p_direction :: TransferDirection
  onOffsetUpdate :: "(string \<Rightarrow> string \<Rightarrow> ('w, goerr + unit) state) option"
  onPostSubmit :: "(Event \<Rightarrow> string \<Rightarrow> ('w, goerr + unit) state) option"
  p_now :: "('w, time) state"

record 'w pstate =
  lastSavedOffset :: string
  env :: 'w

section \<open>Operations\<close>

text \<open>A call of an operation of the world from the processor.\<close>

definition call :: "('w, 'a) state \<Rightarrow> ('w pstate, 'a) state" where
  "call m = State (\<lambda>s. case run_state m (env s) of (r, w) \<Rightarrow> (r, s\<lparr>env := w\<rparr>))"

definition NewProcessor ::
  "Source \<Rightarrow> 'w Destination \<Rightarrow> 'w BridgeStore \<Rightarrow> TransferDirection \<Rightarrow> ('w, time) state \<Rightarrow> 'w Processor" where
  "NewProcessor src dest S dir now =
     \<lparr>p_source = src, p_destination = dest, p_store = S, p_direction = dir,
      onOffsetUpdate = None, onPostSubmit = None, p_now = now\<rparr>"

definition WithOffsetUpdate ::
  "'w Processor \<Rightarrow> (string \<Rightarrow> string \<Rightarrow> ('w, goerr + unit) state) \<Rightarrow> 'w Processor" where
  "WithOffsetUpdate P fn = P\<lparr>onOffsetUpdate := Some fn\<rparr>"

definition WithPostSubmit ::
  "'w Processor \<Rightarrow> (Event \<Rightarrow> string \<Rightarrow> ('w, goerr + unit) state) \<Rightarrow> 'w Processor" where
  "WithPostSubmit P fn = P\<lparr>onPostSubmit := Some fn\<rparr>"

definition persistOffset :: "'w Processor \<Rightarrow> Event \<Rightarrow> ('w pstate, unit) state" where
  "persistOffset P event =
     (case onOffsetUpdate P of
        None \<Rightarrow> ret ()
      | Some update \<Rightarrow> do {
          let offset = ExtractOffset (p_source P) event;
          last \<leftarrow> gets lastSavedOffset;
          if offset = '''' \<or> offset = last then ret ()
          else do {
            modify (\<lambda>s. s\<lparr>lastSavedOffset := offset\<rparr>);
            _ \<leftarrow> call (update (GetChainID (p_source P)) offset);
            ret () } })"

definition transfer_of :: "'w Processor \<Rightarrow> Event \<Rightarrow> time \<Rightarrow> Transfer" where
  "transfer_of P event createdAt =
     \<lparr>T_ID = E_ID event,
      T_Direction = p_direction P,
      T_Status = TransferStatusPending,
      T_SourceChain = GetChainID (p_source P),
      T_DestinationChain = D_GetChainID (p_destination P),
      T_SourceTxHash = E_SourceTxHash event,
      T_DestinationTxHash = None,
      T_TokenAddress = E_TokenAddress event,
      T_Amount = E_Amount event,
      T_Sender = E_Sender event,
      T_Recipient = E_Recipient event,
      T_Nonce = E_Nonce event,
      T_SourceBlockNumber = E_SourceBlockNumber event,
      T_RetryCount = 0,
      T_CreatedAt = createdAt,
      T_UpdatedAt = zero_time,
      T_CompletedAt = None,
      T_ErrorMessage = None\<rparr>"

definition processEvent :: "'w Processor \<Rightarrow> Event \<Rightarrow> ('w pstate, goerr + unit) state" where
  "processEvent P event = do {
     createdAt \<leftarrow> call (p_now P);
     let transfer = transfer_of P event createdAt;
     created \<leftarrow> call (CreateTransfer (p_store P) transfer);
     case created of
       Inl e \<Rightarrow> ret (Inl (Errorf ''failed to create transfer'' e))
     | Inr inserted \<Rightarrow>
         if \<not> inserted then do {
           persistOffset P event;
           ret (Inr ()) }
         else do {
           submitted \<leftarrow> call (SubmitTransfer (p_destination P) event);
           (case submitted of
              Inl submitErr \<Rightarrow> do {
                _ \<leftarrow> call (UpdateTransferStatus (p_store P) (E_ID event)
                       TransferStatusPending None (Some (go_Error submitErr)));
                ret (Inl (Errorf ''submission failed'' submitErr)) }
            | Inr (destTxHash, skipped) \<Rightarrow>
                if skipped then do {
                  _ \<leftarrow> call (UpdateTransferStatus (p_store P) (E_ID event)
                         TransferStatusCompleted None None);
                  persistOffset P event;
                  ret (Inr ()) }
                else do {
                  _ \<leftarrow> call (UpdateTransferStatus (p_store P) (E_ID event)
                         TransferStatusCompleted (Some destTxHash) None);
                  (case onPostSubmit P of
                     None \<Rightarrow> ret ()
                   | Some hook \<Rightarrow> do { _ \<leftarrow> call (hook event destTxHash); ret () });
                  persistOffset P event;
                  ret (Inr ()) }) } }"

text \<open>
  One turn of the \<open>select\<close>: an event or the end of the event channel, a value of the error
  channel (nil when the channel was closed), or the end of the context.
\<close>

datatype selected =
    RecvEvent Event
  | EventsClosed
  | RecvError "goerr option"
  | CtxDone goerr

text \<open>The result is \<open>None\<close> while the loop is still running, and otherwise what it returned.\<close>

fun Start_loop :: "'w Processor \<Rightarrow> selected list \<Rightarrow> ('w pstate, (goerr + unit) option) state" where
  "Start_loop P [] = ret None"
| "Start_loop P (RecvEvent event # sels) =
     (if E_Checkpoint event then do {
        persistOffset P event;
        Start_loop P sels }
      else do {
        _ \<leftarrow> processEvent P event;
        Start_loop P sels })"
| "Start_loop P (EventsClosed # sels) = ret (Some (Inr ()))"
| "Start_loop P (RecvError (Some e) # sels) = ret (Some (Inl (Errorf ''source stream error'' e)))"
| "Start_loop P (RecvError None # sels) = ret (Some (Inr ()))"
| "Start_loop P (CtxDone e # sels) = ret (Some (Inl e))"

section \<open>What the processor guarantees on top of its interfaces\<close>

lemma run_call [simp, go_run]:
  "run_state (call m) s = (case run_state m (env s) of (r, w) \<Rightarrow> (r, s\<lparr>env := w\<rparr>))"
  by (simp add: call_def)

text \<open>
  \<open>subs w i\<close> is how many times \<open>SubmitTransfer\<close> has been called for the event id \<open>i\<close>.
  Beyond the store contract the processor needs of its environment only that a destination, a
  clock, an offset callback and a post-submit hook leave the transfer table alone.
\<close>

definition submitted_once :: "(string \<Rightarrow> nat) \<Rightarrow> (string \<rightharpoonup> 'a) \<Rightarrow> bool" where
  "submitted_once n m \<longleftrightarrow> (\<forall>i. n i \<le> 1) \<and> (\<forall>i. m i = None \<longrightarrow> n i = 0)"

lemma submitted_once_record: "submitted_once n m \<Longrightarrow> submitted_once n (m(i \<mapsto> t))"
  by (simp add: submitted_once_def)

lemma submitted_once_submit:
  "submitted_once n m \<Longrightarrow> m i = None \<Longrightarrow> submitted_once (n(i := Suc (n i))) (m(i \<mapsto> t))"
  by (simp add: submitted_once_def)

locale transfer_processor = bridge_store S rows chain inv
  for S :: "'w BridgeStore" and rows chain inv +
  fixes P :: "'w Processor" and subs :: "'w \<Rightarrow> string \<Rightarrow> nat"
  assumes store_P: "p_store P = S"
    and now_law: "run_state (p_now P) w = (now, w') \<Longrightarrow> inv w \<Longrightarrow>
      inv w' \<and> rows w' = rows w \<and> chain w' = chain w \<and> subs w' = subs w"
    and create_subs: "run_state (CreateTransfer S t) w = (r, w') \<Longrightarrow> inv w \<Longrightarrow> subs w' = subs w"
    and update_subs: "run_state (UpdateTransferStatus S i st h m) w = (ru, w') \<Longrightarrow> inv w \<Longrightarrow>
      subs w' = subs w"
    and submit_law: "run_state (SubmitTransfer (p_destination P) ev) w = (rs, w') \<Longrightarrow> inv w \<Longrightarrow>
      inv w' \<and> rows w' = rows w \<and> chain w' = chain w \<and>
      subs w' = (subs w)(E_ID ev := Suc (subs w (E_ID ev)))"
    and offset_law: "onOffsetUpdate P = Some f \<Longrightarrow> run_state (f c off) w = (ro, w') \<Longrightarrow> inv w \<Longrightarrow>
      inv w' \<and> rows w' = rows w \<and> subs w' = subs w \<and>
      (chain w' = chain w \<or>
       (\<exists>st. chain w' = (chain w)(c \<mapsto> st) \<and> CS_ChainID st = c \<and> CS_Offset st = off))"
    and hook_law: "onPostSubmit P = Some h' \<Longrightarrow> run_state (h' ev tx) w = (rh, w') \<Longrightarrow> inv w \<Longrightarrow>
      inv w' \<and> rows w' = rows w \<and> chain w' = chain w \<and> subs w' = subs w"
begin

lemma persistOffset_law:
  assumes "run_state (persistOffset P ev) s = (u, s')" "inv (env s)"
  shows "inv (env s')" "rows (env s') = rows (env s)" "subs (env s') = subs (env s)"
    "chain (env s') = chain (env s) \<or>
     (\<exists>st. chain (env s') = (chain (env s))(GetChainID (p_source P) \<mapsto> st) \<and>
        CS_ChainID st = GetChainID (p_source P) \<and> CS_Offset st = ExtractOffset (p_source P) ev \<and>
        CS_Offset st \<notin> {'''', lastSavedOffset s})"
  using assms
  by (auto simp: persistOffset_def Let_def split: option.splits if_splits prod.splits
      dest!: offset_law)

text \<open>
  The status update that follows a submission: the row takes the new status, or keeps being
  pending when the update failed.
\<close>

lemma update_pending:
  assumes upd: "run_state (UpdateTransferStatus S i status h m) w = (ru, w1)"
    and row: "rows w i = Some t" "T_Status t = TransferStatusPending" and inv: "inv w"
  shows "inv w1" "subs w1 = subs w" "chain w1 = chain w"
    "\<exists>t'. rows w1 = (rows w)(i \<mapsto> t') \<and> T_ID t' = T_ID t \<and> T_Direction t' = T_Direction t \<and>
       T_RetryCount t' = T_RetryCount t \<and> T_Status t' \<in> {TransferStatusPending, status} \<and>
       (ru = Inr () \<longrightarrow> T_Status t' = status)"
proof -
  note law = update_law[OF upd inv]
  show "inv w1" "chain w1 = chain w" "subs w1 = subs w"
    using law update_subs[OF upd inv] by auto
  from law consider "rows w1 = rows w" "ru \<noteq> Inr ()"
    | now where "rows w1 = (rows w)(i \<mapsto> set_status now status h m t)"
    using row by auto
  then show "\<exists>t'. rows w1 = (rows w)(i \<mapsto> t') \<and> T_ID t' = T_ID t \<and> T_Direction t' = T_Direction t \<and>
       T_RetryCount t' = T_RetryCount t \<and> T_Status t' \<in> {TransferStatusPending, status} \<and>
       (ru = Inr () \<longrightarrow> T_Status t' = status)"
  proof cases
    case 1
    then show ?thesis using row by (intro exI[of _ t]) (simp add: fun_upd_idem)
  next
    case 2
    then show ?thesis by (intro exI[of _ "set_status now status h m t"]) simp
  qed
qed

text \<open>
  The state right after the event was recorded and submitted: one more submission of its id, and
  a pending row.
\<close>

lemma create_then_submit:
  assumes now: "run_state (p_now P) w = (createdAt, w1)"
    and create: "run_state (CreateTransfer S (transfer_of P ev createdAt)) w1 = (Inr True, w2)"
    and submit: "run_state (SubmitTransfer (p_destination P) ev) w2 = (rs, w3)" and inv: "inv w"
  shows "inv w3" "chain w3 = chain w" "rows w (E_ID ev) = None"
    "subs w3 = (subs w)(E_ID ev := Suc (subs w (E_ID ev)))"
    "\<exists>t. rows w3 = (rows w)(E_ID ev \<mapsto> t) \<and> T_ID t = E_ID ev \<and> T_Status t = TransferStatusPending \<and>
       T_Direction t = p_direction P \<and> T_RetryCount t = 0"
proof -
  note 1 = now_law[OF now inv]
  then have inv1: "inv w1" by simp
  note 2 = create_law[OF create inv1] create_subs[OF create inv1]
  then have inv2: "inv w2" by simp
  note 3 = submit_law[OF submit inv2]
  have id: "T_ID (transfer_of P ev createdAt) = E_ID ev"
    by (simp add: transfer_of_def)
  show "inv w3" "chain w3 = chain w" "subs w3 = (subs w)(E_ID ev := Suc (subs w (E_ID ev)))"
    using 1 2 3 by auto
  from 1 2 id obtain t' where t': "rows w (E_ID ev) = None"
    "stamped (transfer_of P ev createdAt) t'" "rows w2 = (rows w)(E_ID ev \<mapsto> t')"
    by auto
  then show "rows w (E_ID ev) = None" by simp
  show "\<exists>t. rows w3 = (rows w)(E_ID ev \<mapsto> t) \<and> T_ID t = E_ID ev \<and> T_Status t = TransferStatusPending \<and>
       T_Direction t = p_direction P \<and> T_RetryCount t = 0"
    using t' 3 by (intro exI[of _ t']) (simp add: stamped_fields[OF t'(2)], simp add: transfer_of_def)
qed

text \<open>
  The outcomes of an event: it could not be recorded; it was known already; it was recorded,
  submitted and refused; it was recorded, submitted and accepted.  Only the second and the last
  may move the persisted offset, and then to the event's own.
\<close>

lemma processEvent_cases:
  assumes run: "run_state (processEvent P ev) s = (r, s')" and inv: "inv (env s)"
  obtains
    (failed) e where "r = Inl e" "inv (env s')" "chain (env s') = chain (env s)"
      "subs (env s') = subs (env s)"
      "rows (env s') = rows (env s) \<or> rows (env s) (E_ID ev) = None \<and>
        (\<exists>t. rows (env s') = (rows (env s))(E_ID ev \<mapsto> t) \<and> T_ID t = E_ID ev \<and>
           T_Status t = TransferStatusPending \<and> T_Direction t = p_direction P \<and> T_RetryCount t = 0)"
  | (duplicate) "r = Inr ()" "inv (env s')" "rows (env s) (E_ID ev) \<noteq> None"
      "rows (env s') = rows (env s)" "subs (env s') = subs (env s)"
      "chain (env s') = chain (env s) \<or>
        (\<exists>st. chain (env s') = (chain (env s))(GetChainID (p_source P) \<mapsto> st) \<and>
          CS_Offset st = ExtractOffset (p_source P) ev \<and> CS_Offset st \<noteq> '''')"
  | (refused) e t where "r = Inl e" "inv (env s')" "chain (env s') = chain (env s)"
      "rows (env s) (E_ID ev) = None" "rows (env s') = (rows (env s))(E_ID ev \<mapsto> t)"
      "subs (env s') = (subs (env s))(E_ID ev := Suc (subs (env s) (E_ID ev)))"
      "T_ID t = E_ID ev" "T_Status t = TransferStatusPending" "T_Direction t = p_direction P"
      "T_RetryCount t = 0"
  | (accepted) t where "r = Inr ()" "inv (env s')"
      "rows (env s) (E_ID ev) = None" "rows (env s') = (rows (env s))(E_ID ev \<mapsto> t)"
      "subs (env s') = (subs (env s))(E_ID ev := Suc (subs (env s) (E_ID ev)))"
      "T_ID t = E_ID ev" "T_Status t \<in> {TransferStatusPending, TransferStatusCompleted}"
      "T_Direction t = p_direction P" "T_RetryCount t = 0"
      "chain (env s') = chain (env s) \<or>
        (\<exists>st. chain (env s') = (chain (env s))(GetChainID (p_source P) \<mapsto> st) \<and>
          CS_Offset st = ExtractOffset (p_source P) ev \<and> CS_Offset st \<noteq> '''')"
proof -
  obtain now w1 where now: "run_state (p_now P) (env s) = (now, w1)" by fastforce
  obtain c w2 where create: "run_state (CreateTransfer S (transfer_of P ev now)) w1 = (c, w2)"
    by fastforce
  obtain rs w3 where submit: "run_state (SubmitTransfer (p_destination P) ev) w2 = (rs, w3)"
    by fastforce
  note nl = now_law[OF now inv]
  then have inv1: "inv w1" by simp
  note cl = create_law[OF create inv1] create_subs[OF create inv1]
  have tr: "T_ID (transfer_of P ev now) = E_ID ev" "T_Status (transfer_of P ev now) = TransferStatusPending"
    "T_Direction (transfer_of P ev now) = p_direction P" "T_RetryCount (transfer_of P ev now) = 0"
    by (simp_all add: transfer_of_def)
  consider e where "c = Inl e" | "c = Inr False" | e where "c = Inr True" "rs = Inl e"
    | h skipped where "c = Inr True" "rs = Inr (h, skipped)"
    by (metis sum.exhaust surj_pair)
  then show thesis
  proof cases
    case (1 e)
    have "r = Inl (Errorf ''failed to create transfer'' e) \<and> env s' = w2"
      using run now create 1 by (auto simp: processEvent_def store_P)
    then show thesis
      using nl cl by (intro failed) (auto simp: tr stamped_fields)
  next
    case 2
    have po: "run_state (persistOffset P ev) (s\<lparr>env := w2\<rparr>) = ((), s')" and r: "r = Inr ()"
      using run now create 2 by (auto simp: processEvent_def store_P split: prod.splits)
    have "inv (env (s\<lparr>env := w2\<rparr>))" using cl by simp
    note pl = persistOffset_law[OF po this]
    show thesis
      using nl cl pl 2 by (intro duplicate[OF r]) (auto simp: tr)
  next
    case (3 e)
    note sl = create_then_submit[OF now create[unfolded 3] submit inv]
    then obtain t where t: "rows w3 = (rows (env s))(E_ID ev \<mapsto> t)" "T_ID t = E_ID ev"
      "T_Status t = TransferStatusPending" "T_Direction t = p_direction P" "T_RetryCount t = 0"
      by blast
    obtain ru w4 where upd: "run_state (UpdateTransferStatus S (E_ID ev) TransferStatusPending None
        (Some (go_Error e))) w3 = (ru, w4)" by fastforce
    have r: "r = Inl (Errorf ''submission failed'' e)" and w4: "env s' = w4"
      using run now create submit upd 3 by (auto simp: processEvent_def store_P)
    have "rows w3 (E_ID ev) = Some t" using t by simp
    note ul = update_pending[OF upd this t(3) sl(1)]
    from ul(4) obtain t' where "rows w4 = (rows w3)(E_ID ev \<mapsto> t')" "T_ID t' = T_ID t"
      "T_Direction t' = T_Direction t" "T_RetryCount t' = T_RetryCount t"
      "T_Status t' = TransferStatusPending" by blast
    then show thesis
      using sl(1-4) t ul(1-3) w4 by (intro refused[OF r, of t']) auto
  next
    case (4 h skipped)
    note sl = create_then_submit[OF now create[unfolded 4] submit inv]
    then obtain t where t: "rows w3 = (rows (env s))(E_ID ev \<mapsto> t)" "T_ID t = E_ID ev"
      "T_Status t = TransferStatusPending" "T_Direction t = p_direction P" "T_RetryCount t = 0"
      by blast
    then have row: "rows w3 (E_ID ev) = Some t" by simp
    obtain ru w4 where upd: "run_state (UpdateTransferStatus S (E_ID ev) TransferStatusCompleted
        (if skipped then None else Some h) None) w3 = (ru, w4)" by fastforce
    note ul = update_pending[OF upd row t(3) sl(1)]
    obtain w5 where po: "run_state (persistOffset P ev) (s\<lparr>env := w5\<rparr>) = ((), s')"
      and w5: "inv w5" "rows w5 = rows w4" "chain w5 = chain w4" "subs w5 = subs w4"
      and r: "r = Inr ()"
    proof (cases "skipped \<or> onPostSubmit P = None")
      case True
      then have "run_state (persistOffset P ev) (s\<lparr>env := w4\<rparr>) = ((), s') \<and> r = Inr ()"
        using run now create submit upd 4
        by (auto simp: processEvent_def store_P split: prod.splits if_splits)
      then show thesis using that[of w4] ul by simp
    next
      case False
      then obtain hook where hook: "onPostSubmit P = Some hook" by auto
      obtain rh w5 where hk: "run_state (hook ev h) w4 = (rh, w5)" by fastforce
      then have "run_state (persistOffset P ev) (s\<lparr>env := w5\<rparr>) = ((), s') \<and> r = Inr ()"
        using run now create submit upd 4 hook False
        by (auto simp: processEvent_def store_P split: prod.splits if_splits)
      then show thesis using that[of w5] hook_law[OF hook hk ul(1)] by simp
    qed
    have "inv (env (s\<lparr>env := w5\<rparr>))" using w5 by simp
    note pl = persistOffset_law[OF po this]
    from ul(4) obtain t' where "rows w4 = (rows w3)(E_ID ev \<mapsto> t')" "T_ID t' = T_ID t"
      "T_Direction t' = T_Direction t" "T_RetryCount t' = T_RetryCount t"
      "T_Status t' \<in> {TransferStatusPending, TransferStatusCompleted}" by blast
    then show thesis
      using sl(1-4) t ul(1-3) w5 pl by (intro accepted[OF r, of t']) auto
  qed
qed

text \<open>
  The processor never submits an id twice: a submission is preceded by the insertion of the row,
  and an id that has a row is not submitted.
\<close>

lemma processEvent_safe:
  assumes run: "run_state (processEvent P ev) s = (r, s')" and inv: "inv (env s)"
    and once: "submitted_once (subs (env s)) (rows (env s))"
  shows "inv (env s')" "submitted_once (subs (env s')) (rows (env s'))"
    "rows (env s) \<subseteq>\<^sub>m rows (env s')"
    "dom (rows (env s')) \<subseteq> insert (E_ID ev) (dom (rows (env s)))"
    "chain (env s') = chain (env s) \<or> rows (env s') (E_ID ev) \<noteq> None \<and>
       (\<exists>st. chain (env s') = (chain (env s))(GetChainID (p_source P) \<mapsto> st) \<and>
          CS_Offset st = ExtractOffset (p_source P) ev \<and> CS_Offset st \<noteq> '''')"
  using run inv
  by (cases rule: processEvent_cases,
      use once in \<open>auto simp: map_le_def submitted_once_record submitted_once_submit\<close>)+

text \<open>The same along the loop, one turn at a time.\<close>

lemma turn_safe:
  assumes "run_state (if E_Checkpoint ev then do { persistOffset P ev; k }
      else do { _ \<leftarrow> processEvent P ev; k }) s = (r, s')" "inv (env s)"
    "submitted_once (subs (env s)) (rows (env s))"
  obtains s1 where "run_state k s1 = (r, s')" "inv (env s1)"
    "submitted_once (subs (env s1)) (rows (env s1))" "rows (env s) \<subseteq>\<^sub>m rows (env s1)"
    "dom (rows (env s1)) \<subseteq> insert (E_ID ev) (dom (rows (env s)))"
    "E_Checkpoint ev \<Longrightarrow> rows (env s1) = rows (env s)"
    "chain (env s1) = chain (env s) \<or> (E_Checkpoint ev \<or> rows (env s1) (E_ID ev) \<noteq> None) \<and>
       (\<exists>st. chain (env s1) = (chain (env s))(GetChainID (p_source P) \<mapsto> st) \<and>
          CS_Offset st = ExtractOffset (p_source P) ev \<and> CS_Offset st \<noteq> '''')"
proof (cases "E_Checkpoint ev")
  case True
  obtain s1 where po: "run_state (persistOffset P ev) s = ((), s1)" by (rule run_unit_obtain)
  note pl = persistOffset_law[OF po assms(2)]
  have "run_state k s1 = (r, s')"
    using assms(1) po True by simp
  then show thesis
    by (rule that) (use pl assms(3) True in \<open>auto simp: map_le_def\<close>)
next
  case False
  obtain re s1 where pe: "run_state (processEvent P ev) s = (re, s1)" by fastforce
  note pl = processEvent_safe[OF pe assms(2,3)]
  have "run_state k s1 = (r, s')"
    using assms(1) pe False by simp
  then show thesis
    by (rule that[OF _ pl(1-4)]) (use pl(5) False in auto)
qed

lemma Start_loop_safe:
  assumes "run_state (Start_loop P sels) s = (r, s')" "inv (env s)"
    "submitted_once (subs (env s)) (rows (env s))"
  shows "inv (env s') \<and> submitted_once (subs (env s')) (rows (env s')) \<and>
    rows (env s) \<subseteq>\<^sub>m rows (env s') \<and>
    dom (rows (env s')) \<subseteq> dom (rows (env s)) \<union> E_ID ` {ev. RecvEvent ev \<in> set sels} \<and>
    (chain (env s') = chain (env s) \<or>
      (\<exists>st ev. chain (env s') = (chain (env s))(GetChainID (p_source P) \<mapsto> st) \<and>
         RecvEvent ev \<in> set sels \<and> (E_Checkpoint ev \<or> rows (env s') (E_ID ev) \<noteq> None) \<and>
         CS_Offset st = ExtractOffset (p_source P) ev \<and> CS_Offset st \<noteq> ''''))"
  using assms
proof (induction sels arbitrary: s)
  case (Cons sel sels)
  show ?case
  proof (cases sel)
    case (RecvEvent ev)
    with Cons.prems(1) have "run_state (if E_Checkpoint ev then do { persistOffset P ev; Start_loop P sels }
      else do { _ \<leftarrow> processEvent P ev; Start_loop P sels }) s = (r, s')" by simp
    from this Cons.prems(2,3) obtain s1 where s1: "run_state (Start_loop P sels) s1 = (r, s')"
      "inv (env s1)" "submitted_once (subs (env s1)) (rows (env s1))"
      "rows (env s) \<subseteq>\<^sub>m rows (env s1)" "dom (rows (env s1)) \<subseteq> insert (E_ID ev) (dom (rows (env s)))"
      "chain (env s1) = chain (env s) \<or> (E_Checkpoint ev \<or> rows (env s1) (E_ID ev) \<noteq> None) \<and>
       (\<exists>st. chain (env s1) = (chain (env s))(GetChainID (p_source P) \<mapsto> st) \<and>
          CS_Offset st = ExtractOffset (p_source P) ev \<and> CS_Offset st \<noteq> '''')"
      by (rule turn_safe[of ev "Start_loop P sels" s r s'])
    note ih = Cons.IH[OF s1(1-3)]
    have kept: "rows (env s1) (E_ID ev) \<noteq> None \<Longrightarrow> rows (env s') (E_ID ev) \<noteq> None"
      using ih unfolding map_le_def by (metis domIff)
    have "rows (env s) \<subseteq>\<^sub>m rows (env s')"
      using ih s1(4) map_le_trans by blast
    moreover have "dom (rows (env s')) \<subseteq> dom (rows (env s)) \<union> E_ID ` {ev. RecvEvent ev \<in> set (sel # sels)}"
    proof -
      have "insert (E_ID ev) (dom (rows (env s))) \<union> E_ID ` {ev. RecvEvent ev \<in> set sels} \<subseteq>
        dom (rows (env s)) \<union> E_ID ` {ev. RecvEvent ev \<in> set (sel # sels)}"
        using RecvEvent by auto
      with ih s1(5) show ?thesis by blast
    qed
    moreover have "chain (env s') = chain (env s) \<or>
      (\<exists>st ev. chain (env s') = (chain (env s))(GetChainID (p_source P) \<mapsto> st) \<and>
         RecvEvent ev \<in> set (sel # sels) \<and> (E_Checkpoint ev \<or> rows (env s') (E_ID ev) \<noteq> None) \<and>
         CS_Offset st = ExtractOffset (p_source P) ev \<and> CS_Offset st \<noteq> '''')"
      (is ?later)
    proof (cases "chain (env s') = chain (env s1)")
      case True
      have "RecvEvent ev \<in> set (sel # sels)" using RecvEvent by simp
      with s1(6) kept True show ?thesis by metis
    next
      case False
      with ih obtain st ev' where later: "chain (env s') = (chain (env s1))(GetChainID (p_source P) \<mapsto> st)"
        "RecvEvent ev' \<in> set sels" "E_Checkpoint ev' \<or> rows (env s') (E_ID ev') \<noteq> None"
        "CS_Offset st = ExtractOffset (p_source P) ev'" "CS_Offset st \<noteq> ''''" by blast
      have "(chain (env s1))(GetChainID (p_source P) \<mapsto> st) =
          (chain (env s))(GetChainID (p_source P) \<mapsto> st)"
        using s1(6) by auto
      with later show ?thesis by (intro disjI2 exI[of _ st] exI[of _ ev']) simp
    qed
    moreover have "inv (env s')" "submitted_once (subs (env s')) (rows (env s'))"
      using ih by blast+
    ultimately show ?thesis by (intro conjI)
  next
    case (RecvError e)
    then show ?thesis using Cons.prems by (cases e) auto
  qed (use Cons.prems in auto)
qed auto

end

end
