(* ===== verification/Ledger_Stream.thy ===== *)
theory Ledger_Stream
  imports Ledger_Values
begin

text \<open>
  The package \<open>pkg/cantonsdk/streaming\<close>: decoding of Ledger API transactions into
  \<open>LedgerTransaction\<close>s, the typed field accessors of \<open>LedgerEvent\<close>, the reconnecting
  subscription loop of \<open>Client.Subscribe\<close> and the per-transaction batches of
  \<open>Stream.Subscribe\<close>.

  The gRPC stream itself is a parameter: a connection opened at an offset either fails to open
  or delivers a list of responses and then an error.  A run of the subscription is a list of
  such connections, one per iteration of its loop; cancelling the context is the end of the
  list.  \<open>status.FromError\<close> is the parameter \<open>FromError\<close>, the gRPC code of an error if it has one.
\<close>

section \<open>Ledger API messages\<close>

record Identifier =
  id_PackageId :: string
  id_ModuleName :: string
  id_EntityName :: string

record CreatedEvent =
  ce_Offset :: int
  ce_NodeId :: int
  ce_ContractId :: string
  ce_TemplateId :: "Identifier option"
  ce_CreateArguments :: "Record option"
  ce_AcsDelta :: bool
  ce_CreatedAt :: time

record ExercisedEvent =
  xe_ContractId :: string
  xe_TemplateId :: "Identifier option"
  xe_Choice :: string
  xe_Consuming :: bool
  xe_AcsDelta :: bool

datatype LapiEvent = Ev_Created CreatedEvent | Ev_Archived string | Ev_Exercised ExercisedEvent

record LapiTransaction =
  tx_UpdateId :: string
  tx_Offset :: int
  tx_EffectiveAt :: time
  tx_Events :: "LapiEvent list"

section \<open>Decoded events\<close>

record LedgerEvent =
  le_ContractID :: string
  le_PackageID :: string
  le_ModuleName :: string
  le_TemplateName :: string
  le_IsCreated :: bool
  le_Choice :: string
  le_fields :: vmap

record LedgerTransaction =
  lt_UpdateID :: string
  lt_Offset :: int
  lt_EffectiveTime :: time
  lt_Events :: "LedgerEvent list"

definition le_field :: "LedgerEvent \<Rightarrow> string \<Rightarrow> Value option" where
  "le_field e name = mget (le_fields e) name"

definition ev_TextField :: "LedgerEvent \<Rightarrow> string \<Rightarrow> string" where
  "ev_TextField e name = Text (le_field e name)"

definition ev_PartyField :: "LedgerEvent \<Rightarrow> string \<Rightarrow> string" where
  "ev_PartyField e name = Party (le_field e name)"

definition ev_NumericField :: "LedgerEvent \<Rightarrow> string \<Rightarrow> string" where
  "ev_NumericField e name = Numeric (le_field e name)"

definition ev_OptionalTextField :: "LedgerEvent \<Rightarrow> string \<Rightarrow> string" where
  "ev_OptionalTextField e name = OptionalText (le_field e name)"

definition ev_OptionalPartyField :: "LedgerEvent \<Rightarrow> string \<Rightarrow> string" where
  "ev_OptionalPartyField e name = OptionalParty (le_field e name)"

definition ev_IsNone :: "LedgerEvent \<Rightarrow> string \<Rightarrow> bool" where
  "ev_IsNone e name = IsNone (le_field e name)"

definition ev_TimestampField :: "LedgerEvent \<Rightarrow> string \<Rightarrow> time" where
  "ev_TimestampField e name = Timestamp (le_field e name)"

definition ev_NestedTextField :: "LedgerEvent \<Rightarrow> string \<Rightarrow> string \<Rightarrow> string" where
  "ev_NestedTextField e rec fld = NestedTextField (le_field e rec) fld"

definition ev_NestedPartyField :: "LedgerEvent \<Rightarrow> string \<Rightarrow> string \<Rightarrow> string" where
  "ev_NestedPartyField e rec fld = NestedPartyField (le_field e rec) fld"

definition ev_NestedNumericField :: "LedgerEvent \<Rightarrow> string \<Rightarrow> string \<Rightarrow> string" where
  "ev_NestedNumericField e rec fld = Numeric (mget (RecordField (le_field e rec)) fld)"

definition ev_NestedTimestampField :: "LedgerEvent \<Rightarrow> string \<Rightarrow> string \<Rightarrow> time" where
  "ev_NestedTimestampField e rec fld = Timestamp (mget (RecordField (le_field e rec)) fld)"

definition ev_DoublyNestedPartyField :: "LedgerEvent \<Rightarrow> string \<Rightarrow> string \<Rightarrow> string \<Rightarrow> string" where
  "ev_DoublyNestedPartyField e outer middle fld =
     (let mid = RecordField (le_field e outer)
      in if mid = None then '''' else NestedPartyField (mget mid middle) fld)"

definition ev_DoublyNestedTextField :: "LedgerEvent \<Rightarrow> string \<Rightarrow> string \<Rightarrow> string \<Rightarrow> string" where
  "ev_DoublyNestedTextField e outer middle fld =
     (let mid = RecordField (le_field e outer)
      in if mid = None then '''' else NestedTextField (mget mid middle) fld)"

definition ev_OptionalMetaLookup :: "LedgerEvent \<Rightarrow> string \<Rightarrow> string \<Rightarrow> string" where
  "ev_OptionalMetaLookup e metaField key =
     (let inner = OptionalRecordFields (le_field e metaField)
      in if inner = None then '''' else MapLookupText (mget inner ''values'') key)"

lemmas accessor_defs = le_field_def ev_TextField_def ev_PartyField_def ev_NumericField_def
  ev_OptionalTextField_def ev_OptionalPartyField_def ev_IsNone_def ev_TimestampField_def
  ev_NestedTextField_def ev_NestedPartyField_def ev_NestedNumericField_def
  ev_NestedTimestampField_def ev_DoublyNestedPartyField_def ev_DoublyNestedTextField_def
  ev_OptionalMetaLookup_def

section \<open>Decoding transactions\<close>

text \<open>The template's names, all empty when the event carries no template identifier.\<close>

definition set_template :: "Identifier option \<Rightarrow> LedgerEvent \<Rightarrow> LedgerEvent" where
  "set_template tid le =
     (case tid of
        None \<Rightarrow> le
      | Some t \<Rightarrow> le\<lparr>le_PackageID := id_PackageId t, le_ModuleName := id_ModuleName t,
                     le_TemplateName := id_EntityName t\<rparr>)"

fun decodeLedgerEvent :: "LapiEvent \<Rightarrow> LedgerEvent option" where
  "decodeLedgerEvent (Ev_Created created) =
     (if ce_AcsDelta created
      then Some (set_template (ce_TemplateId created)
             \<lparr>le_ContractID = ce_ContractId created, le_PackageID = '''', le_ModuleName = '''',
              le_TemplateName = '''', le_IsCreated = True, le_Choice = '''',
              le_fields = RecordToMap (ce_CreateArguments created)\<rparr>)
      else None)"
| "decodeLedgerEvent (Ev_Exercised exercised) =
     (if xe_Consuming exercised \<and> xe_AcsDelta exercised
      then Some (set_template (xe_TemplateId exercised)
             \<lparr>le_ContractID = xe_ContractId exercised, le_PackageID = '''', le_ModuleName = '''',
              le_TemplateName = '''', le_IsCreated = False, le_Choice = xe_Choice exercised,
              le_fields = None\<rparr>)
      else None)"
| "decodeLedgerEvent (Ev_Archived _) = None"

definition decodeLedgerTransaction :: "LapiTransaction \<Rightarrow> LedgerTransaction" where
  "decodeLedgerTransaction tx =
     \<lparr>lt_UpdateID = tx_UpdateId tx, lt_Offset = tx_Offset tx,
      lt_EffectiveTime = tx_EffectiveAt tx,
      lt_Events = List.map_filter decodeLedgerEvent (tx_Events tx)\<rparr>"

section \<open>Batches\<close>

record 'i Batch =
  b_Offset :: int
  b_UpdateID :: string
  b_Items :: "'i list"

text \<open>One batch per transaction, also when no event of it decodes to an item.\<close>

definition stream_batch ::
  "(LedgerTransaction \<Rightarrow> LedgerEvent \<Rightarrow> 'i option) \<Rightarrow> LedgerTransaction \<Rightarrow> 'i Batch" where
  "stream_batch decode tx =
     \<lparr>b_Offset = lt_Offset tx, b_UpdateID = lt_UpdateID tx,
      b_Items = List.map_filter (decode tx) (lt_Events tx)\<rparr>"

section \<open>Subscription\<close>

definition reconnectBaseDelay :: int where "reconnectBaseDelay = 5 * 10 ^ 9"
definition reconnectMaxDelay :: int where "reconnectMaxDelay = 60 * 10 ^ 9"

definition io_EOF :: goerr where "io_EOF = Sentinel ''EOF''"

definition Unauthenticated :: nat where "Unauthenticated = 16"
definition PermissionDenied :: nat where "PermissionDenied = 7"

definition isAuthError :: "(goerr \<Rightarrow> nat option) \<Rightarrow> goerr option \<Rightarrow> bool" where
  "isAuthError FromError err =
     (case err of
        None \<Rightarrow> False
      | Some e \<Rightarrow> (case FromError e of
                    None \<Rightarrow> False
                  | Some code \<Rightarrow> code = Unauthenticated \<or> code = PermissionDenied))"

text \<open>
  What a connection opened at an (exclusive) begin offset does: it fails to open, or it delivers
  responses (\<^const>\<open>None\<close> for a checkpoint or topology update) until \<open>Recv\<close> returns an error.
\<close>

type_synonym connection = "int \<Rightarrow> goerr + (LapiTransaction option list \<times> goerr)"

fun recv_loop ::
  "LapiTransaction option list \<Rightarrow> goerr \<Rightarrow> int \<Rightarrow> LedgerTransaction list \<times> int \<times> goerr" where
  "recv_loop [] e lastOffset = ([], lastOffset, e)"
| "recv_loop (None # rs) e lastOffset = recv_loop rs e lastOffset"
| "recv_loop (Some tx # rs) e lastOffset =
     (let lt = decodeLedgerTransaction tx;
          (out, l, err) = recv_loop rs e (lt_Offset lt)
      in (lt # out, l, err))"

definition runStream ::
  "connection \<Rightarrow> int \<Rightarrow> int \<Rightarrow> LedgerTransaction list \<times> int \<times> goerr" where
  "runStream conn fromOffset lastOffset =
     (case conn fromOffset of
        Inl e \<Rightarrow> ([], lastOffset, Errorf ''open canton stream'' e)
      | Inr (resps, e) \<Rightarrow> recv_loop resps e lastOffset)"

text \<open>The transactions put on the channel, the final \<open>lastOffset\<close>, and the delays slept.\<close>

fun Subscribe ::
  "(goerr \<Rightarrow> nat option) \<Rightarrow> connection list \<Rightarrow> int \<Rightarrow> int \<Rightarrow> int
     \<Rightarrow> LedgerTransaction list \<times> int \<times> int list" where
  "Subscribe FromError [] fromOffset lastOffset delay = ([], lastOffset, [])"
| "Subscribe FromError (conn # conns) fromOffset lastOffset delay =
     (let (out, last', err) = runStream conn fromOffset lastOffset
      in if errors_Is err io_EOF then (out, last', [])
         else let delay' = (if isAuthError FromError (Some err) then reconnectBaseDelay else delay);
                  (out', last'', sleeps) =
                    Subscribe FromError conns last' last' (min (delay' * 2) reconnectMaxDelay)
              in (out @ out', last'', delay' # sleeps))"

section \<open>Resumption\<close>

text \<open>
  A ledger is a list of updates with strictly increasing offsets; a connection conforms to it
  when it delivers, from any begin offset, some initial part of the updates after that offset.
\<close>

type_synonym ledger = "(int \<times> LapiTransaction option) list"

definition valid_ledger :: "ledger \<Rightarrow> bool" where
  "valid_ledger L \<longleftrightarrow> sorted_wrt (<) (map fst L) \<and>
     (\<forall>u \<in> set L. \<forall>tx. snd u = Some tx \<longrightarrow> tx_Offset tx = fst u)"

definition conforms :: "ledger \<Rightarrow> connection \<Rightarrow> bool" where
  "conforms L conn \<longleftrightarrow>
     (\<forall>off resps e. conn off = Inr (resps, e) \<longrightarrow>
        (\<exists>k. resps = map snd (take k (filter (\<lambda>u. off < fst u) L))))"

text \<open>The transactions of the ledger in the half-open offset interval.\<close>

definition txs_between :: "ledger \<Rightarrow> int \<Rightarrow> int \<Rightarrow> LapiTransaction list" where
  "txs_between L a b = List.map_filter snd (filter (\<lambda>u. a < fst u \<and> fst u \<le> b) L)"

lemma txs_between_simps [simp]:
  "txs_between [] a b = []"
  "txs_between (u # L) a b =
     (if a < fst u \<and> fst u \<le> b
      then (case snd u of None \<Rightarrow> txs_between L a b | Some tx \<Rightarrow> tx # txs_between L a b)
      else txs_between L a b)"
  by (auto simp: txs_between_def List.map_filter_def split: option.splits)

lemma txs_between_filter [simp]: "txs_between (filter (\<lambda>u. a < fst u) L) a b = txs_between L a b"
  unfolding txs_between_def filter_filter
  by (intro arg_cong[where f = "List.map_filter snd"] filter_cong) auto

lemma txs_between_empty [simp]: "b \<le> a \<Longrightarrow> txs_between L a b = []"
  by (induction L) auto

lemma txs_between_late: "\<forall>u \<in> set L. c \<le> fst u - 1 \<Longrightarrow> a \<le> c \<Longrightarrow> txs_between L a b = txs_between L c b"
  by (induction L) (auto split: option.splits)

lemma txs_between_above: "\<forall>u \<in> set L. b < fst u \<Longrightarrow> txs_between L a b = []"
  by (induction L) auto

lemma txs_between_split:
  "sorted_wrt (<) (map fst L) \<Longrightarrow> a \<le> b \<Longrightarrow> b \<le> c \<Longrightarrow>
     txs_between L a b @ txs_between L b c = txs_between L a c"
proof (induction L)
  case (Cons u L)
  show ?case
  proof (cases "fst u \<le> b")
    case True
    with Cons show ?thesis by (auto split: option.splits)
  next
    case False
    with Cons.prems have "txs_between L a b = []"
      by (intro txs_between_above) auto
    with False Cons show ?thesis by (auto split: option.splits)
  qed
qed simp

lemma recv_loop_prefix:
  assumes "sorted_wrt (<) (map fst M)" "\<forall>u \<in> set M. a < fst u"
    and "\<forall>u \<in> set M. \<forall>tx. snd u = Some tx \<longrightarrow> tx_Offset tx = fst u"
  shows "\<exists>l. a \<le> l \<and>
    recv_loop (map snd (take k M)) e a = (map decodeLedgerTransaction (txs_between M a l), l, e)"
  using assms
proof (induction M arbitrary: a k)
  case (Cons u M)
  show ?case
  proof (cases k)
    case (Suc k')
    show ?thesis
    proof (cases "snd u")
      case None
      with Cons.prems Cons.IH[of a k'] Suc show ?thesis by auto
    next
      case (Some tx)
      then have off: "tx_Offset tx = fst u" "a < fst u"
        using Cons.prems by auto
      obtain l where l: "fst u \<le> l" "recv_loop (map snd (take k' M)) e (fst u) =
          (map decodeLedgerTransaction (txs_between M (fst u) l), l, e)"
        using Cons.IH[of "fst u" k'] Cons.prems by auto
      have "txs_between M a l = txs_between M (fst u) l"
        using Cons.prems off by (intro txs_between_late) auto
      with l off Some Suc show ?thesis
        by (intro exI[of _ l]) (auto simp: decodeLedgerTransaction_def)
    qed
  qed auto
qed auto

lemma runStream_prefix:
  assumes "valid_ledger L" "conforms L conn"
  shows "\<exists>l e. frm \<le> l \<and>
    runStream conn frm frm = (map decodeLedgerTransaction (txs_between L frm l), l, e)"
proof (cases "conn frm")
  case (Inl e)
  then show ?thesis by (intro exI[of _ frm]) (simp add: runStream_def)
next
  case (Inr r)
  obtain resps e where r: "r = (resps, e)" by fastforce
  let ?M = "filter (\<lambda>u. frm < fst u) L"
  from r Inr assms(2) obtain k where k: "resps = map snd (take k ?M)"
    unfolding conforms_def by blast
  have "sorted_wrt (<) (map fst ?M)"
    using assms(1) unfolding valid_ledger_def sorted_wrt_map by (intro sorted_wrt_filter) simp
  moreover have "\<forall>u \<in> set ?M. frm < fst u"
    by simp
  moreover have "\<forall>u \<in> set ?M. \<forall>tx. snd u = Some tx \<longrightarrow> tx_Offset tx = fst u"
    using assms(1) by (simp add: valid_ledger_def)
  ultimately obtain l where "frm \<le> l"
    "recv_loop resps e frm = (map decodeLedgerTransaction (txs_between ?M frm l), l, e)"
    unfolding k using recv_loop_prefix by blast
  with Inr r show ?thesis
    by (intro exI[of _ l] exI[of _ e]) (simp add: runStream_def)
qed

lemma Subscribe_prefix:
  assumes "valid_ledger L" "\<forall>c \<in> set conns. conforms L c"
  shows "\<exists>l sleeps. frm \<le> l \<and>
    Subscribe FE conns frm frm delay =
      (map decodeLedgerTransaction (txs_between L frm l), l, sleeps)"
  using assms(2)
proof (induction conns arbitrary: frm delay)
  case (Cons conn conns)
  obtain l e where l: "frm \<le> l"
    "runStream conn frm frm = (map decodeLedgerTransaction (txs_between L frm l), l, e)"
    using runStream_prefix[OF assms(1), of conn frm] Cons.prems by auto
  let ?d = "if isAuthError FE (Some e) then reconnectBaseDelay else delay"
  obtain l' sleeps where l': "l \<le> l'" "Subscribe FE conns l l (min (?d * 2) reconnectMaxDelay) =
      (map decodeLedgerTransaction (txs_between L l l'), l', sleeps)"
    using Cons.IH[of l "min (?d * 2) reconnectMaxDelay"] Cons.prems by auto
  have "txs_between L frm l @ txs_between L l l' = txs_between L frm l'"
    using assms(1) l(1) l'(1) by (intro txs_between_split) (auto simp: valid_ledger_def)
  with l l' show ?case
    by (auto simp: Let_def map_append[symmetric] simp del: map_append)
qed auto

text \<open>
  C17: resumption is exactly-once.  Whatever connections the subscription goes through, with
  failures to open, broken streams and expired tokens in between, the transactions it puts on its
  channel are exactly those of the ledger after the requested offset, up to the offset it has
  reached, each once and in order.
\<close>

theorem Subscribe_exactly_once:
  assumes "valid_ledger L" "\<forall>c \<in> set conns. conforms L c"
  shows "\<exists>l sleeps. frm \<le> l \<and>
    Subscribe FE conns frm frm delay =
      (map decodeLedgerTransaction (txs_between L frm l), l, sleeps)"
  by (rule Subscribe_prefix[OF assms])

text \<open>A ledger of two transactions and a connection that breaks after the first.\<close>

definition demo_tx :: "int \<Rightarrow> LapiTransaction" where
  "demo_tx n = \<lparr>tx_UpdateId = ''u'', tx_Offset = n, tx_EffectiveAt = 0, tx_Events = []\<rparr>"

definition demo_ledger :: ledger where
  "demo_ledger = [(3, Some (demo_tx 3)), (5, None), (8, Some (demo_tx 8))]"

definition breaks_after :: "nat \<Rightarrow> ledger \<Rightarrow> connection" where
  "breaks_after k L off = Inr (map snd (take k (filter (\<lambda>u. off < fst u) L)), Err ''broken'')"

lemma breaks_after_conforms [simp]: "conforms L (breaks_after k L)"
  by (auto simp: conforms_def breaks_after_def)

theorem Subscribe_exactly_once_witness:
  "\<exists>l sleeps. 0 \<le> l \<and>
    Subscribe (\<lambda>_. None) [breaks_after 1 demo_ledger, breaks_after 2 demo_ledger] 0 0 reconnectBaseDelay =
      (map decodeLedgerTransaction (txs_between demo_ledger 0 l), l, sleeps)"
  by (rule Subscribe_exactly_once)
    (auto simp: valid_ledger_def demo_ledger_def demo_tx_def)

end
