(* ===== verification/Canton_Bridge.thy ===== *)
theory Canton_Bridge
  imports Ledger_Stream
begin

text \<open>
  \<open>pkg/cantonsdk/bridge\<close>: the Wayfinder bridge client.  Its operations build one exercise
  command, submit it and look for the contract it created; the withdrawal stream reconnects from
  the last withdrawal it delivered.

  The ledger client and the identity client are the records \<open>Ledger\<close> and \<open>Identity\<close> of
  operations over a world \<open>'w\<close>.  As in the streaming package, a run of the withdrawal stream is a
  list of connections; each comes with whether it stayed up for \<open>streamHealthyThreshold\<close>.
\<close>

section \<open>Types\<close>

record BridgeConfig =
  bc_DomainID :: string
  bc_UserID :: string
  bc_OperatorParty :: string
  bc_PackageID :: string
  bc_CorePackageID :: string
  bc_Module :: string

record PendingDeposit =
  PD_ContractID :: string
  PD_MappingCID :: string
  PD_Fingerprint :: string
  PD_CreatedAt :: time

record CreatePendingDepositRequest =
  CPD_Fingerprint :: string
  CPD_Amount :: string
  CPD_EvmTxHash :: string

record ProcessedDeposit =
  PrD_ContractID :: string

record ProcessDepositRequest =
  PDR_DepositCID :: string
  PDR_MappingCID :: string

record InitiateWithdrawalRequest =
  IW_MappingCID :: string
  IW_HoldingCID :: string
  IW_Amount :: string
  IW_EvmDestination :: string

record CompleteWithdrawalRequest =
  CW_WithdrawalEventCID :: string
  CW_EvmTxHash :: string

datatype WithdrawalStatus =
    WithdrawalStatusPending
  | WithdrawalStatusCompleted
  | WithdrawalStatusFailed

record WithdrawalEvent =
  WE_ContractID :: string
  WE_EventID :: string
  WE_TransactionID :: string
  WE_Issuer :: string
  WE_UserParty :: string
  WE_EvmDestination :: string
  WE_Amount :: string
  WE_Fingerprint :: string
  WE_Status :: WithdrawalStatus

definition config_validate :: "BridgeConfig \<Rightarrow> goerr + unit" where
  "config_validate c =
     (if bc_DomainID c = '''' then Inl (Err ''domain id is required'')
      else if bc_UserID c = '''' then Inl (Err ''user id is required'')
      else if bc_OperatorParty c = '''' then Inl (Err ''operator party is required'')
      else if bc_PackageID c = '''' then Inl (Err ''bridge package id is required'')
      else if bc_Module c = '''' then Inl (Err ''bridge module is required'')
      else if bc_CorePackageID c = '''' then Inl (Err ''bridge core_package_id is required'')
      else Inr ())"

definition create_validate :: "CreatePendingDepositRequest \<Rightarrow> goerr + unit" where
  "create_validate c =
     (if CPD_Fingerprint c = '''' then Inl (Err ''fingerprint is required'')
      else if CPD_Amount c = '''' then Inl (Err ''amount is required'')
      else if CPD_EvmTxHash c = '''' then Inl (Err ''evm_tx_hash is required'')
      else Inr ())"

definition process_validate :: "ProcessDepositRequest \<Rightarrow> goerr + unit" where
  "process_validate p =
     (if PDR_DepositCID p = '''' then Inl (Err ''deposit_cid is required'')
      else if PDR_MappingCID p = '''' then Inl (Err ''mapping_cid is required'')
      else Inr ())"

definition initiate_validate :: "InitiateWithdrawalRequest \<Rightarrow> goerr + unit" where
  "initiate_validate i =
     (if IW_MappingCID i = '''' then Inl (Err ''mapping_cid is required'')
      else if IW_HoldingCID i = '''' then Inl (Err ''holding_cid is required'')
      else if IW_Amount i = '''' then Inl (Err ''amount is required'')
      else if IW_EvmDestination i = '''' then Inl (Err ''evm_destination is required'')
      else Inr ())"

definition complete_validate :: "CompleteWithdrawalRequest \<Rightarrow> goerr + unit" where
  "complete_validate c =
     (if CW_WithdrawalEventCID c = '''' then Inl (Err ''withdrawal_event_cid is required'')
      else if CW_EvmTxHash c = '''' then Inl (Err ''evm_tx_hash is required'')
      else Inr ())"

section \<open>Encoding and decoding\<close>

definition encodeCreatePendingDepositArgs :: "time \<Rightarrow> CreatePendingDepositRequest \<Rightarrow> Record" where
  "encodeCreatePendingDepositArgs now req =
     [(''fingerprint'', TextValue (CPD_Fingerprint req)),
      (''amount'', NumericValue (CPD_Amount req)),
      (''evmTxHash'', TextValue (CPD_EvmTxHash req)),
      (''timestamp'', TimestampValue now)]"

definition encodeProcessDepositAndMintArgs :: "time \<Rightarrow> ProcessDepositRequest \<Rightarrow> Record" where
  "encodeProcessDepositAndMintArgs now req =
     [(''depositCid'', ContractIDValue (PDR_DepositCID req)),
      (''mappingCid'', ContractIDValue (PDR_MappingCID req)),
      (''timestamp'', TimestampValue now)]"

definition encodeInitiateWithdrawalArgs :: "InitiateWithdrawalRequest \<Rightarrow> Record" where
  "encodeInitiateWithdrawalArgs req =
     [(''mappingCid'', ContractIDValue (IW_MappingCID req)),
      (''holdingCid'', ContractIDValue (IW_HoldingCID req)),
      (''amount'', NumericValue (IW_Amount req)),
      (''evmDestination'', NewtypeValue (TextValue (IW_EvmDestination req)))]"

definition encodeProcessWithdrawalArgs :: "time \<Rightarrow> Record" where
  "encodeProcessWithdrawalArgs now = [(''timestamp'', TimestampValue now)]"

definition encodeCompleteWithdrawalArgs :: "time \<Rightarrow> string \<Rightarrow> Record" where
  "encodeCompleteWithdrawalArgs now evmTxHash =
     [(''evmTxHash'', TextValue evmTxHash), (''timestamp'', TimestampValue now)]"

fun decodeWithdrawalStatusV2 :: "Value option \<Rightarrow> WithdrawalStatus" where
  "decodeWithdrawalStatusV2 (Some (V_Variant constructor _)) =
     (if constructor = ''Pending'' then WithdrawalStatusPending
      else if constructor = ''Completed'' then WithdrawalStatusCompleted
      else if constructor = ''Failed'' then WithdrawalStatusFailed
      else WithdrawalStatusPending)"
| "decodeWithdrawalStatusV2 _ = WithdrawalStatusPending"

definition decodeWithdrawalEvent :: "CreatedEvent \<Rightarrow> string \<Rightarrow> WithdrawalEvent" where
  "decodeWithdrawalEvent ce txID =
     (let fields = RecordToMap (ce_CreateArguments ce)
      in \<lparr>WE_ContractID = ce_ContractId ce,
          WE_EventID = FormatInt (ce_Offset ce) @ ''-'' @ FormatInt (ce_NodeId ce),
          WE_TransactionID = txID,
          WE_Issuer = Party (mget fields ''issuer''),
          WE_UserParty = Party (mget fields ''userParty''),
          WE_EvmDestination = NewtypeText (mget fields ''evmDestination''),
          WE_Amount = Numeric (mget fields ''amount''),
          WE_Fingerprint = Text (mget fields ''fingerprint''),
          WE_Status = decodeWithdrawalStatusV2 (mget fields ''status'')\<rparr>)"

section \<open>The clients the bridge calls\<close>

record ExerciseCommand =
  ex_TemplateId :: Identifier
  ex_ContractId :: string
  ex_Choice :: string
  ex_ChoiceArgument :: Record

record Commands =
  cmd_SynchronizerId :: string
  cmd_CommandId :: string
  cmd_UserId :: string
  cmd_ActAs :: "string list"
  cmd_Commands :: "ExerciseCommand list"

record 'w Ledger =
  GetLedgerEnd :: "('w, goerr + int) state"
  GetActiveContractsByTemplate ::
    "int \<Rightarrow> string list \<Rightarrow> Identifier \<Rightarrow> ('w, goerr + CreatedEvent list) state"
  SubmitAndWaitForTransaction :: "Commands \<Rightarrow> ('w, goerr + LapiTransaction option) state"
  SubmitAndWait :: "Commands \<Rightarrow> ('w, goerr + unit) state"
  NewUUID :: "('w, string) state"
  L_Now :: "('w, time) state"

record FingerprintMapping =
  FM_ContractID :: string
  FM_Fingerprint :: string

record 'w Identity =
  I_PackageID :: string
  GetFingerprintMapping :: "string \<Rightarrow> ('w, goerr + FingerprintMapping) state"

text \<open>\<open>GetCreated\<close> with a template identifier, as the response loops test.\<close>

fun created_with_template :: "LapiEvent \<Rightarrow> (CreatedEvent \<times> Identifier) option" where
  "created_with_template (Ev_Created created) =
     (case ce_TemplateId created of None \<Rightarrow> None | Some tid \<Rightarrow> Some (created, tid))"
| "created_with_template _ = None"

definition is_template :: "string \<Rightarrow> string \<Rightarrow> CreatedEvent \<times> Identifier \<Rightarrow> bool" where
  "is_template modname entity ct \<longleftrightarrow>
     id_ModuleName (snd ct) = modname \<and> id_EntityName (snd ct) = entity"

definition bridgeContractsModule :: string where "bridgeContractsModule = ''Bridge.Contracts''"
definition fingerprintModule :: string where "fingerprintModule = ''Common.FingerprintAuth''"

text \<open>The \<open>Commands\<close> message of every submission, with a fresh command id.\<close>

definition bridge_commands :: "BridgeConfig \<Rightarrow> string \<Rightarrow> ExerciseCommand \<Rightarrow> Commands" where
  "bridge_commands cfg uuid cmd =
     \<lparr>cmd_SynchronizerId = bc_DomainID cfg, cmd_CommandId = uuid, cmd_UserId = bc_UserID cfg,
      cmd_ActAs = [bc_OperatorParty cfg], cmd_Commands = [cmd]\<rparr>"

definition config_template :: "BridgeConfig \<Rightarrow> Identifier" where
  "config_template cfg =
     \<lparr>id_PackageId = bc_PackageID cfg, id_ModuleName = bc_Module cfg,
      id_EntityName = ''WayfinderBridgeConfig''\<rparr>"

definition core_template :: "BridgeConfig \<Rightarrow> string \<Rightarrow> Identifier" where
  "core_template cfg entity =
     \<lparr>id_PackageId = bc_CorePackageID cfg, id_ModuleName = bridgeContractsModule,
      id_EntityName = entity\<rparr>"

section \<open>Operations\<close>

definition GetWayfinderBridgeConfigCID ::
  "BridgeConfig \<Rightarrow> 'w Ledger \<Rightarrow> ('w, goerr + string) state" where
  "GetWayfinderBridgeConfigCID cfg L = do {
     en \<leftarrow> GetLedgerEnd L;
     case en of
       Inl e \<Rightarrow> ret (Inl e)
     | Inr end' \<Rightarrow>
         if end' = 0 then ret (Inl (Err ''ledger is empty, no contracts exist''))
         else do {
           evs \<leftarrow> GetActiveContractsByTemplate L end' [bc_OperatorParty cfg] (config_template cfg);
           (case evs of
              Inl e \<Rightarrow> ret (Inl (Errorf ''query WayfinderBridgeConfig'' e))
            | Inr [] \<Rightarrow> ret (Inl (Err ''no active WayfinderBridgeConfig found''))
            | Inr (ce # _) \<Rightarrow> ret (Inr (ce_ContractId ce))) } }"

definition deposit_check ::
  "BridgeConfig \<Rightarrow> 'w Ledger \<Rightarrow> int \<Rightarrow> string \<Rightarrow> Identifier \<Rightarrow> ('w, goerr + bool) state" where
  "deposit_check cfg L end' evmTxHash tid = do {
     evs \<leftarrow> GetActiveContractsByTemplate L end' [bc_OperatorParty cfg] tid;
     case evs of
       Inl e \<Rightarrow> ret (Inl e)
     | Inr events \<Rightarrow> ret (Inr (list_ex (\<lambda>ce.
         Text (mget (RecordToMap (ce_CreateArguments ce)) ''evmTxHash'') = evmTxHash) events)) }"

definition bridge_IsDepositProcessed ::
  "BridgeConfig \<Rightarrow> 'w Ledger \<Rightarrow> 'w Identity \<Rightarrow> string \<Rightarrow> ('w, goerr + bool) state" where
  "bridge_IsDepositProcessed cfg L I evmTxHash =
     (if evmTxHash = '''' then ret (Inl (Err ''evm tx hash is required''))
      else do {
        en \<leftarrow> GetLedgerEnd L;
        case en of
          Inl e \<Rightarrow> ret (Inl e)
        | Inr end' \<Rightarrow>
            if end' = 0 then ret (Inr False)
            else do {
              let pendingTID = \<lparr>id_PackageId = I_PackageID I, id_ModuleName = fingerprintModule,
                                id_EntityName = ''PendingDeposit''\<rparr>;
              let receiptTID = \<lparr>id_PackageId = I_PackageID I, id_ModuleName = fingerprintModule,
                                id_EntityName = ''DepositReceipt''\<rparr>;
              ok \<leftarrow> deposit_check cfg L end' evmTxHash pendingTID;
              (case ok of
                 Inl e \<Rightarrow> ret (Inl (Errorf ''query PendingDeposit'' e))
               | Inr True \<Rightarrow> ret (Inr True)
               | Inr False \<Rightarrow> do {
                   ok' \<leftarrow> deposit_check cfg L end' evmTxHash receiptTID;
                   (case ok' of
                      Inl e \<Rightarrow> ret (Inl (Errorf ''query DepositReceipt'' e))
                    | Inr b \<Rightarrow> ret (Inr b)) }) } })"

text \<open>
  Submitting an exercise command and taking the response apart; \<open>what\<close> is the prefix of the
  operation's error messages.
\<close>

definition submit_for_transaction ::
  "BridgeConfig \<Rightarrow> 'w Ledger \<Rightarrow> string \<Rightarrow> ExerciseCommand \<Rightarrow> ('w, goerr + LapiEvent list) state" where
  "submit_for_transaction cfg L what cmd = do {
     uuid \<leftarrow> NewUUID L;
     resp \<leftarrow> SubmitAndWaitForTransaction L (bridge_commands cfg uuid cmd);
     case resp of
       Inl e \<Rightarrow> ret (Inl (Errorf what e))
     | Inr None \<Rightarrow> ret (Inl (Err (what @ '': missing transaction in response'')))
     | Inr (Some tx) \<Rightarrow> ret (Inr (tx_Events tx)) }"

definition bridge_CreatePendingDeposit ::
  "BridgeConfig \<Rightarrow> 'w Ledger \<Rightarrow> 'w Identity \<Rightarrow> CreatePendingDepositRequest
     \<Rightarrow> ('w, goerr + PendingDeposit) state" where
  "bridge_CreatePendingDeposit cfg L I req =
     (case create_validate req of
        Inl e \<Rightarrow> ret (Inl (Errorf ''invalid request'' e))
      | Inr _ \<Rightarrow> do {
          cid \<leftarrow> GetWayfinderBridgeConfigCID cfg L;
          case cid of
            Inl e \<Rightarrow> ret (Inl e)
          | Inr configCID \<Rightarrow> do {
              mp \<leftarrow> GetFingerprintMapping I (CPD_Fingerprint req);
              (case mp of
                 Inl e \<Rightarrow> ret (Inl e)
               | Inr m \<Rightarrow> do {
                   let req' = req\<lparr>CPD_Fingerprint := FM_Fingerprint m\<rparr>;
                   now \<leftarrow> L_Now L;
                   evs \<leftarrow> submit_for_transaction cfg L ''create pending deposit''
                     \<lparr>ex_TemplateId = config_template cfg, ex_ContractId = configCID,
                      ex_Choice = ''CreatePendingDeposit'',
                      ex_ChoiceArgument = encodeCreatePendingDepositArgs now req'\<rparr>;
                   (case evs of
                      Inl e \<Rightarrow> ret (Inl e)
                    | Inr events \<Rightarrow>
                        (case find (is_template fingerprintModule ''PendingDeposit'')
                                (List.map_filter created_with_template events) of
                           None \<Rightarrow> ret (Inl (Err ''PendingDeposit contract not found in response''))
                         | Some (created, _) \<Rightarrow>
                             ret (Inr \<lparr>PD_ContractID = ce_ContractId created,
                                       PD_MappingCID = FM_ContractID m,
                                       PD_Fingerprint = FM_Fingerprint m,
                                       PD_CreatedAt = ce_CreatedAt created\<rparr>))) }) } })"

text \<open>The last \<open>CIP56Holding\<close> of the response wins; an empty id counts as none.\<close>

definition holding_cid :: "LapiEvent list \<Rightarrow> string" where
  "holding_cid events =
     foldl (\<lambda>cid ct. if is_template ''CIP56.Token'' ''CIP56Holding'' ct then ce_ContractId (fst ct) else cid)
       '''' (List.map_filter created_with_template events)"

definition bridge_ProcessDepositAndMint ::
  "BridgeConfig \<Rightarrow> 'w Ledger \<Rightarrow> ProcessDepositRequest \<Rightarrow> ('w, goerr + ProcessedDeposit) state" where
  "bridge_ProcessDepositAndMint cfg L req =
     (case process_validate req of
        Inl e \<Rightarrow> ret (Inl (Errorf ''invalid request'' e))
      | Inr _ \<Rightarrow> do {
          cid \<leftarrow> GetWayfinderBridgeConfigCID cfg L;
          case cid of
            Inl e \<Rightarrow> ret (Inl e)
          | Inr configCID \<Rightarrow> do {
              now \<leftarrow> L_Now L;
              evs \<leftarrow> submit_for_transaction cfg L ''process deposit and mint''
                \<lparr>ex_TemplateId = config_template cfg, ex_ContractId = configCID,
                 ex_Choice = ''ProcessDepositAndMint'',
                 ex_ChoiceArgument = encodeProcessDepositAndMintArgs now req\<rparr>;
              (case evs of
                 Inl e \<Rightarrow> ret (Inl e)
               | Inr events \<Rightarrow>
                   if holding_cid events = ''''
                   then ret (Inl (Err ''CIP56Holding contract not found in response''))
                   else ret (Inr \<lparr>PrD_ContractID = holding_cid events\<rparr>)) } })"

definition bridge_InitiateWithdrawal ::
  "BridgeConfig \<Rightarrow> 'w Ledger \<Rightarrow> InitiateWithdrawalRequest \<Rightarrow> ('w, goerr + string) state" where
  "bridge_InitiateWithdrawal cfg L req =
     (case initiate_validate req of
        Inl e \<Rightarrow> ret (Inl (Errorf ''invalid request'' e))
      | Inr _ \<Rightarrow> do {
          cid \<leftarrow> GetWayfinderBridgeConfigCID cfg L;
          case cid of
            Inl e \<Rightarrow> ret (Inl e)
          | Inr configCID \<Rightarrow> do {
              evs \<leftarrow> submit_for_transaction cfg L ''initiate withdrawal''
                \<lparr>ex_TemplateId = config_template cfg, ex_ContractId = configCID,
                 ex_Choice = ''InitiateWithdrawal'',
                 ex_ChoiceArgument = encodeInitiateWithdrawalArgs req\<rparr>;
              (case evs of
                 Inl e \<Rightarrow> ret (Inl e)
               | Inr events \<Rightarrow>
                   (case find (is_template bridgeContractsModule ''WithdrawalRequest'')
                           (List.map_filter created_with_template events) of
                      None \<Rightarrow> ret (Inl (Err ''WithdrawalRequest contract not found in response''))
                    | Some (created, _) \<Rightarrow> ret (Inr (ce_ContractId created)))) } })"

definition bridge_ProcessWithdrawal ::
  "BridgeConfig \<Rightarrow> 'w Ledger \<Rightarrow> string \<Rightarrow> ('w, goerr + string) state" where
  "bridge_ProcessWithdrawal cfg L withdrawalRequestCID = do {
     now \<leftarrow> L_Now L;
     evs \<leftarrow> submit_for_transaction cfg L ''process withdrawal''
       \<lparr>ex_TemplateId = core_template cfg ''WithdrawalRequest'',
        ex_ContractId = withdrawalRequestCID, ex_Choice = ''ProcessWithdrawal'',
        ex_ChoiceArgument = encodeProcessWithdrawalArgs now\<rparr>;
     (case evs of
        Inl e \<Rightarrow> ret (Inl e)
      | Inr events \<Rightarrow>
          (case find (is_template bridgeContractsModule ''WithdrawalEvent'')
                  (List.map_filter created_with_template events) of
             None \<Rightarrow> ret (Inl (Err ''WithdrawalEvent contract not found in response''))
           | Some (created, _) \<Rightarrow> ret (Inr (ce_ContractId created)))) }"

definition AlreadyExists :: nat where "AlreadyExists = 6"

definition isAlreadyExistsError :: "(goerr \<Rightarrow> nat option) \<Rightarrow> goerr \<Rightarrow> bool" where
  "isAlreadyExistsError FromError e \<longleftrightarrow>
     (case FromError e of Some code \<Rightarrow> code = AlreadyExists | None \<Rightarrow> False)"

definition bridge_CompleteWithdrawal ::
  "BridgeConfig \<Rightarrow> 'w Ledger \<Rightarrow> (goerr \<Rightarrow> nat option) \<Rightarrow> CompleteWithdrawalRequest
     \<Rightarrow> ('w, goerr + unit) state" where
  "bridge_CompleteWithdrawal cfg L FromError req =
     (case complete_validate req of
        Inl e \<Rightarrow> ret (Inl (Errorf ''invalid request'' e))
      | Inr _ \<Rightarrow> do {
          now \<leftarrow> L_Now L;
          uuid \<leftarrow> NewUUID L;
          r \<leftarrow> SubmitAndWait L (bridge_commands cfg uuid
            \<lparr>ex_TemplateId = core_template cfg ''WithdrawalEvent'',
             ex_ContractId = CW_WithdrawalEventCID req, ex_Choice = ''CompleteWithdrawal'',
             ex_ChoiceArgument = encodeCompleteWithdrawalArgs now (CW_EvmTxHash req)\<rparr>);
          (case r of
             Inl e \<Rightarrow> if isAlreadyExistsError FromError e then ret (Inr ())
                      else ret (Inl (Errorf ''complete withdrawal'' e))
           | Inr _ \<Rightarrow> ret (Inr ())) })"

section \<open>The withdrawal stream\<close>

definition streamReconnectDelay :: int where "streamReconnectDelay = 5 * 10 ^ 9"
definition streamMaxReconnectDelay :: int where "streamMaxReconnectDelay = 60 * 10 ^ 9"

definition parseOffset :: "string \<Rightarrow> goerr + int" where
  "parseOffset offset =
     (if offset = '''' \<or> offset = ''BEGIN'' then Inr 0
      else case ParseInt offset of
             Inl e \<Rightarrow> Inl (Errorf (''invalid offset '' @ offset) e)
           | Inr n \<Rightarrow> Inr n)"

text \<open>The pending withdrawals of a transaction, each with the offset of its event.\<close>

definition withdrawal_of :: "LapiTransaction \<Rightarrow> CreatedEvent \<times> Identifier \<Rightarrow> (int \<times> WithdrawalEvent) option" where
  "withdrawal_of tx ct =
     (if \<not> is_template bridgeContractsModule ''WithdrawalEvent'' ct then None
      else let we = decodeWithdrawalEvent (fst ct) (tx_UpdateId tx)
           in if WE_Status we \<noteq> WithdrawalStatusPending then None
              else Some (ce_Offset (fst ct), we))"

definition tx_withdrawals :: "LapiTransaction \<Rightarrow> (int \<times> WithdrawalEvent) list" where
  "tx_withdrawals tx =
     List.map_filter (withdrawal_of tx) (List.map_filter created_with_template (tx_Events tx))"

text \<open>
  The receive loop: what it puts on the channel, the final \<open>lastOffset\<close> and the error that ends
  it.  \<open>lastOffset\<close> follows every withdrawal put on the channel.
\<close>

fun withdrawal_loop ::
  "LapiTransaction option list \<Rightarrow> goerr \<Rightarrow> string \<Rightarrow> WithdrawalEvent list \<times> string \<times> goerr" where
  "withdrawal_loop [] e lastOffset = ([], lastOffset, e)"
| "withdrawal_loop (None # rs) e lastOffset = withdrawal_loop rs e lastOffset"
| "withdrawal_loop (Some tx # rs) e lastOffset =
     (let ws = tx_withdrawals tx;
          lastOffset' = foldl (\<lambda>_ w. FormatInt (fst w)) lastOffset ws;
          (out, l, err) = withdrawal_loop rs e lastOffset'
      in (map snd ws @ out, l, err))"

definition streamWithdrawalEventsOnce ::
  "connection \<Rightarrow> string \<Rightarrow> WithdrawalEvent list \<times> string \<times> goerr" where
  "streamWithdrawalEventsOnce conn offset =
     (case parseOffset offset of
        Inl e \<Rightarrow> ([], offset, e)
      | Inr beginExclusive \<Rightarrow>
          (case conn beginExclusive of
             Inl e \<Rightarrow> ([], offset, Errorf ''start withdrawal stream'' e)
           | Inr (resps, e) \<Rightarrow> withdrawal_loop resps e offset))"

fun StreamWithdrawalEvents ::
  "(goerr \<Rightarrow> nat option) \<Rightarrow> (connection \<times> bool) list \<Rightarrow> string \<Rightarrow> int
     \<Rightarrow> WithdrawalEvent list \<times> string \<times> int list" where
  "StreamWithdrawalEvents FromError [] currentOffset reconnectDelay = ([], currentOffset, [])"
| "StreamWithdrawalEvents FromError ((conn, healthy) # conns) currentOffset reconnectDelay =
     (let (out, offset', err) = streamWithdrawalEventsOnce conn currentOffset;
          delay = (if healthy then streamReconnectDelay else reconnectDelay);
          delay' = (if isAuthError FromError (Some err) then streamReconnectDelay else delay);
          (out', offset'', sleeps) =
            StreamWithdrawalEvents FromError conns offset' (min (delay' * 2) streamMaxReconnectDelay)
      in (out @ out', offset'', delay' # sleeps))"

section \<open>Every withdrawal is delivered exactly once\<close>

text \<open>A ledger whose events carry the offset of their transaction, a positive \<open>int64\<close>.\<close>

definition withdrawal_ledger :: "ledger \<Rightarrow> bool" where
  "withdrawal_ledger L \<longleftrightarrow> valid_ledger L \<and>
     (\<forall>u \<in> set L. 0 < fst u \<and> int64_range (fst u) \<and>
        (\<forall>tx ce. snd u = Some tx \<longrightarrow> Ev_Created ce \<in> set (tx_Events tx) \<longrightarrow> ce_Offset ce = tx_Offset tx))"

definition withdrawals :: "LapiTransaction list \<Rightarrow> (int \<times> WithdrawalEvent) list" where
  "withdrawals txs = concat (map tx_withdrawals txs)"

lemma withdrawals_simps [simp]:
  "withdrawals [] = []"
  "withdrawals (tx # txs) = tx_withdrawals tx @ withdrawals txs"
  "withdrawals (xs @ ys) = withdrawals xs @ withdrawals ys"
  by (simp_all add: withdrawals_def)

lemma map_filter_Cons [simp]:
  "List.map_filter f [] = []"
  "List.map_filter f (x # xs) = (case f x of None \<Rightarrow> List.map_filter f xs | Some y \<Rightarrow> y # List.map_filter f xs)"
  by (simp_all add: List.map_filter_simps)

lemma map_filter_mem: "y \<in> set (List.map_filter f xs) \<longleftrightarrow> (\<exists>x \<in> set xs. f x = Some y)"
  by (induction xs) (auto split: option.splits)

lemma foldl_last:
  "foldl (\<lambda>_ w. f w) a ws = (if ws = [] then a else f (last ws))"
  by (induction ws arbitrary: a) auto

lemma withdrawal_loop_eq:
  "withdrawal_loop resps e off =
     (let ws = withdrawals (List.map_filter id resps)
      in (map snd ws, if ws = [] then off else FormatInt (fst (last ws)), e))"
  by (induction resps e off rule: withdrawal_loop.induct)
    (simp_all add: Let_def foldl_last last_append)

lemma parseOffset_FormatInt [simp]: "int64_range n \<Longrightarrow> parseOffset (FormatInt n) = Inr n"
  using ParseInt_FormatInt[of n]
  by (auto simp: parseOffset_def ParseInt_def parse_mag_def is_digit_def)

text \<open>An initial part of the updates after an offset is those up to some later offset.\<close>

lemma take_upto:
  fixes F :: ledger
  assumes "sorted_wrt (<) (map fst F)" "\<forall>u \<in> set F. a < fst u"
  shows "\<exists>l \<ge> a. take k F = filter (\<lambda>u. fst u \<le> l) F"
  using assms
proof (induction F arbitrary: a k)
  case (Cons u F)
  show ?case
  proof (cases k)
    case 0
    then show ?thesis using Cons.prems by (intro exI[of _ a]) (auto simp: empty_filter_conv)
  next
    case (Suc k')
    have "\<exists>l \<ge> fst u. take k' F = filter (\<lambda>u. fst u \<le> l) F"
      using Cons.prems by (intro Cons.IH) auto
    then show ?thesis using Suc Cons.prems by (force simp: less_imp_le)
  qed
qed auto

lemma conn_txs:
  assumes "valid_ledger L" "conforms L conn" "conn o1 = Inr (resps, e)"
  obtains l where "o1 \<le> l" "List.map_filter id resps = txs_between L o1 l"
proof -
  let ?F = "filter (\<lambda>u. o1 < fst u) L"
  from assms(2,3) obtain k where k: "resps = map snd (take k ?F)"
    unfolding conforms_def by blast
  have "sorted_wrt (<) (map fst ?F)"
    using assms(1) by (simp add: valid_ledger_def sorted_wrt_map sorted_wrt_filter)
  moreover have "\<forall>u \<in> set ?F. o1 < fst u"
    by simp
  ultimately obtain l where "o1 \<le> l" "take k ?F = filter (\<lambda>u. fst u \<le> l) ?F"
    using take_upto[of ?F o1 k] by blast
  moreover have "List.map_filter id (map snd xs) = List.map_filter snd xs" for xs :: ledger
    by (induction xs) (auto split: option.splits)
  moreover have "filter (\<lambda>u. fst u \<le> l) ?F = filter (\<lambda>u. o1 < fst u \<and> fst u \<le> l) L"
    by (induction L) auto
  ultimately have "List.map_filter id resps = txs_between L o1 l"
    by (simp add: k txs_between_def)
  with \<open>o1 \<le> l\<close> show thesis
    by (rule that)
qed

lemma tx_withdrawal_offset:
  assumes "withdrawal_ledger L" "(off, Some tx) \<in> set L" "w \<in> set (tx_withdrawals tx)"
  shows "fst w = off \<and> 0 < off \<and> int64_range off"
proof -
  from assms(3) obtain ev ce tid where ev: "ev \<in> set (tx_Events tx)"
    "created_with_template ev = Some (ce, tid)" and w: "withdrawal_of tx (ce, tid) = Some w"
    by (auto simp: tx_withdrawals_def map_filter_mem)
  have "ev = Ev_Created ce"
    using ev(2) by (cases ev) (auto split: option.splits)
  with ev(1) have "Ev_Created ce \<in> set (tx_Events tx)"
    by simp
  moreover have "fst w = ce_Offset ce"
    using w by (auto simp: withdrawal_of_def Let_def split: if_splits)
  moreover have all: "\<forall>u \<in> set L. 0 < fst u \<and> int64_range (fst u) \<and>
        (\<forall>tx ce. snd u = Some tx \<longrightarrow> Ev_Created ce \<in> set (tx_Events tx) \<longrightarrow> ce_Offset ce = tx_Offset tx)"
    and offs: "\<forall>u \<in> set L. \<forall>tx. snd u = Some tx \<longrightarrow> tx_Offset tx = fst u"
    using assms(1) by (simp_all add: withdrawal_ledger_def valid_ledger_def)
  ultimately show ?thesis
    using bspec[OF all assms(2)] bspec[OF offs assms(2)] by simp
qed

lemma withdrawal_offset:
  assumes "withdrawal_ledger L" "w \<in> set (withdrawals (txs_between L a b))"
  shows "a < fst w" "fst w \<le> b" "0 < fst w" "int64_range (fst w)"
proof -
  from assms(2) obtain tx u where "w \<in> set (tx_withdrawals tx)" "u \<in> set L" "snd u = Some tx"
    "a < fst u" "fst u \<le> b"
    by (auto simp: withdrawals_def txs_between_def map_filter_mem)
  moreover from this have "(fst u, Some tx) \<in> set L"
    by (metis prod.collapse)
  ultimately show "a < fst w" "fst w \<le> b" "0 < fst w" "int64_range (fst w)"
    using tx_withdrawal_offset[OF assms(1), of "fst u" tx w] by simp_all
qed

text \<open>One connection: the withdrawals up to the last one delivered, where the next one begins.\<close>

lemma once_delivers:
  assumes L: "withdrawal_ledger L" and conn: "conforms L conn" and off: "parseOffset off = Inr o1"
  obtains o2 off' e where "o1 \<le> o2" "parseOffset off' = Inr o2"
    "streamWithdrawalEventsOnce conn off = (map snd (withdrawals (txs_between L o1 o2)), off', e)"
proof (cases "conn o1")
  case (Inl e)
  then show thesis
    using off by (intro that[of o1 off]) (auto simp: streamWithdrawalEventsOnce_def)
next
  case (Inr p)
  obtain resps e where p: "p = (resps, e)" by fastforce
  have valid: "valid_ledger L" using L by (simp add: withdrawal_ledger_def)
  from conn_txs[OF valid conn Inr[unfolded p]] obtain l where l: "o1 \<le> l"
    "List.map_filter id resps = txs_between L o1 l" .
  let ?ws = "withdrawals (txs_between L o1 l)"
  have run: "streamWithdrawalEventsOnce conn off =
      (map snd ?ws, if ?ws = [] then off else FormatInt (fst (last ?ws)), e)"
    using off Inr p by (simp add: streamWithdrawalEventsOnce_def withdrawal_loop_eq l Let_def)
  show thesis
  proof (cases "?ws = []")
    case True
    with run off show thesis by (intro that[of o1 off]) auto
  next
    case False
    define o2 where "o2 = fst (last ?ws)"
    have o2: "o1 < o2" "o2 \<le> l" "int64_range o2"
      using withdrawal_offset[OF L, of "last ?ws" o1 l] False by (simp_all add: o2_def)
    have split: "?ws = withdrawals (txs_between L o1 o2) @ withdrawals (txs_between L o2 l)"
      using txs_between_split[of L o1 o2 l] valid o2
      by (simp flip: withdrawals_simps(3) add: valid_ledger_def)
    have "withdrawals (txs_between L o2 l) = []"
    proof (rule ccontr)
      assume ne: "withdrawals (txs_between L o2 l) \<noteq> []"
      then have "last ?ws \<in> set (withdrawals (txs_between L o2 l))"
        using split by simp
      from withdrawal_offset(1)[OF L this] show False by (simp add: o2_def)
    qed
    with split run False o2 show thesis
      by (intro that[of o2 "FormatInt o2"]) (auto simp: o2_def)
  qed
qed


definition demo_withdrawal_tx :: LapiTransaction where
  "demo_withdrawal_tx = \<lparr>tx_UpdateId = ''u'', tx_Offset = 7, tx_EffectiveAt = 0,
     tx_Events = [Ev_Created \<lparr>ce_Offset = 7, ce_NodeId = 2, ce_ContractId = ''00ab'',
       ce_TemplateId = Some \<lparr>id_PackageId = ''p'', id_ModuleName = bridgeContractsModule,
         id_EntityName = ''WithdrawalEvent''\<rparr>,
       ce_CreateArguments = Some [(''amount'', NumericValue ''1.5'')],
       ce_AcsDelta = True, ce_CreatedAt = 0\<rparr>]\<rparr>"

definition demo_withdrawal_ledger :: ledger where
  "demo_withdrawal_ledger = [(5, None), (7, Some demo_withdrawal_tx)]"



end
