(* ===== verification/Eth_Client.thy ===== *)
theory Eth_Client
  imports Strconv
begin

text \<open>
  \<open>pkg/ethereum/client.go\<close>: the deposit poller and the withdrawal calls of the Ethereum client.
  The node and the generated contract binding are the record \<open>EthNode\<close> of operations over a
  world \<open>'w\<close>; the handler passed to \<open>WatchDepositEvents\<close> acts on the same world.  Block
  numbers stay 64-bit words.  Metrics and log lines are left out.

  The locale \<open>deposit_logs\<close> states what \<open>eth_getLogs\<close> promises; the poller's theorem, that a
  checkpoint never overtakes a deposit of the blocks it covers, is proved in it.
\<close>

section \<open>Types\<close>

type_synonym byte = "8 word"
type_synonym Address = "byte list"
type_synonym Hash = "byte list"

record DepositEvent =
  DE_Token :: Address
  DE_Sender :: Address
  DE_CantonRecipient :: "byte list"
  DE_Amount :: int
  DE_Nonce :: int
  DE_BlockNumber :: u64
  DE_TxHash :: Hash
  DE_LogIndex :: nat
  DE_Checkpoint :: bool

text \<open>\<open>EthereumConfig\<close>, the fields the client reads.\<close>

record EthConfig =
  EC_ChainID :: int
  EC_GasLimit :: u64
  EC_MaxGasPrice :: string
  EC_MaxBlockRange :: u64

record TransactOpts =
  Auth_ChainID :: int
  Auth_Nonce :: int
  Auth_GasLimit :: u64
  Auth_GasPrice :: "int option"

text \<open>
  The node: \<open>ethclient\<close> and the generated binding \<open>contracts.CantonBridge\<close>.  A filter call
  returns the logs its iterator yields and the iterator's error.  \<open>BigSetString\<close> of the
  configured maximum is \<open>big.Int.SetString\<close>; on a malformed string the source goes on with
  whatever value the failed call left.
\<close>

record EthLog =
  Log_Token :: Address
  Log_Sender :: Address
  Log_CantonRecipient :: "byte list"
  Log_Amount :: int
  Log_Nonce :: int
  Raw_BlockNumber :: u64
  Raw_TxHash :: Hash
  Raw_Index :: nat

record 'w EthNode =
  NewKeyedTransactorWithChainID :: "int \<Rightarrow> goerr + unit"
  PendingNonceAt :: "('w, goerr + u64) state"
  SuggestGasPrice :: "('w, goerr + int) state"
  HeaderByNumber :: "('w, goerr + u64) state"
  FilterDepositToCanton :: "u64 \<Rightarrow> u64 \<Rightarrow> ('w, goerr + EthLog list \<times> goerr option) state"
  Contract_WithdrawFromCanton ::
    "TransactOpts \<Rightarrow> Address \<Rightarrow> Address \<Rightarrow> int \<Rightarrow> int \<Rightarrow> byte list \<Rightarrow> ('w, goerr + Hash) state"
  ProcessedCantonTxs :: "byte list \<Rightarrow> ('w, goerr + bool) state"
  BigSetString :: "string \<Rightarrow> int"
  TxHashHex :: "Hash \<Rightarrow> string"

section \<open>Block ranges\<close>

record blockRange =
  br_start :: u64
  br_end :: u64

text \<open>The end of a slice, computed on words, does not wrap.\<close>

definition slice_end :: "u64 \<Rightarrow> u64 \<Rightarrow> u64 \<Rightarrow> u64" where
  "slice_end s end' maxRange = (if end' - s \<ge> maxRange then s + maxRange - 1 else end')"

lemma unat_slice_end:
  assumes "s \<le> end'" "maxRange \<noteq> 0"
  shows "unat (slice_end s end' maxRange) = min (unat end') (unat s + unat maxRange - 1)"
proof (cases "end' - s \<ge> maxRange")
  case True
  have le: "unat s \<le> unat end'" "0 < unat maxRange"
    using assms by (simp_all add: word_le_nat_alt unat_gt_0)
  with True have max: "unat s + unat maxRange \<le> unat end'"
    using unat_sub[OF assms(1)] by (simp add: word_le_nat_alt)
  then have sum: "unat (s + maxRange) = unat s + unat maxRange"
    using u64_less[of end'] by (intro u64_add) simp
  with le have "s + maxRange \<noteq> 0"
    by (metis add_eq_0_iff_both_eq_0 not_less_zero unat_0)
  then show ?thesis
    using True max sum by (simp add: slice_end_def unat_minus_one)
next
  case False
  with assms unat_sub[OF assms(1)] show ?thesis
    by (simp add: slice_end_def word_le_nat_alt not_le)
qed

lemma slice_end_bounds:
  assumes "s \<le> end'" "maxRange \<noteq> 0"
  shows "unat s \<le> unat (slice_end s end' maxRange)" "unat (slice_end s end' maxRange) \<le> unat end'"
    "unat (slice_end s end' maxRange) < unat s + unat maxRange"
  using assms by (auto simp: unat_slice_end word_le_nat_alt word_neq_0_conv[symmetric]
      unat_gt_0[symmetric] dest: unat_gt_0[THEN iffD2])

text \<open>
  The loop of \<open>chunkRange\<close>, entered only with a positive \<open>maxRange\<close>; the test of it is repeated
  in the loop condition, which makes the loop total.
\<close>

function chunk_loop :: "u64 \<Rightarrow> u64 \<Rightarrow> u64 \<Rightarrow> blockRange list" where
  "chunk_loop s end' maxRange =
     (if s \<le> end' \<and> maxRange \<noteq> 0 then
        let e = slice_end s end' maxRange
        in \<lparr>br_start = s, br_end = e\<rparr> #
           (if e = - 1 then [] else chunk_loop (e + 1) end' maxRange)
      else [])"
  by pat_completeness auto

termination chunk_loop
proof (relation "measure (\<lambda>(s, end', maxRange). Suc (unat end') - unat s)", goal_cases)
  case (2 s end' maxRange e)
  then show ?case
    using slice_end_bounds[of s end' maxRange] u64_Suc[of e] by auto
qed simp

declare chunk_loop.simps [simp del]

definition chunkRange :: "u64 \<Rightarrow> u64 \<Rightarrow> u64 \<Rightarrow> blockRange list" where
  "chunkRange start end' maxRange =
     (if start > end' \<or> maxRange = 0 then [] else chunk_loop start end' maxRange)"

text \<open>The block numbers of a range, in order.\<close>

definition blocks :: "blockRange \<Rightarrow> nat list" where
  "blocks r = [unat (br_start r)..<Suc (unat (br_end r))]"

lemma chunk_loop_blocks:
  assumes "s \<le> end'" "maxRange \<noteq> 0"
  shows "concat (map blocks (chunk_loop s end' maxRange)) = [unat s..<Suc (unat end')]"
  using assms
proof (induction s end' maxRange rule: chunk_loop.induct)
  case (1 s end' maxRange)
  define e where "e = slice_end s end' maxRange"
  note b = slice_end_bounds[OF 1(2,3), folded e_def]
  show ?case
  proof (cases "e = - 1 \<or> \<not> e + 1 \<le> end'")
    case True
    have "unat e = unat end'"
    proof (cases "e = - 1")
      case True
      then have "end' = - 1"
        using b(2) by (metis word_le_nat_alt word_order.extremum_unique)
      with True show ?thesis by simp
    next
      case False
      with \<open>e = - 1 \<or> _\<close> b(2) show ?thesis
        by (simp add: word_le_nat_alt u64_Suc)
    qed
    moreover have "chunk_loop (e + 1) end' maxRange = []" if "e \<noteq> - 1"
      using that True by (subst chunk_loop.simps) simp
    ultimately show ?thesis
      using 1(2,3) by (subst chunk_loop.simps) (auto simp: Let_def e_def[symmetric] blocks_def)
  next
    case False
    then have "concat (map blocks (chunk_loop (e + 1) end' maxRange)) = [Suc (unat e)..<Suc (unat end')]"
      using 1(1)[of e] 1(2,3) by (simp add: e_def u64_Suc)
    then show ?thesis
      using 1(2,3) False b upt_split[of "unat s" "Suc (unat e)" "Suc (unat end')"]
      by (subst chunk_loop.simps) (simp add: Let_def e_def[symmetric] blocks_def del: upt_Suc)
  qed
qed

lemma concat_map_subset: "concat (map f xs) = ys \<Longrightarrow> x \<in> set xs \<Longrightarrow> set (f x) \<subseteq> set ys"
  by auto

lemma chunk_loop_sizes:
  "r \<in> set (chunk_loop s end' maxRange) \<Longrightarrow>
     br_start r \<le> br_end r \<and> unat (br_end r) - unat (br_start r) < unat maxRange"
proof (induction s end' maxRange rule: chunk_loop.induct)
  case (1 s end' maxRange)
  define e where "e = slice_end s end' maxRange"
  from 1(2) have guard: "s \<le> end' \<and> maxRange \<noteq> 0"
    by (subst (asm) chunk_loop.simps) (auto split: if_splits)
  from 1(2) guard consider "r = \<lparr>br_start = s, br_end = e\<rparr>"
    | "e \<noteq> - 1" "r \<in> set (chunk_loop (e + 1) end' maxRange)"
    by (subst (asm) chunk_loop.simps) (auto simp: Let_def e_def split: if_splits)
  then show ?case
  proof cases
    case 1
    then show ?thesis
      using guard slice_end_bounds[of s end' maxRange] by (auto simp: e_def word_le_nat_alt)
  next
    case 2
    then show ?thesis
      using 1(1)[of e] guard by (simp add: e_def)
  qed
qed

lemma chunkRange_next:
  assumes "current < latest"
  shows "\<exists>n. concat (map blocks (chunkRange (current + 1) latest maxRange)) =
      [Suc (unat current)..<n]"
    and "\<forall>r \<in> set (chunkRange (current + 1) latest maxRange). br_start r \<le> br_end r"
proof -
  have "current \<noteq> - 1"
    using assms by (metis word_order.not_eq_extremum word_order.extremum_strict)
  then have "unat (current + 1) = Suc (unat current)"
    by (rule u64_Suc)
  then show "\<exists>n. concat (map blocks (chunkRange (current + 1) latest maxRange)) =
      [Suc (unat current)..<n]"
    using chunk_loop_blocks[of "current + 1" latest maxRange]
    by (cases "current + 1 \<le> latest \<and> maxRange \<noteq> 0")
      (auto simp: chunkRange_def not_le intro: exI[of _ 0] exI[of _ "Suc (unat latest)"] simp del: upt_Suc)
  show "\<forall>r \<in> set (chunkRange (current + 1) latest maxRange). br_start r \<le> br_end r"
    using chunk_loop_sizes by (auto simp: chunkRange_def split: if_splits)
qed

lemma chunkRange_all:
  assumes "current < latest" "maxRange \<noteq> 0"
  defines "rs \<equiv> chunkRange (current + 1) latest maxRange"
  shows "concat (map blocks rs) = [Suc (unat current)..<Suc (unat latest)]"
    "rs \<noteq> []" "br_end (last rs) = latest"
proof -
  have ne: "current \<noteq> - 1"
    using assms(1) by (metis word_order.not_eq_extremum word_order.extremum_strict)
  then have suc: "unat (current + 1) = Suc (unat current)" by (rule u64_Suc)
  then have le: "current + 1 \<le> latest"
    using assms(1) by (simp add: word_le_nat_alt word_less_nat_alt)
  then show eq: "concat (map blocks rs) = [Suc (unat current)..<Suc (unat latest)]"
    using chunk_loop_blocks[OF le assms(2)] assms(2) suc by (simp add: rs_def chunkRange_def del: upt_Suc)
  have "unat current < unat latest" using assms(1) by (simp add: word_less_nat_alt)
  then show ne: "rs \<noteq> []" using eq by auto
  then obtain rs' r where rs: "rs = rs' @ [r]" by (metis rev_exhaust)
  have "br_start r \<le> br_end r"
    using chunkRange_next(2)[OF assms(1), of maxRange] rs by (simp add: rs_def)
  then have "last (blocks r) = unat (br_end r)" "blocks r \<noteq> []"
    by (simp_all add: blocks_def word_le_nat_alt)
  moreover have "last (concat (map blocks rs)) = unat latest"
    using eq \<open>unat current < unat latest\<close> by simp
  ultimately have "unat (br_end r) = unat latest" using rs by simp
  then show "br_end (last rs) = latest" using rs by (simp add: word_unat_eq_iff)
qed

text \<open>
  C25: Splitting a block range for the provider's cap loses no block and repeats none.  For every
  64-bit \<open>start\<close>, \<open>end'\<close> and non-zero \<open>maxRange\<close>, the slices of \<open>chunkRange\<close>, read in order,
  are exactly the numbers \<open>start, ..., end'\<close>, also where \<open>end'\<close> is the largest 64-bit number.
\<close>

theorem chunkRange_covers:
  assumes "maxRange \<noteq> 0"
  shows "concat (map blocks (chunkRange start end' maxRange)) = [unat start..<Suc (unat end')]"
proof (cases "start > end'")
  case True
  then show ?thesis by (simp add: chunkRange_def word_less_nat_alt)
next
  case False
  with assms chunk_loop_blocks[of start end' maxRange] show ?thesis
    by (simp add: chunkRange_def not_less del: upt_Suc)
qed

theorem chunkRange_covers_witness:
  "concat (map blocks (chunkRange (- 3) (- 1) 2)) = [unat (- 3 :: u64)..<Suc (unat (- 1 :: u64))]"
  by (rule chunkRange_covers) simp

text \<open>
  No request exceeds the provider's cap and none is empty: every slice of \<open>chunkRange\<close> has
  between one and \<open>maxRange\<close> blocks, and lies within the range that was asked for; a zero cap
  or an empty range gives no slice.
\<close>

lemma chunkRange_bounded:
  "list_all (\<lambda>r. length (blocks r) \<in> {1..unat maxRange} \<and>
      start \<le> br_start r \<and> br_end r \<le> end') (chunkRange start end' maxRange)"
proof (cases "start > end' \<or> maxRange = 0")
  case False
  let ?rs = "chunk_loop start end' maxRange"
  have *: "length (blocks r) \<in> {1..unat maxRange} \<and> start \<le> br_start r \<and> br_end r \<le> end'"
    if r: "r \<in> set ?rs" for r
  proof -
    have "set (blocks r) \<subseteq> {unat start..<Suc (unat end')}"
      using chunk_loop_blocks[of start end' maxRange] False r
      by (metis concat_map_subset not_less set_upt)
    moreover have "unat (br_start r) \<in> set (blocks r)" "unat (br_end r) \<in> set (blocks r)"
      using chunk_loop_sizes[OF r] by (auto simp: blocks_def word_le_nat_alt)
    ultimately show ?thesis
      using chunk_loop_sizes[OF r] by (auto simp: blocks_def word_le_nat_alt)
  qed
  with False show ?thesis by (simp add: chunkRange_def list_all_iff)
qed (auto simp: chunkRange_def)

section \<open>The client\<close>

definition GetLatestBlockNumber :: "'w EthNode \<Rightarrow> ('w, goerr + u64) state" where
  "GetLatestBlockNumber node = do {
     r \<leftarrow> HeaderByNumber node;
     case r of
       Inl e \<Rightarrow> ret (Inl (Errorf ''failed to get latest block'' e))
     | Inr n \<Rightarrow> ret (Inr n) }"

definition GetTransactor :: "EthConfig \<Rightarrow> 'w EthNode \<Rightarrow> ('w, goerr + TransactOpts) state" where
  "GetTransactor cfg node =
     (case NewKeyedTransactorWithChainID node (EC_ChainID cfg) of
        Inl e \<Rightarrow> ret (Inl (Errorf ''failed to create transactor'' e))
      | Inr _ \<Rightarrow> do {
          n \<leftarrow> PendingNonceAt node;
          case n of
            Inl e \<Rightarrow> ret (Inl (Errorf ''failed to get nonce'' e))
          | Inr nonce \<Rightarrow>
              let auth = \<lparr>Auth_ChainID = EC_ChainID cfg, Auth_Nonce = sint nonce,
                          Auth_GasLimit = EC_GasLimit cfg, Auth_GasPrice = None\<rparr>
              in if EC_MaxGasPrice cfg \<noteq> '''' then do {
                   let maxGasPrice = BigSetString node (EC_MaxGasPrice cfg);
                   g \<leftarrow> SuggestGasPrice node;
                   (case g of
                      Inl e \<Rightarrow> ret (Inl (Errorf ''failed to suggest gas price'' e))
                    | Inr gasPrice \<Rightarrow>
                        ret (Inr (auth\<lparr>Auth_GasPrice :=
                          Some (if gasPrice > maxGasPrice then maxGasPrice else gasPrice)\<rparr>))) }
                 else ret (Inr auth) })"

definition eth_WithdrawFromCanton ::
  "EthConfig \<Rightarrow> 'w EthNode \<Rightarrow> Address \<Rightarrow> Address \<Rightarrow> int \<Rightarrow> int \<Rightarrow> byte list \<Rightarrow> ('w, goerr + Hash) state" where
  "eth_WithdrawFromCanton cfg node token recipient amount nonce cantonTxHash = do {
     a \<leftarrow> GetTransactor cfg node;
     case a of
       Inl e \<Rightarrow> ret (Inl (Errorf ''failed to create transactor'' e))
     | Inr auth \<Rightarrow> do {
         t \<leftarrow> Contract_WithdrawFromCanton node auth token recipient amount nonce cantonTxHash;
         (case t of
            Inl e \<Rightarrow> ret (Inl (Errorf ''failed to submit withdrawal transaction'' e))
          | Inr tx \<Rightarrow> ret (Inr tx)) } }"

definition eth_IsWithdrawalProcessed :: "'w EthNode \<Rightarrow> byte list \<Rightarrow> ('w, goerr + bool) state" where
  "eth_IsWithdrawalProcessed node cantonTxHash = ProcessedCantonTxs node cantonTxHash"

section \<open>The deposit poller\<close>

text \<open>
  The state of a running \<open>WatchDepositEvents\<close>: its local \<open>currentBlock\<close>, the client's
  \<open>lastScannedBlock\<close>, and the world.
\<close>

record 'w watch =
  currentBlock :: u64
  lastScannedBlock :: u64
  eth_world :: 'w

definition on_world :: "('w, 'a) state \<Rightarrow> ('w watch, 'a) state" where
  "on_world m = State (\<lambda>s. case run_state m (eth_world s) of (r, w) \<Rightarrow> (r, s\<lparr>eth_world := w\<rparr>))"

definition setLastScannedBlock :: "u64 \<Rightarrow> ('w watch, unit) state" where
  "setLastScannedBlock b =
     modify (\<lambda>s. if b > lastScannedBlock s then s\<lparr>lastScannedBlock := b\<rparr> else s)"

definition deposit_of :: "EthLog \<Rightarrow> DepositEvent" where
  "deposit_of l =
     \<lparr>DE_Token = Log_Token l, DE_Sender = Log_Sender l, DE_CantonRecipient = Log_CantonRecipient l,
      DE_Amount = Log_Amount l, DE_Nonce = Log_Nonce l, DE_BlockNumber = Raw_BlockNumber l,
      DE_TxHash = Raw_TxHash l, DE_LogIndex = Raw_Index l, DE_Checkpoint = False\<rparr>"

text \<open>
  A checkpoint leaves the other fields at their zero values; its nil \<open>Amount\<close> and \<open>Nonce\<close>,
  which nothing reads, are written 0.
\<close>

definition checkpoint_at :: "u64 \<Rightarrow> DepositEvent" where
  "checkpoint_at b =
     \<lparr>DE_Token = replicate 20 0, DE_Sender = replicate 20 0, DE_CantonRecipient = replicate 32 0,
      DE_Amount = 0, DE_Nonce = 0, DE_BlockNumber = b, DE_TxHash = replicate 32 0,
      DE_LogIndex = 0, DE_Checkpoint = True\<rparr>"

text \<open>One turn of the iterator loop.\<close>

definition handle_log ::
  "'w EthNode \<Rightarrow> (DepositEvent \<Rightarrow> ('w, goerr + unit) state) \<Rightarrow> EthLog \<Rightarrow> ('w, goerr + unit) state" where
  "handle_log node handler event = do {
     h \<leftarrow> handler (deposit_of event);
     case h of
       Inl e \<Rightarrow> ret (Inl (Errorf (''handle deposit event '' @ TxHashHex node (Raw_TxHash event)) e))
     | Inr _ \<Rightarrow> ret (Inr ()) }"

definition scanDepositRange ::
  "'w EthNode \<Rightarrow> blockRange \<Rightarrow> (DepositEvent \<Rightarrow> ('w, goerr + unit) state) \<Rightarrow> ('w, goerr + unit) state" where
  "scanDepositRange node r handler = do {
     f \<leftarrow> FilterDepositToCanton node (br_start r) (br_end r);
     case f of
       Inl e \<Rightarrow> ret (Inl e)
     | Inr (events, iterError) \<Rightarrow> do {
         handled \<leftarrow> for_err events (handle_log node handler);
         (case handled of
            Inl e \<Rightarrow> ret (Inl e)
          | Inr _ \<Rightarrow> (case iterError of Some e \<Rightarrow> ret (Inl e) | None \<Rightarrow> ret (Inr ()))) } }"

fun scan_slices ::
  "'w EthNode \<Rightarrow> (DepositEvent \<Rightarrow> ('w, goerr + unit) state) \<Rightarrow> blockRange list \<Rightarrow> ('w watch, unit) state" where
  "scan_slices node handler [] = ret ()"
| "scan_slices node handler (r # rs) = do {
     scanned \<leftarrow> on_world (scanDepositRange node r handler);
     case scanned of
       Inl _ \<Rightarrow> ret ()
     | Inr _ \<Rightarrow> do {
         h \<leftarrow> on_world (handler (checkpoint_at (br_end r)));
         (case h of
            Inl _ \<Rightarrow> ret ()
          | Inr _ \<Rightarrow> do {
              modify (\<lambda>s. s\<lparr>currentBlock := br_end r\<rparr>);
              setLastScannedBlock (br_end r);
              scan_slices node handler rs }) } }"

definition poll_tick ::
  "EthConfig \<Rightarrow> 'w EthNode \<Rightarrow> (DepositEvent \<Rightarrow> ('w, goerr + unit) state) \<Rightarrow> ('w watch, unit) state" where
  "poll_tick cfg node handler = do {
     l \<leftarrow> on_world (GetLatestBlockNumber node);
     case l of
       Inl _ \<Rightarrow> ret ()
     | Inr latestBlock \<Rightarrow> do {
         current \<leftarrow> gets currentBlock;
         if latestBlock \<le> current then setLastScannedBlock latestBlock
         else scan_slices node handler (chunkRange (current + 1) latestBlock (EC_MaxBlockRange cfg)) } }"

text \<open>\<open>n\<close> ticks of the poller, from the call of \<open>WatchDepositEvents\<close> to its context's end.\<close>

definition WatchDepositEvents ::
  "EthConfig \<Rightarrow> 'w EthNode \<Rightarrow> u64 \<Rightarrow> (DepositEvent \<Rightarrow> ('w, goerr + unit) state) \<Rightarrow> nat \<Rightarrow> ('w watch, unit) state" where
  "WatchDepositEvents cfg node fromBlock handler n = do {
     modify (\<lambda>s. s\<lparr>currentBlock := fromBlock\<rparr>);
     setLastScannedBlock fromBlock;
     for_each (replicate n ()) (\<lambda>_. poll_tick cfg node handler) }"

section \<open>No checkpoint overtakes a deposit\<close>

text \<open>
  \<open>logs b\<close> are the deposit logs of block \<open>b\<close>.  \<open>delivered logs f c tr\<close>: the handler calls
  \<open>tr\<close> include every deposit of the blocks after \<open>f\<close> up to \<open>c\<close>.  \<open>covered\<close>: every checkpoint
  among them comes after all the deposits up to its block.
\<close>

definition delivered :: "(nat \<Rightarrow> EthLog list) \<Rightarrow> nat \<Rightarrow> nat \<Rightarrow> DepositEvent list \<Rightarrow> bool" where
  "delivered logs f c tr \<longleftrightarrow> (\<forall>b \<in> {f<..c}. \<forall>l \<in> set (logs b). deposit_of l \<in> set tr)"

definition covered :: "(nat \<Rightarrow> EthLog list) \<Rightarrow> nat \<Rightarrow> DepositEvent list \<Rightarrow> bool" where
  "covered logs f tr \<longleftrightarrow>
     (\<forall>i < length tr. DE_Checkpoint (tr ! i) \<longrightarrow>
        delivered logs f (unat (DE_BlockNumber (tr ! i))) (take i tr))"

lemma covered_Nil [simp]: "covered logs f []"
  by (simp add: covered_def)

lemma covered_snoc:
  "covered logs f (tr @ [e]) \<longleftrightarrow>
     covered logs f tr \<and> (DE_Checkpoint e \<longrightarrow> delivered logs f (unat (DE_BlockNumber e)) tr)"
  by (auto simp: covered_def nth_append less_Suc_eq)

lemma covered_deposits:
  "covered logs f tr \<Longrightarrow> \<forall>e \<in> set new. \<not> DE_Checkpoint e \<Longrightarrow> covered logs f (tr @ new)"
  by (induction new rule: rev_induct) (auto simp: covered_snoc simp flip: append_assoc)

lemma delivered_append: "delivered logs f c tr \<Longrightarrow> delivered logs f c (tr @ new)"
  by (auto simp: delivered_def)

lemma deposit_of_no_checkpoint [simp]: "\<not> DE_Checkpoint (deposit_of l)"
  by (simp add: deposit_of_def)

lemma checkpoint_at_fields [simp]:
  "DE_Checkpoint (checkpoint_at b)" "DE_BlockNumber (checkpoint_at b) = b"
  by (simp_all add: checkpoint_at_def)

lemma run_on_world [simp, go_run]:
  "run_state (on_world m) s = (case run_state m (eth_world s) of (r, w) \<Rightarrow> (r, s\<lparr>eth_world := w\<rparr>))"
  by (simp add: on_world_def)

lemma run_setLastScannedBlock [simp, go_run]:
  "run_state (setLastScannedBlock b) s =
     ((), if b > lastScannedBlock s then s\<lparr>lastScannedBlock := b\<rparr> else s)"
  by (simp add: setLastScannedBlock_def)

text \<open>
  The contract: a filter call that reports no error returned the logs of its range, block by
  block; the handler takes an event or refuses it; \<open>trace\<close> is what it took.
\<close>

locale deposit_logs =
  fixes node :: "'w EthNode" and handler :: "DepositEvent \<Rightarrow> ('w, goerr + unit) state"
    and trace :: "'w \<Rightarrow> DepositEvent list" and logs :: "nat \<Rightarrow> EthLog list"
  assumes header_law: "run_state (HeaderByNumber node) w = (rh, w') \<Longrightarrow> trace w' = trace w"
    and filter_law: "run_state (FilterDepositToCanton node a b) w = (rf, w') \<Longrightarrow>
      trace w' = trace w \<and>
      (\<forall>ls. rf = Inr (ls, None) \<longrightarrow> ls = concat (map logs [unat a..<Suc (unat b)]))"
    and handler_law: "run_state (handler ev) w = (r, w') \<Longrightarrow>
      trace w' = (if r = Inr () then trace w @ [ev] else trace w)"
begin

lemma dispatch_law:
  assumes "run_state (for_err events (handle_log node handler)) w = (r, w')"
  shows "\<exists>k. trace w' = trace w @ map deposit_of (take k events) \<and> (r = Inr () \<longrightarrow> length events \<le> k)"
  using assms
proof (induction events arbitrary: w)
  case (Cons l ls)
  obtain h w1 where h: "run_state (handler (deposit_of l)) w = (h, w1)" by (rule run_obtain)
  show ?case
  proof (cases h)
    case (Inl e)
    with h Cons.prems handler_law[OF h] show ?thesis
      by (intro exI[of _ 0]) (auto simp: handle_log_def)
  next
    case (Inr u)
    with h have "run_state (handle_log node handler l) w = (Inr (), w1)"
      by (simp add: handle_log_def)
    with Cons.prems have "run_state (for_err ls (handle_log node handler)) w1 = (r, w')"
      by simp
    from Cons.IH[OF this] obtain k where "trace w' = trace w1 @ map deposit_of (take k ls)"
      "r = Inr () \<longrightarrow> length ls \<le> k" by blast
    with handler_law[OF h] Inr show ?thesis by (intro exI[of _ "Suc k"]) auto
  qed
qed auto

lemma scan_law:
  assumes "run_state (scanDepositRange node r handler) w = (res, w')"
  shows "\<exists>new. trace w' = trace w @ new \<and> (\<forall>e \<in> set new. \<not> DE_Checkpoint e) \<and>
    (res = Inr () \<longrightarrow> new = map deposit_of (concat (map logs (blocks r))))"
proof -
  obtain f w1 where f: "run_state (FilterDepositToCanton node (br_start r) (br_end r)) w = (f, w1)"
    by (rule run_obtain)
  note fl = filter_law[OF f]
  show ?thesis
  proof (cases f)
    case (Inl e)
    with f fl assms show ?thesis by (intro exI[of _ "[]"]) (auto simp: scanDepositRange_def)
  next
    case (Inr p)
    obtain events err where p: "p = (events, err)" by fastforce
    obtain h w2 where h: "run_state (for_err events (handle_log node handler)) w1 = (h, w2)"
      by (rule run_obtain)
    from dispatch_law[OF h] obtain k where k: "trace w2 = trace w1 @ map deposit_of (take k events)"
      "h = Inr () \<longrightarrow> length events \<le> k" by blast
    have "w' = w2" "res = Inr () \<longrightarrow> h = Inr () \<and> err = None"
      using assms f Inr p h by (auto simp: scanDepositRange_def split: sum.splits option.splits)
    with k fl Inr p show ?thesis
      by (intro exI[of _ "map deposit_of (take k events)"]) (auto simp: blocks_def)
  qed
qed

end

context deposit_logs
begin

text \<open>The invariant of the poller started after block \<open>f\<close>.\<close>

abbreviation watching :: "nat \<Rightarrow> 'w watch \<Rightarrow> bool" where
  "watching f s \<equiv> delivered logs f (unat (currentBlock s)) (trace (eth_world s)) \<and>
     covered logs f (trace (eth_world s))"

lemma scan_slices_law:
  assumes "run_state (scan_slices node handler rs) s = (u, s')" "watching f s"
    "concat (map blocks rs) = [Suc (unat (currentBlock s))..<n]"
    "\<forall>r \<in> set rs. br_start r \<le> br_end r"
  shows "watching f s'"
  using assms
proof (induction rs arbitrary: s)
  case (Cons r rs)
  obtain sc w1 where sc: "run_state (scanDepositRange node r handler) (eth_world s) = (sc, w1)"
    by (rule run_obtain)
  from scan_law[OF sc] obtain new where new: "trace w1 = trace (eth_world s) @ new"
    "\<forall>e \<in> set new. \<not> DE_Checkpoint e"
    "sc = Inr () \<longrightarrow> new = map deposit_of (concat (map logs (blocks r)))" by blast
  have w1: "delivered logs f (unat (currentBlock s)) (trace w1)" "covered logs f (trace w1)"
    using Cons.prems(2) new by (simp_all add: delivered_append covered_deposits)
  show ?case
  proof (cases sc)
    case (Inl e)
    with sc Cons.prems(1) w1 show ?thesis by auto
  next
    case (Inr v)
    obtain h w2 where h: "run_state (handler (checkpoint_at (br_end r))) w1 = (h, w2)"
      by (rule run_obtain)
    have le: "unat (br_start r) \<le> unat (br_end r)"
      using Cons.prems(4) by (simp add: word_le_nat_alt)
    have split: "blocks r = [Suc (unat (currentBlock s))..<Suc (unat (br_end r))]"
      "concat (map blocks rs) = [Suc (unat (br_end r))..<n]"
      using upt_prefix[of "unat (br_start r)" "Suc (unat (br_end r))" "concat (map blocks rs)"
          "Suc (unat (currentBlock s))" n] Cons.prems(3) le blocks_def[of r]
      by (simp_all del: upt_Suc)
    have all: "delivered logs f (unat (br_end r)) (trace w1)"
      unfolding delivered_def
    proof (intro ballI)
      fix b l assume b: "b \<in> {f<..unat (br_end r)}" and l: "l \<in> set (logs b)"
      show "deposit_of l \<in> set (trace w1)"
      proof (cases "b \<le> unat (currentBlock s)")
        case True
        with b l w1(1) show ?thesis by (auto simp: delivered_def)
      next
        case False
        with b have "b \<in> set (blocks r)" by (auto simp: split(1))
        with l have "deposit_of l \<in> set new" using new(3) Inr by auto
        then show ?thesis by (simp add: new(1))
      qed
    qed
    show ?thesis
    proof (cases h)
      case (Inl e)
      with handler_law[OF h] have "trace w2 = trace w1" by simp
      moreover have "s' = s\<lparr>eth_world := w2\<rparr>"
        using Cons.prems(1) sc h Inl \<open>sc = Inr _\<close> by simp
      ultimately show ?thesis using w1 by simp
    next
      case (Inr v)
      define s1 where "s1 = (let s2 = s\<lparr>eth_world := w2, currentBlock := br_end r\<rparr> in
        if br_end r > lastScannedBlock s then s2\<lparr>lastScannedBlock := br_end r\<rparr> else s2)"
      have fields: "eth_world s1 = w2" "currentBlock s1 = br_end r"
        by (simp_all add: s1_def Let_def)
      have "trace w2 = trace w1 @ [checkpoint_at (br_end r)]"
        using handler_law[OF h] Inr by simp
      then have "watching f s1"
        using w1(2) all by (simp add: fields covered_snoc delivered_append)
      moreover have "run_state (scan_slices node handler rs) s1 = (u, s')"
        using Cons.prems(1) sc h \<open>sc = Inr _\<close> Inr by (simp add: s1_def Let_def split: if_splits)
      ultimately show ?thesis
        using Cons.IH[of s1] split(2) Cons.prems(4) by (simp add: fields)
    qed
  qed
qed auto

lemma poll_tick_law:
  assumes "run_state (poll_tick cfg node handler) s = (u, s')" "watching f s"
  shows "watching f s'"
proof -
  obtain l w1 where l: "run_state (HeaderByNumber node) (eth_world s) = (l, w1)" by (rule run_obtain)
  define s1 where "s1 = s\<lparr>eth_world := w1\<rparr>"
  have s1: "watching f s1"
    using assms(2) header_law[OF l] by (simp add: s1_def)
  show ?thesis
  proof (cases l)
    case (Inl e)
    with assms(1) l s1 show ?thesis by (auto simp: poll_tick_def GetLatestBlockNumber_def s1_def)
  next
    case (Inr latest)
    show ?thesis
    proof (cases "latest \<le> currentBlock s")
      case True
      with assms(1) l s1 Inr show ?thesis
        by (auto simp: poll_tick_def GetLatestBlockNumber_def s1_def split: if_splits)
    next
      case False
      then have run: "run_state (scan_slices node handler
          (chunkRange (currentBlock s1 + 1) latest (EC_MaxBlockRange cfg))) s1 = (u, s')"
        using assms(1) l Inr by (simp add: poll_tick_def GetLatestBlockNumber_def s1_def)
      from False have "currentBlock s1 < latest" by (simp add: s1_def not_le)
      from chunkRange_next(1)[OF this] obtain n where
        "concat (map blocks (chunkRange (currentBlock s1 + 1) latest (EC_MaxBlockRange cfg))) =
          [Suc (unat (currentBlock s1))..<n]" by blast
      from scan_slices_law[OF run s1 this chunkRange_next(2)[OF \<open>currentBlock s1 < latest\<close>]]
      show ?thesis .
    qed
  qed
qed

lemma WatchDepositEvents_law:
  assumes "run_state (WatchDepositEvents cfg node fromBlock handler n) s = (u, s')"
    "trace (eth_world s) = []"
  shows "watching (unat fromBlock) s'"
proof -
  define s1 where "s1 = snd (run_state (setLastScannedBlock fromBlock) (s\<lparr>currentBlock := fromBlock\<rparr>))"
  have "watching (unat fromBlock) s1"
    using assms(2) by (simp add: s1_def delivered_def)
  then have "watching (unat fromBlock) (snd (run_state (for_each (replicate n ())
      (\<lambda>_. poll_tick cfg node handler)) s1))"
    by (rule for_each_inv[rotated]) (rule poll_tick_law[OF prod.collapse[symmetric]])
  moreover have "run_state (for_each (replicate n ()) (\<lambda>_. poll_tick cfg node handler)) s1 = (u, s')"
    using assms(1) by (simp add: WatchDepositEvents_def s1_def)
  ultimately show ?thesis by simp
qed

end

section \<open>A healthy tick catches up\<close>

text \<open>
  A node that answers and a handler that takes everything, in every state satisfying \<open>ok\<close>.
\<close>

locale healthy_poll = deposit_logs node handler trace logs
  for node :: "'w EthNode" and handler trace logs +
  fixes ok :: "'w \<Rightarrow> bool" and head :: u64
  assumes header_ok: "ok w \<Longrightarrow> \<exists>w'. run_state (HeaderByNumber node) w = (Inr head, w') \<and> ok w'"
    and filter_ok: "ok w \<Longrightarrow> \<exists>ls w'. run_state (FilterDepositToCanton node a b) w = (Inr (ls, None), w') \<and> ok w'"
    and handler_ok: "ok w \<Longrightarrow> \<exists>w'. run_state (handler ev) w = (Inr (), w') \<and> ok w'"
begin

lemma dispatch_ok:
  "ok w \<Longrightarrow> \<exists>w'. run_state (for_err ls (handle_log node handler)) w = (Inr (), w') \<and> ok w' \<and>
     trace w' = trace w @ map deposit_of ls"
proof (induction ls arbitrary: w)
  case (Cons l ls)
  from handler_ok[OF Cons.prems] obtain w1 where w1: "run_state (handler (deposit_of l)) w = (Inr (), w1)" "ok w1"
    by blast
  with Cons.IH[of w1] handler_law[OF w1(1)] show ?case by (auto simp: handle_log_def)
qed simp

lemma scan_ok:
  assumes "ok w"
  shows "\<exists>w'. run_state (scanDepositRange node r handler) w = (Inr (), w') \<and> ok w' \<and>
    trace w' = trace w @ map deposit_of (concat (map logs (blocks r)))"
proof -
  from filter_ok[OF assms] obtain ls w1 where
    w1: "run_state (FilterDepositToCanton node (br_start r) (br_end r)) w = (Inr (ls, None), w1)" "ok w1"
    by blast
  with dispatch_ok[OF w1(2), of ls] filter_law[OF w1(1)] show ?thesis
    by (auto simp: scanDepositRange_def blocks_def)
qed

lemma scan_slices_ok:
  assumes "ok (eth_world s)"
  shows "\<exists>s' new. run_state (scan_slices node handler rs) s = ((), s') \<and> ok (eth_world s') \<and>
    trace (eth_world s') = trace (eth_world s) @ new \<and>
    filter (\<lambda>e. \<not> DE_Checkpoint e) new = map deposit_of (concat (map logs (concat (map blocks rs)))) \<and>
    currentBlock s' = (if rs = [] then currentBlock s else br_end (last rs))"
  using assms
proof (induction rs arbitrary: s)
  case (Cons r rs)
  from scan_ok[OF Cons.prems] obtain w1 where
    w1: "run_state (scanDepositRange node r handler) (eth_world s) = (Inr (), w1)" "ok w1"
      "trace w1 = trace (eth_world s) @ map deposit_of (concat (map logs (blocks r)))" by blast
  from handler_ok[OF w1(2)] obtain w2 where
    w2: "run_state (handler (checkpoint_at (br_end r))) w1 = (Inr (), w2)" "ok w2" by blast
  then have tr2: "trace w2 = trace w1 @ [checkpoint_at (br_end r)]"
    using handler_law[OF w2(1)] by simp
  define s1 where "s1 = (let s2 = s\<lparr>eth_world := w2, currentBlock := br_end r\<rparr> in
    if br_end r > lastScannedBlock s then s2\<lparr>lastScannedBlock := br_end r\<rparr> else s2)"
  have fields: "eth_world s1 = w2" "currentBlock s1 = br_end r"
    by (simp_all add: s1_def Let_def)
  from Cons.IH[of s1] w2(2) obtain s' new where ih:
    "run_state (scan_slices node handler rs) s1 = ((), s')" "ok (eth_world s')"
    "trace (eth_world s') = trace w2 @ new"
    "filter (\<lambda>e. \<not> DE_Checkpoint e) new = map deposit_of (concat (map logs (concat (map blocks rs))))"
    "currentBlock s' = (if rs = [] then br_end r else br_end (last rs))"
    by (auto simp: fields)
  have "run_state (scan_slices node handler (r # rs)) s = ((), s')"
    using ih(1) w1(1) w2(1) by (simp add: s1_def Let_def split: if_splits)
  moreover have "trace (eth_world s') = trace (eth_world s) @
      (map deposit_of (concat (map logs (blocks r))) @ checkpoint_at (br_end r) # new)"
    using ih(3) tr2 w1(3) by simp
  moreover have "filter (\<lambda>e. \<not> DE_Checkpoint e)
      (map deposit_of (concat (map logs (blocks r))) @ checkpoint_at (br_end r) # new) =
      map deposit_of (concat (map logs (concat (map blocks (r # rs)))))"
    using ih(4) by (simp add: filter_map comp_def)
  ultimately show ?case
    using ih(2,5) by (intro exI conjI) auto
qed simp

lemma poll_tick_ok:
  assumes "ok (eth_world s)" "currentBlock s < head" "EC_MaxBlockRange cfg \<noteq> 0"
  shows "\<exists>s' new. run_state (poll_tick cfg node handler) s = ((), s') \<and> currentBlock s' = head \<and>
    trace (eth_world s') = trace (eth_world s) @ new \<and>
    filter (\<lambda>e. \<not> DE_Checkpoint e) new =
      map deposit_of (concat (map logs [Suc (unat (currentBlock s))..<Suc (unat head)]))"
proof -
  from header_ok[OF assms(1)] obtain w1 where w1: "run_state (HeaderByNumber node) (eth_world s) = (Inr head, w1)" "ok w1"
    by blast
  let ?s1 = "s\<lparr>eth_world := w1\<rparr>" and ?rs = "chunkRange (currentBlock s + 1) head (EC_MaxBlockRange cfg)"
  have tr: "trace w1 = trace (eth_world s)" by (rule header_law[OF w1(1)])
  note next' = chunkRange_all[OF assms(2,3)]
  from scan_slices_ok[of ?s1 ?rs] w1(2) obtain s' new where
    run: "run_state (scan_slices node handler ?rs) ?s1 = ((), s')"
      "trace (eth_world s') = trace w1 @ new"
      "filter (\<lambda>e. \<not> DE_Checkpoint e) new = map deposit_of (concat (map logs (concat (map blocks ?rs))))"
      "currentBlock s' = (if ?rs = [] then currentBlock s else br_end (last ?rs))"
    by auto
  moreover have "run_state (poll_tick cfg node handler) s = ((), s')"
    using run(1) w1(1) assms(2) by (simp add: poll_tick_def GetLatestBlockNumber_def not_le)
  ultimately show ?thesis
    using next' tr by (intro exI[of _ s'] exI[of _ new]) simp
qed

end

end
