(* ===== verification/Encodings.thy ===== *)
theory Encodings
  imports Complex_Main Strconv
begin

text \<open>
  Text encodings of amounts and bytes: \<open>encoding/hex\<close>, the base-10 \<open>big.Int\<close> conversions, and
  the interface of \<open>github.com/shopspring/decimal\<close> the relayer uses.  The decimal library is a
  record of operations; the locale \<open>decimal_lib\<close> states its documented meaning (every operation
  is exact, \<open>BigInt\<close> truncates towards zero, printing and parsing are inverse).  The pair of a
  coefficient and an exponent, printed with a decimal point, is an instance.
\<close>

section \<open>Hexadecimal\<close>

type_synonym octet = "8 word"

definition hex_char :: "nat \<Rightarrow> char" where
  "hex_char d = (if d < 10 then digit_char d else char_of (87 + d))"

definition hex_val :: "char \<Rightarrow> nat option" where
  "hex_val c =
     (let n = of_char c :: nat
      in if 48 \<le> n \<and> n \<le> 57 then Some (n - 48)
         else if 97 \<le> n \<and> n \<le> 102 then Some (n - 87)
         else if 65 \<le> n \<and> n \<le> 70 then Some (n - 55)
         else None)"

fun hex_EncodeToString :: "octet list \<Rightarrow> string" where
  "hex_EncodeToString [] = ''''"
| "hex_EncodeToString (b # bs) =
     hex_char (unat b div 16) # hex_char (unat b mod 16) # hex_EncodeToString bs"

definition hex_ErrLength :: goerr where
  "hex_ErrLength = Sentinel ''encoding/hex: odd length hex string''"

definition hex_InvalidByte :: "char \<Rightarrow> goerr" where
  "hex_InvalidByte c = Err (''encoding/hex: invalid byte: '' @ [c])"

fun hex_DecodeString :: "string \<Rightarrow> goerr + octet list" where
  "hex_DecodeString [] = Inr []"
| "hex_DecodeString [c] =
     (case hex_val c of None \<Rightarrow> Inl (hex_InvalidByte c) | Some _ \<Rightarrow> Inl hex_ErrLength)"
| "hex_DecodeString (c # d # s) =
     (case hex_val c of
        None \<Rightarrow> Inl (hex_InvalidByte c)
      | Some h \<Rightarrow>
          (case hex_val d of
             None \<Rightarrow> Inl (hex_InvalidByte d)
           | Some l \<Rightarrow>
               (case hex_DecodeString s of
                  Inl e \<Rightarrow> Inl e
                | Inr bs \<Rightarrow> Inr (of_nat (16 * h + l) # bs))))"

lemma hex_val_char [simp]: "d < 16 \<Longrightarrow> hex_val (hex_char d) = Some d"
  by (auto simp: hex_val_def hex_char_def digit_char_def Let_def of_char_of)

lemma hex_no_dash [simp]: "CHR ''-'' \<notin> set (hex_EncodeToString bs)"
proof (induction bs)
  case (Cons b bs)
  have dash: "hex_char d \<noteq> CHR ''-''" if "d < 16" for d
    using hex_val_char[OF that] by (auto simp: hex_val_def)
  have "unat b < 2 ^ LENGTH(8)" by (rule unsigned_less)
  then have "unat b div 16 < 16" by (simp add: less_mult_imp_div_less)
  with Cons dash[of "unat b div 16"] dash[of "unat b mod 16"] show ?case by auto
qed simp

lemma hex_roundtrip [simp]: "hex_DecodeString (hex_EncodeToString bs) = Inr bs"
proof (induction bs)
  case (Cons b bs)
  have "unat b < 2 ^ LENGTH(8)" by (rule unsigned_less)
  then have "unat b div 16 < 16" by (simp add: less_mult_imp_div_less)
  with Cons show ?case by simp
qed simp

section \<open>Big integers in base 10\<close>

definition big_String :: "int \<Rightarrow> string" where
  "big_String n = FormatInt n"

definition big_SetString :: "string \<Rightarrow> int option" where
  "big_SetString s =
     (let neg = (s \<noteq> [] \<and> hd s = CHR ''-'');
          mag = (if s \<noteq> [] \<and> (hd s = CHR ''-'' \<or> hd s = CHR ''+'') then tl s else s)
      in if mag = [] \<or> \<not> list_all is_digit mag then None
         else Some (if neg then - int (digits_val mag) else int (digits_val mag)))"

lemma sign_no_digit [simp]: "\<not> is_digit CHR ''-''" "\<not> is_digit CHR ''+''" "\<not> is_digit CHR ''.''"
  by (simp_all add: is_digit_def)

lemma big_SetString_String [simp]: "big_SetString (big_String n) = Some n"
proof (cases "n < 0")
  case True
  then show ?thesis
    by (simp add: big_SetString_def big_String_def FormatInt_def fmt_nat_digits)
next
  case False
  have "hd (fmt_nat (nat n)) \<noteq> CHR ''-''" "hd (fmt_nat (nat n)) \<noteq> CHR ''+''"
    using hd_fmt_nat_digit[of "nat n"] by (metis sign_no_digit)+
  with False show ?thesis
    by (simp add: big_SetString_def big_String_def FormatInt_def fmt_nat_digits Let_def)
qed

section \<open>Decimals\<close>

record 'd DecimalLib =
  NewFromString :: "string \<Rightarrow> goerr + 'd"
  D_String :: "'d \<Rightarrow> string"
  D_Zero :: 'd
  D_New :: "int \<Rightarrow> int \<Rightarrow> 'd"
  NewFromBigInt :: "int \<Rightarrow> int \<Rightarrow> 'd"
  D_Add :: "'d \<Rightarrow> 'd \<Rightarrow> 'd"
  D_Mul :: "'d \<Rightarrow> 'd \<Rightarrow> 'd"
  D_BigInt :: "'d \<Rightarrow> int"
  IsNegative :: "'d \<Rightarrow> bool"
  IsZero :: "'d \<Rightarrow> bool"
  D_Cmp :: "'d \<Rightarrow> 'd \<Rightarrow> int"

text \<open>
  \<open>tval\<close> is the number a decimal text denotes, \<open>dval\<close> the number a decimal is.
\<close>

locale decimal_lib =
  fixes D :: "'d DecimalLib" and dval :: "'d \<Rightarrow> rat" and tval :: "string \<Rightarrow> rat option"
  assumes parse_law: "NewFromString D s = Inr d \<Longrightarrow> tval s = Some (dval d)"
    and parse_total: "tval s = Some v \<Longrightarrow> \<exists>d. NewFromString D s = Inr d"
    and string_law: "tval (D_String D d) = Some (dval d)"
    and zero_law: "dval (D_Zero D) = 0"
    and new_law: "dval (D_New D c e) = of_int c * 10 powi e"
    and big_law: "dval (NewFromBigInt D c e) = of_int c * 10 powi e"
    and add_law: "dval (D_Add D a b) = dval a + dval b"
    and mul_law: "dval (D_Mul D a b) = dval a * dval b"
    and trunc_law: "D_BigInt D d = (if 0 \<le> dval d then \<lfloor>dval d\<rfloor> else \<lceil>dval d\<rceil>)"
    and neg_law: "IsNegative D d \<longleftrightarrow> dval d < 0"
    and is_zero_law: "IsZero D d \<longleftrightarrow> dval d = 0"
    and cmp_law: "D_Cmp D a b = (if dval a < dval b then - 1 else if dval a = dval b then 0 else 1)"

text \<open>The instance: coefficient and exponent, printed without an exponent.\<close>

type_synonym dec = "int \<times> int"

definition dec_val :: "dec \<Rightarrow> rat" where
  "dec_val d = of_int (fst d) * 10 powi snd d"

definition dec_scale :: "int \<Rightarrow> dec \<Rightarrow> int" where
  "dec_scale e d = fst d * 10 ^ nat (snd d - e)"

definition parse_dec :: "string \<Rightarrow> dec option" where
  "parse_dec s =
     (let neg = (s \<noteq> [] \<and> hd s = CHR ''-'');
          mag = (if neg then tl s else s);
          sg = (if neg then - 1 else 1)
      in case SplitN2 mag CHR ''.'' of
           [i] \<Rightarrow> if i \<noteq> [] \<and> list_all is_digit i then Some (sg * int (digits_val i), 0) else None
         | [i, f] \<Rightarrow> if i \<noteq> [] \<and> list_all is_digit i \<and> list_all is_digit f
                     then Some (sg * int (digits_val (i @ f)), - int (length f)) else None
         | _ \<Rightarrow> None)"

definition print_dec :: "dec \<Rightarrow> string" where
  "print_dec d =
     (if snd d \<ge> 0 then FormatInt (fst d * 10 ^ nat (snd d))
      else let k = nat (- snd d);
               ds = fmt_nat (nat \<bar>fst d\<bar>);
               ps = replicate (Suc k - length ds) CHR ''0'' @ ds
           in (if fst d < 0 then ''-'' else '''') @
              take (length ps - k) ps @ CHR ''.'' # drop (length ps - k) ps)"

definition dec_lib :: "dec DecimalLib" where
  "dec_lib =
     \<lparr>NewFromString = (\<lambda>s. case parse_dec s of None \<Rightarrow> Inl (Err ''can't convert to decimal'') | Some d \<Rightarrow> Inr d),
      D_String = print_dec,
      D_Zero = (0, 0),
      D_New = (\<lambda>c e. (c, e)),
      NewFromBigInt = (\<lambda>c e. (c, e)),
      D_Add = (\<lambda>a b. let e = min (snd a) (snd b) in (dec_scale e a + dec_scale e b, e)),
      D_Mul = (\<lambda>a b. (fst a * fst b, snd a + snd b)),
      D_BigInt = (\<lambda>d. if snd d \<ge> 0 then fst d * 10 ^ nat (snd d)
                       else sgn (fst d) * (\<bar>fst d\<bar> div 10 ^ nat (- snd d))),
      IsNegative = (\<lambda>d. fst d < 0),
      IsZero = (\<lambda>d. fst d = 0),
      D_Cmp = (\<lambda>a b. let e = min (snd a) (snd b) in sgn (dec_scale e a - dec_scale e b))\<rparr>"

definition dec_text :: "string \<Rightarrow> rat option" where
  "dec_text s = map_option dec_val (parse_dec s)"

lemma digits_val_Nil [simp]: "digits_val [] = 0"
  by (simp add: digits_val_def)

lemma digits_val_zeros [simp]: "digits_val (replicate n CHR ''0'' @ ds) = digits_val ds"
proof (induction n)
  case (Suc n)
  have "digit_val CHR ''0'' = 0" by (simp add: digit_val_def)
  with Suc show ?case by (simp add: digits_val_def)
qed simp

lemma parse_dec_unsigned:
  assumes "i \<noteq> []" "list_all is_digit i" "list_all is_digit f"
  shows "parse_dec (i @ CHR ''.'' # f) = Some (int (digits_val (i @ f)), - int (length f))"
    "parse_dec i = Some (int (digits_val i), 0)"
    "parse_dec (CHR ''-'' # i @ CHR ''.'' # f) = Some (- int (digits_val (i @ f)), - int (length f))"
    "parse_dec (CHR ''-'' # i) = Some (- int (digits_val i), 0)"
proof -
  have dot: "CHR ''.'' \<notin> set i" "hd i \<noteq> CHR ''-''"
    using assms(1,2) by (auto simp: list_all_iff) (metis hd_in_set sign_no_digit(1))
  then have "SplitN2 i CHR ''.'' = [i]" "hd (i @ CHR ''.'' # f) \<noteq> CHR ''-''"
    using assms(1) by (simp_all add: SplitN2_def)
  with dot assms show
    "parse_dec (i @ CHR ''.'' # f) = Some (int (digits_val (i @ f)), - int (length f))"
    "parse_dec i = Some (int (digits_val i), 0)"
    "parse_dec (CHR ''-'' # i @ CHR ''.'' # f) = Some (- int (digits_val (i @ f)), - int (length f))"
    "parse_dec (CHR ''-'' # i) = Some (- int (digits_val i), 0)"
    by (simp_all add: parse_dec_def SplitN2_hit)
qed

lemma parse_print_neg_exp:
  assumes "e < 0"
  shows "parse_dec (print_dec (c, e)) = Some (c, e)"
proof -
  define k where "k = nat (- e)"
  define ds where "ds = fmt_nat (nat \<bar>c\<bar>)"
  define ps where "ps = replicate (Suc k - length ds) CHR ''0'' @ ds"
  let ?i = "take (length ps - k) ps" and ?f = "drop (length ps - k) ps"
  have len: "k < length ps" by (simp add: ps_def)
  have digits: "list_all is_digit ps"
    using fmt_nat_digits[of "nat \<bar>c\<bar>"] by (auto simp: ps_def ds_def list_all_iff is_digit_def)
  then have i: "?i \<noteq> []" "list_all is_digit ?i" "list_all is_digit ?f" and f: "length ?f = k"
    using len by (auto simp: list_all_iff dest: in_set_takeD in_set_dropD)
  have val: "digits_val (?i @ ?f) = nat \<bar>c\<bar>"
    by (simp only: append_take_drop_id) (simp add: ps_def ds_def)
  have "print_dec (c, e) = (if c < 0 then ''-'' else '''') @ ?i @ CHR ''.'' # ?f"
    using assms by (simp add: print_dec_def Let_def ps_def ds_def k_def)
  moreover have "- int k = e" using assms by (simp add: k_def)
  ultimately show ?thesis
    using parse_dec_unsigned(1,3)[OF i] val f by (cases "c < 0") (simp_all add: val)
qed

lemma print_dec_val: "dec_text (print_dec d) = Some (dec_val d)"
proof (cases "snd d < 0")
  case True
  then show ?thesis
    using parse_print_neg_exp[of "snd d" "fst d"] by (simp add: dec_text_def)
next
  case False
  let ?n = "fst d * 10 ^ nat (snd d)"
  have "parse_dec (FormatInt ?n) = Some (?n, 0)"
    using parse_dec_unsigned(2,4)[of "fmt_nat (nat \<bar>?n\<bar>)" "[]"]
    by (auto simp: FormatInt_def fmt_nat_digits)
  with False show ?thesis
    by (simp add: dec_text_def print_dec_def dec_val_def power_int_def)
qed

lemma ten_powi_pos [simp]: "(0 :: rat) < 10 powi e"
  by (simp add: power_int_def)

lemma dec_scale_val: "e \<le> snd d \<Longrightarrow> of_int (dec_scale e d) * 10 powi e = dec_val d"
proof -
  assume "e \<le> snd d"
  then have "(10 :: rat) ^ nat (snd d - e) = 10 powi (snd d - e)"
    by (simp add: power_int_def)
  moreover have "(10 :: rat) powi (snd d - e) * 10 powi e = 10 powi snd d"
    using power_int_add[of "10 :: rat" "snd d - e" e] by simp
  ultimately show ?thesis
    by (simp add: dec_scale_def dec_val_def mult.assoc)
qed

lemma dec_trunc:
  assumes "snd d < 0"
  shows "sgn (fst d) * (\<bar>fst d\<bar> div 10 ^ nat (- snd d)) =
    (if 0 \<le> dec_val d then \<lfloor>dec_val d\<rfloor> else \<lceil>dec_val d\<rceil>)"
proof -
  let ?p = "10 ^ nat (- snd d) :: int"
  have val: "dec_val d = of_int (fst d) / of_int ?p"
    using assms by (simp add: dec_val_def power_int_def field_simps)
  have "0 \<le> dec_val d \<longleftrightarrow> 0 \<le> fst d"
    using ten_powi_pos[of "snd d"] unfolding dec_val_def zero_le_mult_iff by (simp add: not_le[symmetric])
  moreover have "\<lfloor>dec_val d\<rfloor> = fst d div ?p"
    unfolding val by (rule floor_divide_of_int_eq)
  moreover have "\<lceil>dec_val d\<rceil> = - (- fst d div ?p)"
    using floor_divide_of_int_eq[of "- fst d" ?p, where ?'a = rat] unfolding val ceiling_def by simp
  ultimately show ?thesis
    by (cases "fst d" "0 :: int" rule: linorder_cases) simp_all
qed

interpretation dec: decimal_lib dec_lib dec_val dec_text
proof (unfold_locales, goal_cases)
  case (3 d)
  then show ?case by (simp add: dec_lib_def print_dec_val)
next
  case (7 a b)
  let ?e = "min (snd a) (snd b)"
  have "dec_val (dec_scale ?e a + dec_scale ?e b, ?e) = dec_val a + dec_val b"
    using dec_scale_val[of ?e a] dec_scale_val[of ?e b] by (simp add: dec_val_def algebra_simps)
  then show ?case by (simp add: dec_lib_def Let_def)
next
  case (9 d)
  show ?case
  proof (cases "snd d < 0")
    case True
    then show ?thesis using dec_trunc[OF True] by (simp add: dec_lib_def)
  next
    case False
    then have "dec_val d = of_int (fst d * 10 ^ nat (snd d))"
      by (simp add: dec_val_def power_int_def)
    with False show ?thesis
      by (simp add: dec_lib_def del: of_int_mult of_int_power)
  qed
next
  case (10 d)
  have "\<not> (10 :: rat) powi snd d < 0" using ten_powi_pos[of "snd d"] by linarith
  then show ?case by (simp add: dec_lib_def dec_val_def mult_less_0_iff)
next
  case (11 d)
  then show ?case by (simp add: dec_lib_def dec_val_def)
next
  case (12 a b)
  let ?e = "min (snd a) (snd b)"
  have pos: "\<not> (10 :: rat) powi ?e \<le> 0" using ten_powi_pos[of ?e] by (simp only: not_le)
  have "dec_val a = of_int (dec_scale ?e a) * 10 powi ?e" "dec_val b = of_int (dec_scale ?e b) * 10 powi ?e"
    by (simp_all add: dec_scale_val)
  then have "dec_val a < dec_val b \<longleftrightarrow> dec_scale ?e a < dec_scale ?e b" "dec_val a = dec_val b \<longleftrightarrow> dec_scale ?e a = dec_scale ?e b"
    by (simp_all add: mult_less_cancel_right pos)
  then show ?case by (simp add: dec_lib_def Let_def sgn_if)
qed (auto simp: dec_lib_def dec_text_def dec_val_def power_int_add split: option.splits)

end
