(* ===== verification/Relayer_Endpoints.thy ===== *)
theory Relayer_Endpoints
  imports Relayer_Processor Canton_Bridge Eth_Client Encodings
begin

text \<open>
  \<open>pkg/relayer/engine/source.go\<close> and \<open>destination.go\<close>: what the processor takes events from
  and submits transfers to, built on the Canton bridge client and the Ethereum client.  The
  go-ethereum conversions between hashes, addresses and text are the record \<open>Geth\<close>.
\<close>

section \<open>The two clients as interfaces\<close>

record 'w Bridge =
  B_IsDepositProcessed :: "string \<Rightarrow> ('w, goerr + bool) state"
  B_CreatePendingDeposit :: "CreatePendingDepositRequest \<Rightarrow> ('w, goerr + PendingDeposit) state"
  B_ProcessDepositAndMint :: "ProcessDepositRequest \<Rightarrow> ('w, goerr + ProcessedDeposit) state"
  B_CompleteWithdrawal :: "CompleteWithdrawalRequest \<Rightarrow> ('w, goerr + unit) state"
  B_GetLatestLedgerOffset :: "('w, goerr + int) state"

definition bridge_client ::
  "BridgeConfig \<Rightarrow> 'w Ledger \<Rightarrow> 'w Identity \<Rightarrow> (goerr \<Rightarrow> nat option) \<Rightarrow> 'w Bridge" where
  "bridge_client cfg L I FromError =
     \<lparr>B_IsDepositProcessed = bridge_IsDepositProcessed cfg L I,
      B_CreatePendingDeposit = bridge_CreatePendingDeposit cfg L I,
      B_ProcessDepositAndMint = bridge_ProcessDepositAndMint cfg L,
      B_CompleteWithdrawal = bridge_CompleteWithdrawal cfg L FromError,
      B_GetLatestLedgerOffset = GetLedgerEnd L\<rparr>"

record 'w EthereumBridgeClient =
  EB_GetLatestBlockNumber :: "('w, goerr + u64) state"
  EB_WithdrawFromCanton :: "Address \<Rightarrow> Address \<Rightarrow> int \<Rightarrow> int \<Rightarrow> byte list \<Rightarrow> ('w, goerr + Hash) state"
  EB_IsWithdrawalProcessed :: "byte list \<Rightarrow> ('w, goerr + bool) state"
  EB_GetLastScannedBlock :: "('w, u64) state"

definition eth_client :: "EthConfig \<Rightarrow> 'w EthNode \<Rightarrow> 'w watch EthereumBridgeClient" where
  "eth_client cfg node =
     \<lparr>EB_GetLatestBlockNumber = on_world (GetLatestBlockNumber node),
      EB_WithdrawFromCanton = (\<lambda>token recipient amount nonce h.
        on_world (eth_WithdrawFromCanton cfg node token recipient amount nonce h)),
      EB_IsWithdrawalProcessed = (\<lambda>h. on_world (eth_IsWithdrawalProcessed node h)),
      EB_GetLastScannedBlock = gets lastScannedBlock\<rparr>"

record Geth =
  HexToAddress :: "string \<Rightarrow> Address"
  Address_Hex :: "Address \<Rightarrow> string"
  Hash_Hex :: "Hash \<Rightarrow> string"

section \<open>Sources\<close>

definition cantonOffsetFromEventID :: "string \<Rightarrow> string" where
  "cantonOffsetFromEventID eventID =
     (let part = hd (SplitN2 eventID CHR ''-'')
      in case ParseInt part of Inr _ \<Rightarrow> part | Inl _ \<Rightarrow> '''')"

definition cantonSource :: "string \<Rightarrow> Source" where
  "cantonSource chainID =
     \<lparr>GetChainID = chainID, ExtractOffset = (\<lambda>event. cantonOffsetFromEventID (E_ID event))\<rparr>"

definition event_of_withdrawal :: "string \<Rightarrow> WithdrawalEvent \<Rightarrow> Event" where
  "event_of_withdrawal tokenContract withdrawal =
     \<lparr>E_ID = WE_EventID withdrawal,
      E_TransactionID = WE_TransactionID withdrawal,
      E_SourceChain = ChainCanton,
      E_DestinationChain = ChainEthereum,
      E_SourceTxHash = WE_ContractID withdrawal,
      E_SourceContractID = WE_ContractID withdrawal,
      E_TokenAddress = tokenContract,
      E_Amount = WE_Amount withdrawal,
      E_Sender = WE_UserParty withdrawal,
      E_Recipient = WE_EvmDestination withdrawal,
      E_Nonce = 0,
      E_SourceBlockNumber = 0,
      E_Checkpoint = False\<rparr>"

definition errCantonStreamClosed :: goerr where
  "errCantonStreamClosed = Sentinel ''canton withdrawal stream closed unexpectedly''"

text \<open>
  The events on \<open>outCh\<close> and what ends up on \<open>errCh\<close> when the withdrawal channel closes after
  \<open>ws\<close>; \<open>canceled\<close> is whether the context had ended by then.
\<close>

definition canton_StreamEvents ::
  "string \<Rightarrow> WithdrawalEvent list \<Rightarrow> bool \<Rightarrow> Event list \<times> goerr option" where
  "canton_StreamEvents tokenContract ws canceled =
     (map (event_of_withdrawal tokenContract) ws,
      if canceled then None else Some errCantonStreamClosed)"

definition ethereumSource :: "string \<Rightarrow> Source" where
  "ethereumSource chainID =
     \<lparr>GetChainID = chainID,
      ExtractOffset = (\<lambda>event.
        if E_SourceBlockNumber event \<le> 0 then '''' else FormatUint (E_SourceBlockNumber event))\<rparr>"

definition ethereum_fromBlock :: "string \<Rightarrow> goerr + u64" where
  "ethereum_fromBlock offset =
     (if offset \<noteq> '''' \<and> offset \<noteq> OffsetBegin
      then case ParseUint offset of
             Inl e \<Rightarrow> Inl (Errorf (''invalid ethereum offset '' @ offset) e)
           | Inr n \<Rightarrow> Inr n
      else Inr 0)"

text \<open>\<open>big.Int.Int64\<close>: the low 64 bits, as a signed number.\<close>

definition big_Int64 :: "int \<Rightarrow> int" where
  "big_Int64 n = sint (word_of_int n :: u64)"

definition event_of_deposit :: "Geth \<Rightarrow> DepositEvent \<Rightarrow> Event" where
  "event_of_deposit g event =
     (if DE_Checkpoint event
      then \<lparr>E_ID = '''', E_TransactionID = '''', E_SourceChain = ChainEthereum,
            E_DestinationChain = '''', E_SourceTxHash = '''', E_SourceContractID = '''',
            E_TokenAddress = '''', E_Amount = '''', E_Sender = '''', E_Recipient = '''',
            E_Nonce = 0, E_SourceBlockNumber = DE_BlockNumber event, E_Checkpoint = True\<rparr>
      else \<lparr>E_ID = Hash_Hex g (DE_TxHash event) @ ''-'' @ fmt_nat (DE_LogIndex event),
            E_TransactionID = Hash_Hex g (DE_TxHash event),
            E_SourceChain = ChainEthereum,
            E_DestinationChain = ChainCanton,
            E_SourceTxHash = Hash_Hex g (DE_TxHash event),
            E_SourceContractID = '''',
            E_TokenAddress = Address_Hex g (DE_Token event),
            E_Amount = big_String (DE_Amount event),
            E_Sender = Address_Hex g (DE_Sender event),
            E_Recipient = hex_EncodeToString (DE_CantonRecipient event),
            E_Nonce = big_Int64 (DE_Nonce event),
            E_SourceBlockNumber = DE_BlockNumber event,
            E_Checkpoint = False\<rparr>)"

text \<open>
  The deposit stream writes to \<open>outCh\<close>.  \<open>selects\<close> is, for each select of \<open>emit\<close>, the error of
  a context that ended first; \<open>accepted\<close> keeps the deposit events behind the entries of \<open>outCh\<close>.
\<close>

record eth_stream =
  outCh :: "Event list"
  accepted :: "DepositEvent list"
  selects :: "goerr option list"

definition emit :: "DepositEvent \<Rightarrow> Event \<Rightarrow> ('x eth_stream_scheme, goerr + unit) state" where
  "emit d ev = State (\<lambda>w.
     let w' = w\<lparr>selects := tl (selects w)\<rparr>
     in case selects w of
          Some e # _ \<Rightarrow> (Inl e, w')
        | _ \<Rightarrow> (Inr (), w'\<lparr>outCh := outCh w @ [ev], accepted := accepted w @ [d]\<rparr>))"

definition deposit_handler :: "Geth \<Rightarrow> DepositEvent \<Rightarrow> ('x eth_stream_scheme, goerr + unit) state" where
  "deposit_handler g event = emit event (event_of_deposit g event)"

text \<open>The result is what is sent on \<open>errCh\<close>; the poller itself only ends with its context.\<close>

definition ethereum_StreamEvents ::
  "EthConfig \<Rightarrow> 'x eth_stream_scheme EthNode \<Rightarrow> Geth \<Rightarrow> string \<Rightarrow> nat \<Rightarrow>
    ('x eth_stream_scheme watch, goerr option) state" where
  "ethereum_StreamEvents cfg node g offset n =
     (case ethereum_fromBlock offset of
        Inl e \<Rightarrow> ret (Some e)
      | Inr fromBlock \<Rightarrow> do {
          WatchDepositEvents cfg node fromBlock (deposit_handler g) n;
          ret None })"

section \<open>Destinations\<close>

definition decimalPlaces :: int where "decimalPlaces = 18"

definition bigIntToDecimal :: "'d DecimalLib \<Rightarrow> int \<Rightarrow> int \<Rightarrow> string" where
  "bigIntToDecimal D amount decimals = D_String D (NewFromBigInt D amount (- decimals))"

definition decimalToBigInt :: "'d DecimalLib \<Rightarrow> string \<Rightarrow> int \<Rightarrow> goerr + int" where
  "decimalToBigInt D s decimals =
     (case NewFromString D s of
        Inl e \<Rightarrow> Inl (Errorf ''invalid decimal format'' e)
      | Inr d \<Rightarrow> Inr (D_BigInt D (D_Mul D d (D_New D 1 decimals))))"

definition canton_SubmitTransfer ::
  "'d DecimalLib \<Rightarrow> 'w Bridge \<Rightarrow> Event \<Rightarrow> ('w, goerr + string \<times> bool) state" where
  "canton_SubmitTransfer D client event =
     (case big_SetString (E_Amount event) of
        None \<Rightarrow> ret (Inl (Err (''invalid amount '' @ E_Amount event)))
      | Some amount \<Rightarrow> do {
          let amountStr = bigIntToDecimal D amount decimalPlaces;
          alreadyProcessed \<leftarrow> B_IsDepositProcessed client (E_SourceTxHash event);
          if alreadyProcessed = Inr True then ret (Inr ('''', True))
          else do {
            pd \<leftarrow> B_CreatePendingDeposit client
              \<lparr>CPD_Fingerprint = E_Recipient event, CPD_Amount = amountStr,
               CPD_EvmTxHash = E_SourceTxHash event\<rparr>;
            (case pd of
               Inl e \<Rightarrow> ret (Inl (Errorf ''create pending deposit'' e))
             | Inr pendingDeposit \<Rightarrow> do {
                 dep \<leftarrow> B_ProcessDepositAndMint client
                   \<lparr>PDR_DepositCID = PD_ContractID pendingDeposit,
                    PDR_MappingCID = PD_MappingCID pendingDeposit\<rparr>;
                 (case dep of
                    Inl e \<Rightarrow> ret (Inl (Errorf ''process deposit and mint'' e))
                  | Inr deposit \<Rightarrow> ret (Inr (PrD_ContractID deposit, False))) }) } })"

definition CantonDestination :: "'d DecimalLib \<Rightarrow> 'w Bridge \<Rightarrow> string \<Rightarrow> 'w Destination" where
  "CantonDestination D client chainID =
     \<lparr>SubmitTransfer = canton_SubmitTransfer D client, D_GetChainID = chainID\<rparr>"

text \<open>\<open>var h [32]byte; copy(h[:], bs)\<close>.\<close>

definition copy32 :: "byte list \<Rightarrow> byte list" where
  "copy32 bs = take 32 (bs @ replicate 32 0)"

definition ethereum_SubmitTransfer ::
  "'d DecimalLib \<Rightarrow> Geth \<Rightarrow> 'w EthereumBridgeClient \<Rightarrow> Event \<Rightarrow> ('w, goerr + string \<times> bool) state" where
  "ethereum_SubmitTransfer D g client event =
     (let tokenAddress = HexToAddress g (E_TokenAddress event);
          recipientAddr = HexToAddress g (E_Recipient event)
      in case decimalToBigInt D (E_Amount event) decimalPlaces of
           Inl e \<Rightarrow> ret (Inl (Errorf ''parse amount'' e))
         | Inr amount \<Rightarrow>
             (case hex_DecodeString (E_SourceTxHash event) of
                Inl e \<Rightarrow> ret (Inl (Errorf ''decode source tx hash'' e))
              | Inr cantonTxHashBytes \<Rightarrow> do {
                  let cantonTxHash = copy32 cantonTxHashBytes;
                  alreadyProcessed \<leftarrow> EB_IsWithdrawalProcessed client cantonTxHash;
                  if alreadyProcessed = Inr True then ret (Inr ('''', True))
                  else do {
                    tx \<leftarrow> EB_WithdrawFromCanton client tokenAddress recipientAddr amount
                      (E_Nonce event) cantonTxHash;
                    (case tx of
                       Inl e \<Rightarrow> ret (Inl (Errorf ''withdraw from canton on EVM'' e))
                     | Inr txHash \<Rightarrow> ret (Inr (Hash_Hex g txHash, False))) } }))"

definition EthereumDestination ::
  "'d DecimalLib \<Rightarrow> Geth \<Rightarrow> 'w EthereumBridgeClient \<Rightarrow> string \<Rightarrow> 'w Destination" where
  "EthereumDestination D g client chainID =
     \<lparr>SubmitTransfer = ethereum_SubmitTransfer D g client, D_GetChainID = chainID\<rparr>"

section \<open>Amounts\<close>

context decimal_lib
begin

lemma ten_powi_inverse: "(10 :: rat) powi (- k) * 10 powi k = 1"
  using power_int_add[of "10 :: rat" "- k" k] by simp

lemma wei_roundtrip: "decimalToBigInt D (bigIntToDecimal D n k) k = Inr n"
proof -
  obtain d where d: "NewFromString D (bigIntToDecimal D n k) = Inr d"
    using parse_total[OF string_law] unfolding bigIntToDecimal_def by blast
  have "dval d = of_int n * 10 powi (- k)"
    using parse_law[OF d] by (simp add: bigIntToDecimal_def string_law big_law)
  then have "dval (D_Mul D d (D_New D 1 k)) = of_int n"
    by (simp add: mul_law new_law mult.assoc ten_powi_inverse)
  then show ?thesis
    using d by (simp add: decimalToBigInt_def trunc_law)
qed

text \<open>An amount with more digits than the token has is rounded towards zero.\<close>

lemma wei_truncates:
  assumes "tval s = Some v" "0 \<le> v"
  shows "\<exists>n. decimalToBigInt D s k = Inr n \<and> 0 \<le> n \<and> of_int n \<le> v * 10 powi k \<and>
    v * 10 powi k < of_int n + 1"
proof -
  obtain d where d: "NewFromString D s = Inr d"
    using parse_total[OF assms(1)] by blast
  with parse_law[OF d] assms have v: "dval (D_Mul D d (D_New D 1 k)) = v * 10 powi k"
    by (simp add: mul_law new_law)
  moreover have "0 \<le> v * 10 powi k"
    using assms(2) by (simp add: less_imp_le)
  ultimately show ?thesis
    using d floor_correct[of "v * 10 powi k"] by (intro exI[of _ "\<lfloor>v * 10 powi k\<rfloor>"])
      (simp add: decimalToBigInt_def trunc_law)
qed

end

section \<open>Event identifiers and offsets\<close>

lemma cantonOffset_decoded:
  assumes "0 \<le> ce_Offset ce" "int64_range (ce_Offset ce)"
  shows "cantonOffsetFromEventID (WE_EventID (decodeWithdrawalEvent ce tx)) = FormatInt (ce_Offset ce)"
proof -
  have "CHR ''-'' \<notin> set (FormatInt (ce_Offset ce))"
    using assms(1) non_digit_notin_fmt[of "CHR ''-''"] by (simp add: FormatInt_def)
  then show ?thesis
    using assms by (simp add: cantonOffsetFromEventID_def decodeWithdrawalEvent_def Let_def SplitN2_hit)
qed

lemma deposit_id_inject:
  assumes "inj (Hash_Hex g)" "\<And>h. CHR ''-'' \<notin> set (Hash_Hex g h)"
    and "\<not> DE_Checkpoint d" "\<not> DE_Checkpoint d'"
    and "E_ID (event_of_deposit g d) = E_ID (event_of_deposit g d')"
  shows "DE_TxHash d = DE_TxHash d' \<and> DE_LogIndex d = DE_LogIndex d'"
proof -
  have eq: "Hash_Hex g (DE_TxHash d) @ CHR ''-'' # fmt_nat (DE_LogIndex d) =
      Hash_Hex g (DE_TxHash d') @ CHR ''-'' # fmt_nat (DE_LogIndex d')"
    using assms(3-5) by (simp add: event_of_deposit_def)
  have "[Hash_Hex g (DE_TxHash d), fmt_nat (DE_LogIndex d)] =
      [Hash_Hex g (DE_TxHash d'), fmt_nat (DE_LogIndex d')]"
    using arg_cong[OF eq, of "\<lambda>s. SplitN2 s CHR ''-''"]
    unfolding SplitN2_hit[OF assms(2)] .
  with assms(1) show ?thesis by (simp add: inj_eq)
qed

section \<open>The deposit stream\<close>

text \<open>
  What the stream relies on: the node's calls leave the channel alone, and a filter call that
  reports no error returned the logs of its range.
\<close>

locale deposit_node =
  fixes node :: "'x eth_stream_scheme EthNode" and logs :: "nat \<Rightarrow> EthLog list"
  assumes header_frame: "run_state (HeaderByNumber node) w = (rh, w') \<Longrightarrow>
      accepted w' = accepted w \<and> outCh w' = outCh w"
    and filter_frame: "run_state (FilterDepositToCanton node a b) w = (rf, w') \<Longrightarrow>
      accepted w' = accepted w \<and> outCh w' = outCh w \<and>
      (\<forall>ls. rf = Inr (ls, None) \<longrightarrow> ls = concat (map logs [unat a..<Suc (unat b)]))"

sublocale deposit_node \<subseteq> stream: deposit_logs node "deposit_handler g" accepted logs for g
proof
  show "accepted w' = accepted w" if "run_state (HeaderByNumber node) w = (rh, w')" for w rh w'
    using header_frame[OF that] by simp
  show "accepted w' = accepted w \<and> (\<forall>ls. rf = Inr (ls, None) \<longrightarrow> ls = concat (map logs [unat a..<Suc (unat b)]))"
    if "run_state (FilterDepositToCanton node a b) w = (rf, w')" for a b w rf w'
    using filter_frame[OF that] by simp
  show "accepted w' = (if r = Inr () then accepted w @ [ev] else accepted w)"
    if "run_state (deposit_handler g ev) w = (r, w')" for ev and w w' :: "'a eth_stream_scheme" and r
    using that by (auto simp: deposit_handler_def emit_def Let_def split: list.splits option.splits)
qed

text \<open>What is on the channel are the accepted deposit events, translated.\<close>

abbreviation on_channel :: "Geth \<Rightarrow> 'x eth_stream_scheme \<Rightarrow> bool" where
  "on_channel g w \<equiv> outCh w = map (event_of_deposit g) (accepted w)"

lemma deposit_handler_channel:
  "run_state (deposit_handler g ev) w = (r, w') \<Longrightarrow> on_channel g w \<Longrightarrow> on_channel g w'"
  by (auto simp: deposit_handler_def emit_def Let_def split: list.splits option.splits)

lemma handle_log_channel:
  "on_channel g w \<Longrightarrow> on_channel g (snd (run_state (handle_log node (deposit_handler g) l) w))"
  using deposit_handler_channel[of g "deposit_of l" w]
  by (auto simp: handle_log_def split: prod.splits sum.splits)

context deposit_node
begin

lemma scan_channel:
  assumes run: "run_state (scanDepositRange node r (deposit_handler g)) w = (res, w')"
    and ch: "on_channel g w"
  shows "on_channel g w'"
proof -
  obtain f w1 where f: "run_state (FilterDepositToCanton node (br_start r) (br_end r)) w = (f, w1)"
    by (rule run_obtain)
  then have w1: "on_channel g w1" using filter_frame[OF f] ch by simp
  show ?thesis
  proof (cases f)
    case (Inr p)
    obtain events err where p: "p = (events, err)" by fastforce
    obtain h w2 where h: "run_state (for_err events (handle_log node (deposit_handler g))) w1 = (h, w2)"
      by (rule run_obtain)
    have "on_channel g w2"
      using for_err_inv[of events "on_channel g" "handle_log node (deposit_handler g)" w1] w1 h
      by (simp add: handle_log_channel)
    moreover have "w' = w2"
      using run f Inr p h by (auto simp: scanDepositRange_def split: sum.splits option.splits)
    ultimately show ?thesis by simp
  qed (use run f w1 in \<open>auto simp: scanDepositRange_def\<close>)
qed

lemma scan_slices_channel:
  "run_state (scan_slices node (deposit_handler g) rs) s = (u, s') \<Longrightarrow> on_channel g (eth_world s) \<Longrightarrow>
     on_channel g (eth_world s')"
proof (induction rs arbitrary: s)
  case (Cons r rs)
  obtain sc w1 where sc: "run_state (scanDepositRange node r (deposit_handler g)) (eth_world s) = (sc, w1)"
    by (rule run_obtain)
  note w1 = scan_channel[OF sc Cons.prems(2)]
  obtain h w2 where h: "run_state (deposit_handler g (checkpoint_at (br_end r))) w1 = (h, w2)"
    by (rule run_obtain)
  note w2 = deposit_handler_channel[OF h w1]
  show ?case
  proof (cases "isl sc \<or> isl h")
    case True
    then show ?thesis using Cons.prems(1) sc h w1 w2 by (cases sc; cases h) auto
  next
    case False
    then obtain a b where ab: "sc = Inr a" "h = Inr b" by (cases sc; cases h) auto
    define s1 where "s1 = s\<lparr>eth_world := w2, currentBlock := br_end r\<rparr>"
    show ?thesis
    proof (rule Cons.IH)
      show "run_state (scan_slices node (deposit_handler g) rs)
          (if br_end r > lastScannedBlock s then s1\<lparr>lastScannedBlock := br_end r\<rparr> else s1) = (u, s')"
        using Cons.prems(1) sc h ab by (simp add: s1_def split: if_splits)
      show "on_channel g (eth_world
          (if br_end r > lastScannedBlock s then s1\<lparr>lastScannedBlock := br_end r\<rparr> else s1))"
        using w2 by (simp add: s1_def)
    qed
  qed
qed simp

lemma poll_tick_channel:
  assumes run: "run_state (poll_tick cfg node (deposit_handler g)) s = (u, s')"
    and ch: "on_channel g (eth_world s)"
  shows "on_channel g (eth_world s')"
proof -
  obtain l w1 where l: "run_state (HeaderByNumber node) (eth_world s) = (l, w1)" by (rule run_obtain)
  have w1: "on_channel g w1" using header_frame[OF l] ch by simp
  show ?thesis
  proof (cases l)
    case (Inr latest)
    show ?thesis
    proof (cases "latest \<le> currentBlock s")
      case True
      then show ?thesis using run l Inr w1
        by (auto simp: poll_tick_def GetLatestBlockNumber_def split: if_splits)
    next
      case False
      let ?rs = "chunkRange (currentBlock s + 1) latest (EC_MaxBlockRange cfg)"
      have "run_state (scan_slices node (deposit_handler g) ?rs) (s\<lparr>eth_world := w1\<rparr>) = (u, s')"
        using run l Inr False by (simp add: poll_tick_def GetLatestBlockNumber_def)
      then show ?thesis by (rule scan_slices_channel) (simp add: w1)
    qed
  qed (use run l w1 in \<open>auto simp: poll_tick_def GetLatestBlockNumber_def\<close>)
qed

end

context deposit_node
begin

lemmas stream_covered = stream.WatchDepositEvents_law[THEN conjunct2]

lemma WatchDepositEvents_channel:
  assumes "run_state (WatchDepositEvents cfg node fromBlock (deposit_handler g) n) s = (u, s')"
    and "on_channel g (eth_world s)"
  shows "on_channel g (eth_world s')"
proof -
  define s1 where "s1 = snd (run_state (setLastScannedBlock fromBlock) (s\<lparr>currentBlock := fromBlock\<rparr>))"
  have "on_channel g (eth_world s1)" using assms(2) by (simp add: s1_def)
  then have "on_channel g (eth_world (snd (run_state (for_each (replicate n ())
      (\<lambda>_. poll_tick cfg node (deposit_handler g))) s1)))"
    by (rule for_each_inv[where I = "\<lambda>s. on_channel g (eth_world s)", rotated])
      (rule poll_tick_channel[OF prod.collapse[symmetric]])
  moreover have "run_state (for_each (replicate n ()) (\<lambda>_. poll_tick cfg node (deposit_handler g))) s1 = (u, s')"
    using assms(1) by (simp add: WatchDepositEvents_def s1_def)
  ultimately show ?thesis by simp
qed

end

text \<open>
  A node serving \<open>logs\<close> that fails as scheduled: \<open>heads\<close> and \<open>answers\<close> are consulted one entry
  per call; without an entry the head is \<open>head\<close> and a filter call succeeds.  An answer may fail,
  or break off after some of the logs.
\<close>

datatype filter_answer = FilterFails goerr | IterFails nat goerr | FilterWorks

record sim = eth_stream +
  heads :: "(goerr + u64) list"
  answers :: "filter_answer list"
  head :: u64

definition range_logs :: "(nat \<Rightarrow> EthLog list) \<Rightarrow> u64 \<Rightarrow> u64 \<Rightarrow> EthLog list" where
  "range_logs logs a b = concat (map logs [unat a..<Suc (unat b)])"

definition sim_header :: "(sim, goerr + u64) state" where
  "sim_header = State (\<lambda>w. case heads w of [] \<Rightarrow> (Inr (head w), w) | h # hs \<Rightarrow> (h, w\<lparr>heads := hs\<rparr>))"

definition sim_filter :: "(nat \<Rightarrow> EthLog list) \<Rightarrow> u64 \<Rightarrow> u64 \<Rightarrow> (sim, goerr + EthLog list \<times> goerr option) state" where
  "sim_filter logs a b = State (\<lambda>w.
     let w' = w\<lparr>answers := tl (answers w)\<rparr>; ls = range_logs logs a b
     in case answers w of
          FilterFails e # _ \<Rightarrow> (Inl e, w')
        | IterFails k e # _ \<Rightarrow> (Inr (take k ls, Some e), w')
        | _ \<Rightarrow> (Inr (ls, None), w'))"

definition sim_node :: "(nat \<Rightarrow> EthLog list) \<Rightarrow> sim EthNode" where
  "sim_node logs =
     \<lparr>NewKeyedTransactorWithChainID = \<lambda>_. Inr (), PendingNonceAt = ret (Inr 0),
      SuggestGasPrice = ret (Inr 1), HeaderByNumber = sim_header,
      FilterDepositToCanton = sim_filter logs,
      Contract_WithdrawFromCanton = \<lambda>_ _ _ _ _ h. ret (Inr h), ProcessedCantonTxs = \<lambda>_. ret (Inr False),
      BigSetString = \<lambda>_. 1, TxHashHex = hex_EncodeToString\<rparr>"

interpretation sim: deposit_node "sim_node logs" logs for logs
proof
  show "accepted w' = accepted w \<and> outCh w' = outCh w"
    if "run_state (HeaderByNumber (sim_node logs)) w = (rh, w')" for w rh w'
    using that by (auto simp: sim_node_def sim_header_def split: list.splits)
  show "accepted w' = accepted w \<and> outCh w' = outCh w \<and>
      (\<forall>ls. rf = Inr (ls, None) \<longrightarrow> ls = concat (map logs [unat a..<Suc (unat b)]))"
    if "run_state (FilterDepositToCanton (sim_node logs) a b) w = (rf, w')" for a b w rf w'
    using that by (auto simp: sim_node_def sim_filter_def range_logs_def Let_def
        split: list.splits filter_answer.splits simp del: upt_Suc)
qed

interpretation calm: healthy_poll "sim_node logs" "deposit_handler g" accepted logs
  "\<lambda>w. selects w = [] \<and> heads w = [] \<and> answers w = [] \<and> head w = h" h for logs g h
  by unfold_locales
    (auto simp: sim_node_def sim_header_def sim_filter_def deposit_handler_def emit_def Let_def)

text \<open>Two deposits of one transaction in block 2 of a chain of three blocks, and two poll failures.\<close>

definition demo_log :: "nat \<Rightarrow> EthLog" where
  "demo_log k =
     \<lparr>Log_Token = replicate 20 1, Log_Sender = replicate 20 2, Log_CantonRecipient = replicate 32 3,
      Log_Amount = 5, Log_Nonce = int k, Raw_BlockNumber = 2, Raw_TxHash = replicate 32 7,
      Raw_Index = k\<rparr>"

definition demo_logs :: "nat \<Rightarrow> EthLog list" where
  "demo_logs b = (if b = 2 then [demo_log 0, demo_log 1] else [])"

definition demo_geth :: Geth where
  "demo_geth = \<lparr>HexToAddress = \<lambda>s. case hex_DecodeString s of Inl _ \<Rightarrow> [] | Inr bs \<Rightarrow> bs,
     Address_Hex = hex_EncodeToString, Hash_Hex = hex_EncodeToString\<rparr>"

definition demo_eth_config :: EthConfig where
  "demo_eth_config = \<lparr>EC_ChainID = 1, EC_GasLimit = 300000, EC_MaxGasPrice = '''', EC_MaxBlockRange = 2\<rparr>"

definition demo_sim :: "sim watch" where
  "demo_sim = \<lparr>currentBlock = 0, lastScannedBlock = 0, eth_world =
     \<lparr>outCh = [], accepted = [], selects = [], heads = [Inl (Err ''timeout'')],
      answers = [IterFails 1 (Err ''reset'')], head = 3\<rparr>\<rparr>"

definition demo_out :: "nat \<Rightarrow> Event list" where
  "demo_out n = outCh (eth_world (snd (run_state
     (ethereum_StreamEvents demo_eth_config (sim_node demo_logs) demo_geth '''' n) demo_sim)))"

lemmas demo_run = poll_tick_def GetLatestBlockNumber_def sim_node_def sim_header_def
  sim_filter_def chunkRange_def chunk_loop.simps slice_end_def Let_def scanDepositRange_def
  range_logs_def handle_log_def demo_logs_def deposit_handler_def emit_def

lemma demo_out_events:
  "demo_out 3 = map (event_of_deposit demo_geth)
     [deposit_of (demo_log 0), deposit_of (demo_log 0), deposit_of (demo_log 1), checkpoint_at 2, checkpoint_at 3]"
  unfolding demo_out_def ethereum_StreamEvents_def ethereum_fromBlock_def WatchDepositEvents_def demo_sim_def demo_eth_config_def
  by (simp add: numeral_3_eq_3) (simp add: demo_run upt_conv_Cons)

text \<open>
  C7: No checkpoint on the deposit stream overtakes a deposit.  Whatever calls to the node fail or
  break off and whenever the consumer stops taking events, after any number of polls from block
  \<open>f\<close>, every checkpoint event on the channel is preceded by the event of each deposit log in the
  blocks after \<open>f\<close> up to the checkpoint's block.  The hypothesis on the node is that a filter call
  that reports no error returned the logs of its range.
\<close>

theorem deposit_stream_checkpoints:
  assumes "deposit_node node logs"
    and "ethereum_fromBlock offset = Inr f"
    and "run_state (ethereum_StreamEvents cfg node g offset n) s = (r, s')"
    and "outCh (eth_world s) = []" "accepted (eth_world s) = []"
    and "i < length (outCh (eth_world s'))" "E_Checkpoint (outCh (eth_world s') ! i)"
    and "unat f < b" "b \<le> unat (E_SourceBlockNumber (outCh (eth_world s') ! i))" "l \<in> set (logs b)"
  shows "event_of_deposit g (deposit_of l) \<in> set (take i (outCh (eth_world s')))"
proof -
  obtain u where run: "run_state (WatchDepositEvents cfg node f (deposit_handler g) n) s = (u, s')"
    using assms(2,3) by (auto simp: ethereum_StreamEvents_def split: prod.splits)
  let ?acc = "accepted (eth_world s')"
  have out: "outCh (eth_world s') = map (event_of_deposit g) ?acc"
    using deposit_node.WatchDepositEvents_channel[OF assms(1) run] assms(4,5) by simp
  then have i: "i < length ?acc" "DE_Checkpoint (?acc ! i)"
      "E_SourceBlockNumber (outCh (eth_world s') ! i) = DE_BlockNumber (?acc ! i)"
    using assms(6,7) by (simp_all add: event_of_deposit_def split: if_splits)
  have "covered logs (unat f) ?acc"
    using deposit_node.stream_covered[OF assms(1) run assms(5)] by simp
  then have "deposit_of l \<in> set (take i ?acc)"
    using i assms(8-10) by (auto simp: covered_def delivered_def)
  then show ?thesis using out by (simp add: take_map)
qed

theorem deposit_stream_checkpoints_witness:
  "length (demo_out 3) = 5 \<and> E_Checkpoint (demo_out 3 ! 3) \<and>
   event_of_deposit demo_geth (deposit_of (demo_log 1)) \<in> set (take 3 (demo_out 3))"
proof -
  obtain r s' where run: "run_state (ethereum_StreamEvents demo_eth_config (sim_node demo_logs)
      demo_geth '''' 3) demo_sim = (r, s')" by (rule run_obtain)
  then have out: "outCh (eth_world s') = demo_out 3" by (simp add: demo_out_def)
  have f: "ethereum_fromBlock '''' = Inr 0" by (simp add: ethereum_fromBlock_def)
  have start: "outCh (eth_world demo_sim) = []" "accepted (eth_world demo_sim) = []"
    by (simp_all add: demo_sim_def)
  have at3: "3 < length (demo_out 3)" "length (demo_out 3) = 5" "E_Checkpoint (demo_out 3 ! 3)"
    "E_SourceBlockNumber (demo_out 3 ! 3) = 2"
    by (simp_all add: demo_out_events event_of_deposit_def)
  have "event_of_deposit demo_geth (deposit_of (demo_log 1)) \<in> set (take 3 (demo_out 3))"
    using deposit_stream_checkpoints[OF sim.deposit_node_axioms f run start, of 3 2 "demo_log 1"] at3
    unfolding out by (simp add: demo_logs_def)
  then show ?thesis using at3 by simp
qed

text \<open>
  C18: When nothing fails, one poll catches up, delivering every deposit exactly once and in order.
  With a node that answers and a consumer that takes events, a tick at block \<open>current\<close> below
  the chain head ends at the head, and the deposits it hands on, checkpoints aside, are exactly
  the logs of the blocks after \<open>current\<close> up to the head.
\<close>

theorem poll_tick_catches_up:
  assumes "healthy_poll node handler trace logs ok h"
    and "ok (eth_world s)" "currentBlock s < h" "EC_MaxBlockRange cfg \<noteq> 0"
  shows "\<exists>s' new. run_state (poll_tick cfg node handler) s = ((), s') \<and> currentBlock s' = h \<and>
    trace (eth_world s') = trace (eth_world s) @ new \<and>
    filter (\<lambda>e. \<not> DE_Checkpoint e) new =
      map deposit_of (concat (map logs [Suc (unat (currentBlock s))..<Suc (unat h)]))"
  by (rule healthy_poll.poll_tick_ok[OF assms])

theorem poll_tick_catches_up_witness:
  "\<exists>s' new. run_state (poll_tick demo_eth_config (sim_node demo_logs) (deposit_handler demo_geth))
       \<lparr>currentBlock = 1, lastScannedBlock = 1, eth_world = \<lparr>outCh = [], accepted = [], selects = [],
         heads = [], answers = [], head = 3\<rparr>\<rparr> = ((), s') \<and> currentBlock s' = 3 \<and>
     accepted (eth_world s') = new \<and>
     filter (\<lambda>e. \<not> DE_Checkpoint e) new = [deposit_of (demo_log 0), deposit_of (demo_log 1)]"
proof -
  let ?s = "\<lparr>currentBlock = 1, lastScannedBlock = 1, eth_world = \<lparr>outCh = [], accepted = [], selects = [],
     heads = [], answers = [], head = 3\<rparr>\<rparr> :: sim watch"
  have "[Suc (unat (currentBlock ?s))..<Suc (unat (3 :: u64))] = [2, 3]"
    by (simp add: upt_rec)
  then show ?thesis
    using poll_tick_catches_up[OF calm.healthy_poll_axioms, of ?s 3 demo_eth_config demo_logs demo_geth]
    by (simp add: demo_eth_config_def demo_logs_def)
qed

section \<open>Amounts and identifiers\<close>

text \<open>
  C26: A bridged amount survives the conversion between the two chains.  The number of token units
  of a deposit, written as a decimal with \<open>k\<close> places for Canton and read back for Ethereum with
  the same \<open>k\<close>, is the same integer, for every amount, negative ones included.  The hypothesis is
  that the decimal library computes with exact values.
\<close>

theorem amount_roundtrip:
  assumes "decimal_lib D dval tval"
  shows "decimalToBigInt D (bigIntToDecimal D n k) k = Inr n"
  by (rule decimal_lib.wei_roundtrip[OF assms])

theorem amount_roundtrip_witness:
  "decimalToBigInt dec_lib (bigIntToDecimal dec_lib 1500000000000000001 decimalPlaces) decimalPlaces =
     Inr 1500000000000000001"
  by (rule amount_roundtrip[OF dec.decimal_lib_axioms])

text \<open>
  C27: A withdrawal never pays out more than was burned.  A non-negative Canton amount of value
  \<open>v\<close> is always converted, to a number of token units that is non-negative, at most
  \<open>v * 10 ^ k\<close> and less than one unit below it.
\<close>

theorem amount_never_rounds_up:
  assumes "decimal_lib D dval tval" "tval s = Some v" "0 \<le> v"
  shows "\<exists>n. decimalToBigInt D s k = Inr n \<and> 0 \<le> n \<and> of_int n \<le> v * 10 powi k \<and>
    v * 10 powi k < of_int n + 1"
  by (rule decimal_lib.wei_truncates[OF assms])

theorem amount_never_rounds_up_witness:
  "\<exists>n. decimalToBigInt dec_lib (D_String dec_lib (D_New dec_lib 12345 (- 4))) 2 = Inr n \<and> 0 \<le> n \<and>
     of_int n \<le> (123.45 :: rat) \<and> (123.45 :: rat) < of_int n + 1"
proof -
  have "dec_text (D_String dec_lib (D_New dec_lib 12345 (- 4))) = Some 1.2345"
    by (simp add: dec.string_law dec.new_law power_int_minus)
  from amount_never_rounds_up[OF dec.decimal_lib_axioms this, of 2] show ?thesis
    by (simp add: power_int_def)
qed

text \<open>
  C28: The offset taken from a withdrawal's event id is the ledger offset of its contract, and the
  bridge client resumes exactly there.  For every non-negative 64-bit ledger offset, the text
  that the Canton source extracts from the event id parses, in the bridge client, to the offset.
\<close>

theorem canton_offset_roundtrip:
  assumes "0 \<le> ce_Offset ce" "int64_range (ce_Offset ce)"
  shows "parseOffset (ExtractOffset (cantonSource c)
      (event_of_withdrawal token (decodeWithdrawalEvent ce tx))) = Inr (ce_Offset ce)"
  using assms cantonOffset_decoded[OF assms]
  by (simp add: cantonSource_def event_of_withdrawal_def)

theorem canton_offset_roundtrip_witness:
  "parseOffset (ExtractOffset (cantonSource ''canton'') (event_of_withdrawal ''0xT''
     (decodeWithdrawalEvent \<lparr>ce_Offset = 9223372036854775807, ce_NodeId = 3, ce_ContractId = ''00aa'',
        ce_TemplateId = None, ce_CreateArguments = None, ce_AcsDelta = True, ce_CreatedAt = 0\<rparr> ''tx''))) =
   Inr 9223372036854775807"
  using canton_offset_roundtrip[of "\<lparr>ce_Offset = 9223372036854775807, ce_NodeId = 3, ce_ContractId = ''00aa'',
        ce_TemplateId = None, ce_CreateArguments = None, ce_AcsDelta = True, ce_CreatedAt = 0\<rparr>" "''canton''" "''0xT''" "''tx''"]
  by (simp add: int64_range_def)

text \<open>
  C29: Two different deposits never share an event id.  If the hex text of a hash determines it and
  has no dash, the ids of two deposit events are equal only when both the transaction hash and
  the log index are; the relayer's deduplication by id therefore drops no deposit.
\<close>

theorem deposit_ids_unique:
  assumes "inj (Hash_Hex g)" "\<And>h. CHR ''-'' \<notin> set (Hash_Hex g h)"
    and "E_ID (event_of_deposit g (deposit_of l)) = E_ID (event_of_deposit g (deposit_of l'))"
  shows "Raw_TxHash l = Raw_TxHash l' \<and> Raw_Index l = Raw_Index l'"
  using deposit_id_inject[OF assms(1,2) _ _ assms(3)] by (simp add: deposit_of_def)

lemma demo_geth_hex:
  "inj (Hash_Hex demo_geth)" "CHR ''-'' \<notin> set (Hash_Hex demo_geth h)"
  by (auto simp: demo_geth_def intro: inj_on_inverseI[of _ "\<lambda>s. projr (hex_DecodeString s)"])

theorem deposit_ids_unique_witness:
  "E_ID (event_of_deposit demo_geth (deposit_of (demo_log 0))) \<noteq>
   E_ID (event_of_deposit demo_geth (deposit_of (demo_log 1)))"
  using deposit_ids_unique[OF demo_geth_hex, of "demo_log 0" "demo_log 1"]
  by (auto simp: demo_log_def)

end
