(* ===== verification/Relayer_Engine.thy ===== *)
theory Relayer_Engine
  imports Relayer_Endpoints
begin

text \<open>
  \<open>pkg/relayer/engine/engine.go\<close> and the handlers of \<open>pkg/relayer/service/http.go\<close>: start
  offsets, offset persistence, the restart loop of the Canton processor, reconciliation of stuck
  transfers and readiness.

  The engine's mutable fields stand beside the database in the record \<open>engine\<close>; \<open>ext\<close> is the
  world of the two chain clients and \<open>submitted\<close> the history of the ids handed to a destination.
  The clock is \<open>db_now\<close>, the clock of the database record.
\<close>

section \<open>State and dependencies\<close>

record 'c engine = relayer_db +
  cantonOffset :: string
  ethLastBlock :: u64
  cantonSynced :: bool
  ethereumSynced :: bool
  cantonStreamStarted :: time
  ext :: 'c
  submitted :: "string list"

definition on_ext :: "('c, 'a) state \<Rightarrow> ('c engine, 'a) state" where
  "on_ext m = State (\<lambda>s. case run_state m (ext s) of (r, c) \<Rightarrow> (r, s\<lparr>ext := c\<rparr>))"

definition engine_dest :: "'c Destination \<Rightarrow> 'c engine Destination" where
  "engine_dest d =
     \<lparr>SubmitTransfer = (\<lambda>event. do {
        modify (\<lambda>s. s\<lparr>submitted := submitted s @ [E_ID event]\<rparr>);
        on_ext (SubmitTransfer d event) }),
      D_GetChainID = D_GetChainID d\<rparr>"

record 'c Engine =
  e_config :: Config
  e_cantonClient :: "'c Bridge"
  e_ethClient :: "'c EthereumBridgeClient"
  e_store :: "'c engine BridgeStore"
  e_ethDest :: "'c Destination option"
  e_cantonDest :: "'c Destination option"

definition cantonKey :: "'c Engine \<Rightarrow> string" where "cantonKey E = CantonChainID (e_config E)"
definition ethereumKey :: "'c Engine \<Rightarrow> string" where "ethereumKey E = EthChainID (e_config E)"

section \<open>Offsets\<close>

definition safeCantonOffset :: "'c Engine \<Rightarrow> int \<Rightarrow> string" where
  "safeCantonOffset E ledgerEnd =
     (let lookback = (if CantonLookback (e_config E) \<le> 0 then 1 else CantonLookback (e_config E))
      in if ledgerEnd \<le> lookback then OffsetBegin else FormatInt (ledgerEnd - lookback))"

definition setCantonOffset :: "string \<Rightarrow> ('c engine, unit) state" where
  "setCantonOffset off = modify (\<lambda>s. s\<lparr>cantonOffset := off\<rparr>)"

definition validateStoredCantonOffset :: "'c Engine \<Rightarrow> string \<Rightarrow> ('c engine, goerr + unit) state" where
  "validateStoredCantonOffset E storedOffset = do {
     en \<leftarrow> on_ext (B_GetLatestLedgerOffset (e_cantonClient E));
     case en of
       Inl _ \<Rightarrow> do { setCantonOffset storedOffset; ret (Inr ()) }
     | Inr ledgerEnd \<Rightarrow>
         if (case ParseInt storedOffset of Inl _ \<Rightarrow> True | Inr storedNum \<Rightarrow> storedNum \<le> ledgerEnd)
         then do { setCantonOffset storedOffset; ret (Inr ()) }
         else do {
           let safeOffset = safeCantonOffset E ledgerEnd;
           setCantonOffset safeOffset;
           r \<leftarrow> SetChainState (e_store E) (cantonKey E) 0 safeOffset;
           (case r of
              Inl e \<Rightarrow> ret (Inl (Errorf ''persist corrected Canton offset'' e))
            | Inr _ \<Rightarrow> ret (Inr ())) } }"

definition cantonOffsetFromLedgerEnd :: "'c Engine \<Rightarrow> ('c engine, goerr + unit) state" where
  "cantonOffsetFromLedgerEnd E = do {
     en \<leftarrow> on_ext (B_GetLatestLedgerOffset (e_cantonClient E));
     case en of
       Inl _ \<Rightarrow> do { setCantonOffset OffsetBegin; ret (Inr ()) }
     | Inr ledgerEnd \<Rightarrow>
         if ledgerEnd = 0 then do { setCantonOffset OffsetBegin; ret (Inr ()) }
         else if CantonLookback (e_config E) \<le> 0
         then do { setCantonOffset (FormatInt ledgerEnd); ret (Inr ()) }
         else do { setCantonOffset (safeCantonOffset E ledgerEnd); ret (Inr ()) } }"

definition loadCantonOffset :: "'c Engine \<Rightarrow> ('c engine, goerr + unit) state" where
  "loadCantonOffset E = do {
     st \<leftarrow> GetChainState (e_store E) (cantonKey E);
     case st of
       Inl e \<Rightarrow> ret (Inl (Errorf ''get canton chain state'' e))
     | Inr (Some s) \<Rightarrow> validateStoredCantonOffset E (CS_Offset s)
     | Inr None \<Rightarrow>
         if CantonStartBlock (e_config E) > 0
         then do { setCantonOffset (FormatUint (CantonStartBlock (e_config E))); ret (Inr ()) }
         else cantonOffsetFromLedgerEnd E }"

definition setEthLastBlock :: "u64 \<Rightarrow> ('c engine, unit) state" where
  "setEthLastBlock b = modify (\<lambda>s. s\<lparr>ethLastBlock := b\<rparr>)"

definition ethBlockFromChainHead :: "'c Engine \<Rightarrow> ('c engine, goerr + unit) state" where
  "ethBlockFromChainHead E =
     (let lookback = EthLookbackBlocks (e_config E)
      in if lookback \<le> 0 then do { setEthLastBlock 0; ret (Inr ()) }
         else do {
           h \<leftarrow> on_ext (EB_GetLatestBlockNumber (e_ethClient E));
           case h of
             Inl _ \<Rightarrow> do { setEthLastBlock (EthStartBlock (e_config E)); ret (Inr ()) }
           | Inr headBlock \<Rightarrow> do {
               setEthLastBlock (if word_of_int lookback \<ge> headBlock then 0
                                else headBlock - word_of_int lookback);
               ret (Inr ()) } })"

definition loadEthereumOffset :: "'c Engine \<Rightarrow> ('c engine, goerr + unit) state" where
  "loadEthereumOffset E = do {
     st \<leftarrow> GetChainState (e_store E) (ethereumKey E);
     case st of
       Inl e \<Rightarrow> ret (Inl (Errorf ''get ethereum chain state'' e))
     | Inr (Some s) \<Rightarrow> do {
         setEthLastBlock (if EthStartBlock (e_config E) > CS_LastBlock s
                          then EthStartBlock (e_config E) else CS_LastBlock s);
         ret (Inr ()) }
     | Inr None \<Rightarrow>
         if EthStartBlock (e_config E) > 0
         then do { setEthLastBlock (EthStartBlock (e_config E)); ret (Inr ()) }
         else ethBlockFromChainHead E }"

definition loadOffsets :: "'c Engine \<Rightarrow> ('c engine, goerr + unit) state" where
  "loadOffsets E = do {
     r \<leftarrow> loadCantonOffset E;
     case r of Inl e \<Rightarrow> ret (Inl e) | Inr _ \<Rightarrow> loadEthereumOffset E }"

definition saveChainOffset :: "'c Engine \<Rightarrow> string \<Rightarrow> string \<Rightarrow> ('c engine, goerr + unit) state" where
  "saveChainOffset E chainID offset =
     (case (if chainID = ethereumKey E then ParseUint offset else Inr 0) of
        Inl e \<Rightarrow> ret (Inl (Errorf (''invalid ethereum offset '' @ offset) e))
      | Inr blockNumber \<Rightarrow> do {
          r \<leftarrow> SetChainState (e_store E) chainID blockNumber offset;
          case r of
            Inl e \<Rightarrow> ret (Inl (Errorf (''save chain state for '' @ chainID) e))
          | Inr _ \<Rightarrow> do {
              (if chainID = ethereumKey E then setEthLastBlock blockNumber else setCantonOffset offset);
              ret (Inr ()) } })"

section \<open>Processors\<close>

definition completeWithdrawal :: "'c Engine \<Rightarrow> Event \<Rightarrow> string \<Rightarrow> ('c engine, goerr + unit) state" where
  "completeWithdrawal E event destTxHash =
     (if E_SourceContractID event = '''' then ret (Inr ())
      else do {
        _ \<leftarrow> on_ext (B_CompleteWithdrawal (e_cantonClient E)
          \<lparr>CW_WithdrawalEventCID = E_SourceContractID event, CW_EvmTxHash = destTxHash\<rparr>);
        ret (Inr ()) })"

definition cantonProcessor :: "'c Engine \<Rightarrow> 'c Destination \<Rightarrow> 'c engine Processor" where
  "cantonProcessor E dest =
     WithPostSubmit
       (WithOffsetUpdate
         (NewProcessor (cantonSource (cantonKey E)) (engine_dest dest) (e_store E)
           DirectionCantonToEthereum Now)
         (saveChainOffset E))
       (completeWithdrawal E)"

definition ethProcessor :: "'c Engine \<Rightarrow> 'c Destination \<Rightarrow> 'c engine Processor" where
  "ethProcessor E dest =
     WithOffsetUpdate
       (NewProcessor (ethereumSource (ethereumKey E)) (engine_dest dest) (e_store E)
         DirectionEthereumToCanton Now)
       (saveChainOffset E)"

text \<open>The engine's destinations, as \<open>Start\<close> builds them.\<close>

definition engine_destinations ::
  "'d DecimalLib \<Rightarrow> Geth \<Rightarrow> 'c Engine \<Rightarrow> 'c Engine" where
  "engine_destinations D g E =
     E\<lparr>e_ethDest := Some (EthereumDestination D g (e_ethClient E) (ethereumKey E)),
       e_cantonDest := Some (CantonDestination D (e_cantonClient E) (cantonKey E))\<rparr>"

definition cantonProcessorRestartInitialBackoff :: int where
  "cantonProcessorRestartInitialBackoff = 10 ^ 9"
definition cantonProcessorRestartMaxBackoff :: int where
  "cantonProcessorRestartMaxBackoff = 30 * 10 ^ 9"

definition nextCantonProcessorBackoff :: "int \<Rightarrow> int" where
  "nextCantonProcessorBackoff current =
     (if current \<le> 0 then cantonProcessorRestartInitialBackoff
      else if current * 2 > cantonProcessorRestartMaxBackoff then cantonProcessorRestartMaxBackoff
      else current * 2)"

definition context_Canceled :: goerr where "context_Canceled = Sentinel ''context canceled''"

text \<open>
  The restart loop: one element of \<open>runs\<close> per turn, what the \<open>select\<close> of the processor sees when
  it is started at the given offset.  The loop ends with its context, at the end of \<open>runs\<close> or
  when the processor reports the cancellation; the result is the delays slept.
\<close>

fun runCantonProcessorLoop ::
  "'c engine Processor \<Rightarrow> (string \<Rightarrow> selected list) list \<Rightarrow> int \<Rightarrow> ('c engine pstate, int list) state" where
  "runCantonProcessorLoop P [] backoff = ret []"
| "runCantonProcessorLoop P (run # runs) backoff = do {
     call (modify (\<lambda>s. s\<lparr>cantonStreamStarted := db_now s\<rparr>));
     startOffset \<leftarrow> call (gets cantonOffset);
     err \<leftarrow> Start_loop P (run startOffset);
     if (case err of Some (Inl e) \<Rightarrow> errors_Is e context_Canceled | _ \<Rightarrow> False) then ret []
     else do {
       sleeps \<leftarrow> runCantonProcessorLoop P runs (nextCantonProcessorBackoff backoff);
       ret (backoff # sleeps) } }"

section \<open>Reconciliation\<close>

definition stuckTransferThreshold :: int where "stuckTransferThreshold = 15 * 60 * 10 ^ 9"

definition event_of_transfer :: "Transfer \<Rightarrow> Event" where
  "event_of_transfer t =
     \<lparr>E_ID = T_ID t, E_TransactionID = '''', E_SourceChain = T_SourceChain t,
      E_DestinationChain = T_DestinationChain t, E_SourceTxHash = T_SourceTxHash t,
      E_SourceContractID = '''', E_TokenAddress = T_TokenAddress t, E_Amount = T_Amount t,
      E_Sender = T_Sender t, E_Recipient = T_Recipient t, E_Nonce = T_Nonce t,
      E_SourceBlockNumber = T_SourceBlockNumber t, E_Checkpoint = False\<rparr>"

definition retryStuckTransfer ::
  "'c Engine \<Rightarrow> Transfer \<Rightarrow> 'c Destination option \<Rightarrow> ('c engine, unit) state" where
  "retryStuckTransfer E t dest =
     (case dest of
        None \<Rightarrow> ret ()
      | Some d \<Rightarrow> do {
          r \<leftarrow> SubmitTransfer (engine_dest d) (event_of_transfer t);
          (case r of
             Inl _ \<Rightarrow> do { _ \<leftarrow> IncrementRetryCount (e_store E) (T_ID t); ret () }
           | Inr (destTxHash, skipped) \<Rightarrow> do {
               let txHashPtr = (if skipped then None else Some destTxHash);
               _ \<leftarrow> UpdateTransferStatus (e_store E) (T_ID t) TransferStatusCompleted txHashPtr None;
               ret () }) })"

definition maybeRetryTransfer ::
  "'c Engine \<Rightarrow> Transfer \<Rightarrow> 'c Destination option \<Rightarrow> int \<Rightarrow> int \<Rightarrow> ('c engine, unit) state" where
  "maybeRetryTransfer E t dest maxRetries retryDelay =
     (if maxRetries > 0 \<and> T_RetryCount t \<ge> maxRetries then do {
        _ \<leftarrow> UpdateTransferStatus (e_store E) (T_ID t) TransferStatusFailed None
          (Some (''max retries ('' @ FormatInt maxRetries @ '') exceeded''));
        ret () }
      else do {
        now \<leftarrow> Now;
        if now < T_UpdatedAt t + retryDelay then ret ()
        else retryStuckTransfer E t dest })"

definition runReconciliation :: "'c Engine \<Rightarrow> ('c engine, goerr + unit) state" where
  "runReconciliation E = do {
     c \<leftarrow> GetPendingTransfers (e_store E) DirectionCantonToEthereum;
     case c of
       Inl e \<Rightarrow> ret (Inl (Errorf ''get pending canton transfers'' e))
     | Inr cantonPending \<Rightarrow> do {
         p \<leftarrow> GetPendingTransfers (e_store E) DirectionEthereumToCanton;
         (case p of
            Inl e \<Rightarrow> ret (Inl (Errorf ''get pending ethereum transfers'' e))
          | Inr ethPending \<Rightarrow> do {
              let maxRetries = MaxRetries (e_config E);
              let retryDelay = (if RetryDelay (e_config E) \<le> 0 then stuckTransferThreshold
                                else RetryDelay (e_config E));
              for_each cantonPending (\<lambda>t. maybeRetryTransfer E t (e_ethDest E) maxRetries retryDelay);
              for_each ethPending (\<lambda>t. maybeRetryTransfer E t (e_cantonDest E) maxRetries retryDelay);
              ret (Inr ()) }) } }"

section \<open>Readiness\<close>

definition IsReady :: "'c engine \<Rightarrow> bool" where
  "IsReady s \<longleftrightarrow> cantonSynced s \<and> ethereumSynced s"

definition checkEthereumReadiness :: "'c Engine \<Rightarrow> ('c engine, unit) state" where
  "checkEthereumReadiness E = do {
     h \<leftarrow> on_ext (EB_GetLatestBlockNumber (e_ethClient E));
     case h of
       Inl _ \<Rightarrow> ret ()
     | Inr headBlock \<Rightarrow> do {
         scannedBlock \<leftarrow> on_ext (EB_GetLastScannedBlock (e_ethClient E));
         modify (\<lambda>s.
           if ethereumSynced s then s
           else let lastProcessed = (if scannedBlock > ethLastBlock s then scannedBlock else ethLastBlock s)
                in if lastProcessed + 1 \<ge> headBlock then s\<lparr>ethereumSynced := True\<rparr> else s) } }"

definition streamGracePeriod :: int where "streamGracePeriod = 10 * 10 ^ 9"

definition checkCantonReadiness :: "'c Engine \<Rightarrow> ('c engine, unit) state" where
  "checkCantonReadiness E = do {
     en \<leftarrow> on_ext (B_GetLatestLedgerOffset (e_cantonClient E));
     case en of
       Inl _ \<Rightarrow> ret ()
     | Inr ledgerEnd \<Rightarrow> modify (\<lambda>s.
         if cantonSynced s then s
         else if cantonOffset s = '''' \<or> cantonOffset s = FormatInt ledgerEnd then s\<lparr>cantonSynced := True\<rparr>
         else if cantonOffset s = OffsetBegin then s\<lparr>cantonSynced := True\<rparr>
         else case ParseInt (cantonOffset s) of
                Inl _ \<Rightarrow> s
              | Inr currentOffset \<Rightarrow>
                  if currentOffset \<ge> ledgerEnd then s\<lparr>cantonSynced := True\<rparr>
                  else if cantonStreamStarted s \<noteq> zero_time \<and>
                          db_now s - cantonStreamStarted s \<ge> streamGracePeriod
                  then s\<lparr>cantonSynced := True\<rparr>
                  else s) }"

definition checkReadiness :: "'c Engine \<Rightarrow> ('c engine, unit) state" where
  "checkReadiness E = do { checkEthereumReadiness E; checkCantonReadiness E }"

section \<open>The engine's processors meet the processor contract\<close>

text \<open>Updates of the engine's own fields do not touch the tables.\<close>

lemma engine_fields_frame [simp]:
  "rows_of (s\<lparr>ext := c\<rparr>) = rows_of s" "rows_of (s\<lparr>submitted := l\<rparr>) = rows_of s"
  "rows_of (s\<lparr>cantonOffset := off\<rparr>) = rows_of s" "rows_of (s\<lparr>ethLastBlock := b\<rparr>) = rows_of s"
  "rows_of (s\<lparr>cantonStreamStarted := t\<rparr>) = rows_of s"
  "unique_ids (s\<lparr>ext := c\<rparr>) = unique_ids s" "unique_ids (s\<lparr>submitted := l\<rparr>) = unique_ids s"
  "unique_ids (s\<lparr>cantonOffset := off\<rparr>) = unique_ids s" "unique_ids (s\<lparr>ethLastBlock := b\<rparr>) = unique_ids s"
  "unique_ids (s\<lparr>cantonStreamStarted := t\<rparr>) = unique_ids s"
  for s :: "'c engine"
  by (simp_all add: rows_of_def unique_ids_def)

lemma run_on_ext [simp, go_run]:
  "run_state (on_ext m) s = (case run_state m (ext s) of (r, c) \<Rightarrow> (r, s\<lparr>ext := c\<rparr>))"
  by (simp add: on_ext_def)

lemma run_setCantonOffset [simp, go_run]: "run_state (setCantonOffset off) s = ((), s\<lparr>cantonOffset := off\<rparr>)"
  by (simp add: setCantonOffset_def)

lemma run_setEthLastBlock [simp, go_run]: "run_state (setEthLastBlock b) s = ((), s\<lparr>ethLastBlock := b\<rparr>)"
  by (simp add: setEthLastBlock_def)

text \<open>The store operations leave the engine's fields alone.\<close>

definition engine_part :: "'c engine \<Rightarrow> string \<times> u64 \<times> bool \<times> bool \<times> time \<times> 'c \<times> string list \<times> time" where
  "engine_part s = (cantonOffset s, ethLastBlock s, cantonSynced s, ethereumSynced s,
     cantonStreamStarted s, ext s, submitted s, db_now s)"

lemma store_engine_frame [go_frame]:
  "run_state (CreateTransfer PGStore t) s = (rc, s') \<Longrightarrow> engine_part s' = engine_part s"
  "run_state (UpdateTransferStatus PGStore i st h m) s = (ru, s') \<Longrightarrow> engine_part s' = engine_part s"
  "run_state (IncrementRetryCount PGStore i) s = (ru, s') \<Longrightarrow> engine_part s' = engine_part s"
  "run_state (SetChainState PGStore c b off) s = (ru, s') \<Longrightarrow> engine_part s' = engine_part s"
  "run_state (GetChainState PGStore c) s = (rg, s') \<Longrightarrow> engine_part s' = engine_part s"
  "run_state (GetPendingTransfers PGStore d) s = (rp, s') \<Longrightarrow> engine_part s' = engine_part s"
  by (auto simp: PGStore_def pg_CreateTransfer_def pg_UpdateTransferStatus_def
      pg_IncrementRetryCount_def pg_SetChainState_def pg_GetChainState_def pg_GetPendingTransfers_def
      exec_update_def engine_part_def insert_row_def update_row_def Let_def
      split: list.splits option.splits if_splits)

lemma submit_engine_law:
  assumes "run_state (SubmitTransfer (engine_dest d) ev) s = (r, s')"
  shows "db_transfers s' = db_transfers s" "db_chain_state s' = db_chain_state s"
    "submitted s' = submitted s @ [E_ID ev]" "db_now s' = db_now s" "db_faults s' = db_faults s"
  using assms by (auto simp: engine_dest_def split: prod.splits)

lemma saveChainOffset_law:
  assumes "run_state (saveChainOffset (E\<lparr>e_store := PGStore\<rparr>) c off) s = (r, s')" "unique_ids s"
  shows "unique_ids s'" "rows_of s' = rows_of s" "submitted s' = submitted s"
    "r \<noteq> Inr () \<Longrightarrow> db_chain_state s' = db_chain_state s \<and> cantonOffset s' = cantonOffset s \<and>
       ethLastBlock s' = ethLastBlock s"
    "r = Inr () \<Longrightarrow> \<exists>st. db_chain_state s' = (db_chain_state s)(c \<mapsto> st) \<and> CS_ChainID st = c \<and>
       CS_Offset st = off \<and>
       (if c = ethereumKey E then ParseUint off = Inr (CS_LastBlock st) \<and> ethLastBlock s' = CS_LastBlock st \<and>
          cantonOffset s' = cantonOffset s
        else cantonOffset s' = off \<and> ethLastBlock s' = ethLastBlock s)"
proof -
  have key: "ethereumKey (E\<lparr>e_store := PGStore\<rparr>) = ethereumKey E" by (simp add: ethereumKey_def)
  consider e where "c = ethereumKey E" "ParseUint off = Inl e"
    | b where "(if c = ethereumKey E then ParseUint off else Inr 0) = Inr b"
    by (cases "c = ethereumKey E"; cases "ParseUint off") auto
  then have "unique_ids s' \<and> rows_of s' = rows_of s \<and> submitted s' = submitted s \<and>
    (if r = Inr () then \<exists>st. db_chain_state s' = (db_chain_state s)(c \<mapsto> st) \<and> CS_ChainID st = c \<and>
       CS_Offset st = off \<and>
       (if c = ethereumKey E then ParseUint off = Inr (CS_LastBlock st) \<and> ethLastBlock s' = CS_LastBlock st \<and>
          cantonOffset s' = cantonOffset s
        else cantonOffset s' = off \<and> ethLastBlock s' = ethLastBlock s)
     else db_chain_state s' = db_chain_state s \<and> cantonOffset s' = cantonOffset s \<and>
       ethLastBlock s' = ethLastBlock s)"
  proof cases
    case 1
    with assms show ?thesis by (auto simp: saveChainOffset_def key)
  next
    case (2 b)
    obtain rs s1 where set: "run_state (SetChainState PGStore c b off) s = (rs, s1)" by (rule run_obtain)
    note law = pg.set_chain_law[OF set assms(2)] and frame = store_engine_frame(4)[OF set]
    show ?thesis
    proof (cases rs)
      case (Inl e)
      with 2 set assms law frame show ?thesis
        by (auto simp: saveChainOffset_def key engine_part_def)
    next
      case (Inr u)
      then have "rs = Inr ()" by simp
      with 2 set assms(1) have s': "r = Inr ()"
        "s' = (if c = ethereumKey E then s1\<lparr>ethLastBlock := b\<rparr> else s1\<lparr>cantonOffset := off\<rparr>)"
        by (auto simp: saveChainOffset_def key split: if_splits)
      from law \<open>rs = Inr ()\<close> obtain st where "db_chain_state s1 = (db_chain_state s)(c \<mapsto> st)"
        "CS_ChainID st = c" "CS_LastBlock st = b" "CS_Offset st = off" by auto
      with s' law frame 2 show ?thesis
        by (auto simp: engine_part_def split: if_splits)
    qed
  qed
  then show "unique_ids s'" "rows_of s' = rows_of s" "submitted s' = submitted s"
    "r \<noteq> Inr () \<Longrightarrow> db_chain_state s' = db_chain_state s \<and> cantonOffset s' = cantonOffset s \<and>
       ethLastBlock s' = ethLastBlock s"
    "r = Inr () \<Longrightarrow> \<exists>st. db_chain_state s' = (db_chain_state s)(c \<mapsto> st) \<and> CS_ChainID st = c \<and>
       CS_Offset st = off \<and>
       (if c = ethereumKey E then ParseUint off = Inr (CS_LastBlock st) \<and> ethLastBlock s' = CS_LastBlock st \<and>
          cantonOffset s' = cantonOffset s
        else cantonOffset s' = off \<and> ethLastBlock s' = ethLastBlock s)"
    by simp_all
qed

lemma count_list_snoc: "count_list (xs @ [x]) = (count_list xs)(x := Suc (count_list xs x))"
  by (auto simp: fun_eq_iff)

lemma engine_processor:
  fixes E :: "'c Engine"
  assumes P: "p_store P = PGStore" "p_now P = Now" "p_destination P = engine_dest d"
    "onOffsetUpdate P = Some (saveChainOffset (E\<lparr>e_store := PGStore\<rparr>))"
    "\<And>h. onPostSubmit P = Some h \<Longrightarrow> h = completeWithdrawal (E\<lparr>e_store := PGStore\<rparr>)"
  shows "transfer_processor PGStore rows_of db_chain_state unique_ids P (\<lambda>s. count_list (submitted s))"
proof (unfold_locales, goal_cases)
  case 1
  then show ?case by (rule P)
next
  case (2 w now w')
  then show ?case by (simp add: P)
next
  case (3 t w r w')
  then show ?case using store_engine_frame(1)[OF 3(1)] by (simp add: engine_part_def)
next
  case (4 i st h m w ru w')
  then show ?case using store_engine_frame(2)[OF 4(1)] by (simp add: engine_part_def)
next
  case (5 ev w rs w')
  then show ?case
    using submit_engine_law[OF 5(1)[unfolded P]] by (simp add: rows_of_def unique_ids_def count_list_snoc)
next
  case (6 f c off w ro w')
  note law = saveChainOffset_law[of E c off w ro w']
  show ?case
  proof (cases "ro = Inr ()")
    case True
    with 6 P law show ?thesis by auto
  next
    case False
    with 6 P law show ?thesis by auto
  qed
next
  case (7 h' ev tx w rh w')
  then show ?case
    using P(5)[OF 7(1)] by (auto simp: completeWithdrawal_def split: if_splits prod.splits)
qed

lemmas processor_defs = cantonProcessor_def ethProcessor_def NewProcessor_def WithOffsetUpdate_def
  WithPostSubmit_def

interpretation cp: transfer_processor PGStore rows_of db_chain_state unique_ids
    "cantonProcessor (E\<lparr>e_store := PGStore\<rparr>) dest" "\<lambda>s. count_list (submitted s)"
  for E :: "'c Engine" and dest
  by (rule engine_processor[of _ dest E]) (simp_all add: processor_defs)

interpretation ep: transfer_processor PGStore rows_of db_chain_state unique_ids
    "ethProcessor (E\<lparr>e_store := PGStore\<rparr>) dest" "\<lambda>s. count_list (submitted s)"
  for E :: "'c Engine" and dest
  by (rule engine_processor[of _ dest E]) (simp_all add: processor_defs)

section \<open>Reconciliation is safe\<close>

definition exhausted :: "int \<Rightarrow> Transfer \<Rightarrow> bool" where
  "exhausted maxRetries t \<longleftrightarrow> maxRetries > 0 \<and> T_RetryCount t \<ge> maxRetries"

definition due :: "int \<Rightarrow> int \<Rightarrow> time \<Rightarrow> Transfer \<Rightarrow> bool" where
  "due maxRetries retryDelay now t \<longleftrightarrow>
     \<not> exhausted maxRetries t \<and> T_UpdatedAt t + retryDelay \<le> now"

text \<open>What one look at a pending transfer may do to its row.\<close>

definition retry_step :: "int \<Rightarrow> Transfer \<Rightarrow> Transfer \<Rightarrow> bool" where
  "retry_step maxRetries t t' \<longleftrightarrow> T_ID t' = T_ID t \<and> T_Direction t' = T_Direction t \<and>
     (t' = t
      \<or> exhausted maxRetries t \<and> T_Status t' = TransferStatusFailed \<and> T_RetryCount t' = T_RetryCount t
      \<or> \<not> exhausted maxRetries t \<and> T_Status t' = TransferStatusCompleted \<and>
          T_CompletedAt t' \<noteq> None \<and> T_RetryCount t' = T_RetryCount t
      \<or> \<not> exhausted maxRetries t \<and> T_Status t' = T_Status t \<and> T_RetryCount t' = T_RetryCount t + 1)"

lemma retry_step_refl [simp]: "retry_step m t t"
  by (simp add: retry_step_def)

lemma retryStuckTransfer_law:
  assumes run: "run_state (retryStuckTransfer (E\<lparr>e_store := PGStore\<rparr>) t dest) s = (u, s')"
    and inv: "unique_ids s" and row: "rows_of s (T_ID t) = Some t" and ex: "\<not> exhausted m t"
  shows "unique_ids s' \<and> db_chain_state s' = db_chain_state s \<and> db_now s' = db_now s \<and>
    (\<exists>t'. rows_of s' = (rows_of s)(T_ID t \<mapsto> t') \<and> retry_step m t t') \<and>
    submitted s' = submitted s @ (if dest = None then [] else [T_ID t])"
proof (cases dest)
  case None
  with run inv row show ?thesis
    by (auto simp: retryStuckTransfer_def fun_upd_idem intro!: exI[of _ t])
next
  case (Some d)
  obtain r s1 where sub: "run_state (SubmitTransfer (engine_dest d) (event_of_transfer t)) s = (r, s1)"
    by (rule run_obtain)
  note sl = submit_engine_law[OF sub]
  have id: "E_ID (event_of_transfer t) = T_ID t" by (simp add: event_of_transfer_def)
  have s1: "unique_ids s1" "rows_of s1 = rows_of s" "submitted s1 = submitted s @ [T_ID t]"
    using sl inv by (simp_all add: rows_of_def unique_ids_def id)
  show ?thesis
  proof (cases r)
    case (Inl e)
    obtain ru s2 where inc: "run_state (IncrementRetryCount PGStore (T_ID t)) s1 = (ru, s2)"
      by (rule run_obtain)
    have "s' = s2" using run sub inc Inl Some by (simp add: retryStuckTransfer_def)
    with pg.retry_law[OF inc s1(1)] store_engine_frame(3)[OF inc] sl s1 row ex Some show ?thesis
      by (auto simp: engine_part_def retry_step_def fun_upd_idem intro: exI[of _ t])
  next
    case (Inr p)
    obtain h sk where p: "p = (h, sk)" by fastforce
    obtain ru s2 where upd: "run_state (UpdateTransferStatus PGStore (T_ID t) TransferStatusCompleted
        (if sk then None else Some h) None) s1 = (ru, s2)" by (rule run_obtain)
    have "s' = s2" using run sub upd Inr p Some by (simp add: retryStuckTransfer_def)
    with pg.update_law[OF upd s1(1)] store_engine_frame(2)[OF upd] sl s1 row ex Some show ?thesis
      by (auto simp: engine_part_def retry_step_def fun_upd_idem intro: exI[of _ t])
  qed
qed

lemma maybeRetryTransfer_law:
  assumes run: "run_state (maybeRetryTransfer (E\<lparr>e_store := PGStore\<rparr>) t dest m d) s = (u, s')"
    and inv: "unique_ids s" and row: "rows_of s (T_ID t) = Some t"
  shows "unique_ids s' \<and> db_chain_state s' = db_chain_state s \<and> db_now s' = db_now s \<and>
    (\<exists>t'. rows_of s' = (rows_of s)(T_ID t \<mapsto> t') \<and> retry_step m t t') \<and>
    submitted s' = submitted s @ (if dest \<noteq> None \<and> due m d (db_now s) t then [T_ID t] else [])"
proof (cases "exhausted m t")
  case True
  obtain ru s1 where upd: "run_state (UpdateTransferStatus PGStore (T_ID t) TransferStatusFailed None
      (Some (''max retries ('' @ FormatInt m @ '') exceeded''))) s = (ru, s1)" by (rule run_obtain)
  have "s' = s1" using run upd True by (simp add: maybeRetryTransfer_def exhausted_def)
  with pg.update_law[OF upd inv] store_engine_frame(2)[OF upd] row True show ?thesis
    by (auto simp: engine_part_def retry_step_def due_def fun_upd_idem intro: exI[of _ t])
next
  case False
  show ?thesis
  proof (cases "db_now s < T_UpdatedAt t + d")
    case True
    with run False inv row show ?thesis
      by (auto simp: maybeRetryTransfer_def exhausted_def[symmetric] due_def fun_upd_idem intro!: exI[of _ t])
  next
    case nlt: False
    have "run_state (retryStuckTransfer (E\<lparr>e_store := PGStore\<rparr>) t dest) s = (u, s')"
      using run False nlt by (simp add: maybeRetryTransfer_def exhausted_def[symmetric])
    from retryStuckTransfer_law[OF this inv row False] nlt False show ?thesis
      by (auto simp: due_def)
  qed
qed

text \<open>A pass over a list of rows with different ids.\<close>

lemma retry_pass_law:
  assumes "run_state (for_each ts (\<lambda>t. maybeRetryTransfer (E\<lparr>e_store := PGStore\<rparr>) t dest m d)) s = (u, s')"
    "unique_ids s" "distinct (map T_ID ts)" "\<forall>t \<in> set ts. rows_of s (T_ID t) = Some t"
  shows "unique_ids s' \<and> db_chain_state s' = db_chain_state s \<and> db_now s' = db_now s \<and>
    (\<forall>i. i \<notin> T_ID ` set ts \<longrightarrow> rows_of s' i = rows_of s i) \<and>
    (\<forall>t \<in> set ts. \<exists>t'. rows_of s' (T_ID t) = Some t' \<and> retry_step m t t') \<and>
    submitted s' = submitted s @ map T_ID (filter (\<lambda>t. dest \<noteq> None \<and> due m d (db_now s) t) ts)"
  using assms
proof (induction ts arbitrary: s)
  case (Cons t ts)
  obtain s1 where s1: "run_state (maybeRetryTransfer (E\<lparr>e_store := PGStore\<rparr>) t dest m d) s = ((), s1)"
    by (rule run_unit_obtain)
  have row: "rows_of s (T_ID t) = Some t" using Cons.prems(4) by simp
  note law = maybeRetryTransfer_law[OF s1 Cons.prems(2) row]
  then obtain t' where t': "rows_of s1 = (rows_of s)(T_ID t \<mapsto> t')" "retry_step m t t'" by blast
  have new: "T_ID t \<notin> T_ID ` set ts" using Cons.prems(3) by simp
  have "run_state (for_each ts (\<lambda>t. maybeRetryTransfer (E\<lparr>e_store := PGStore\<rparr>) t dest m d)) s1 = (u, s')"
    using Cons.prems(1) s1 by simp
  moreover have "\<forall>x \<in> set ts. rows_of s1 (T_ID x) = Some x"
  proof
    fix x assume "x \<in> set ts"
    moreover from this have "T_ID x \<noteq> T_ID t" using new by (metis imageI)
    ultimately show "rows_of s1 (T_ID x) = Some x" using Cons.prems(4) t'(1) by simp
  qed
  ultimately have ih: "unique_ids s' \<and> db_chain_state s' = db_chain_state s1 \<and> db_now s' = db_now s1 \<and>
    (\<forall>i. i \<notin> T_ID ` set ts \<longrightarrow> rows_of s' i = rows_of s1 i) \<and>
    (\<forall>t \<in> set ts. \<exists>t'. rows_of s' (T_ID t) = Some t' \<and> retry_step m t t') \<and>
    submitted s' = submitted s1 @ map T_ID (filter (\<lambda>t. dest \<noteq> None \<and> due m d (db_now s1) t) ts)"
    using law Cons.prems(3) by (intro Cons.IH) auto
  have "rows_of s' (T_ID t) = Some t'" using ih new t'(1) by simp
  then have steps: "\<forall>x \<in> set (t # ts). \<exists>t'. rows_of s' (T_ID x) = Some t' \<and> retry_step m x t'"
    using ih t'(2) by simp
  have others: "\<forall>i. i \<notin> T_ID ` set (t # ts) \<longrightarrow> rows_of s' i = rows_of s i"
    using ih t'(1) by simp
  show ?case
    using ih law steps others by (intro conjI) (simp_all only: list.simps filter.simps append.simps
      append_assoc map_append split: if_splits, simp_all)
qed simp

lemma GetPendingTransfers_db:
  "run_state (GetPendingTransfers PGStore dir) s = (Inr ts, s') \<Longrightarrow> unique_ids s \<Longrightarrow>
     unique_ids s' \<and> rows_of s' = rows_of s \<and> db_chain_state s' = db_chain_state s \<and>
     engine_part s' = engine_part s \<and> distinct (map T_ID ts) \<and>
     (\<forall>t. t \<in> set ts \<longleftrightarrow> rows_of s (T_ID t) = Some t \<and> T_Direction t = dir \<and>
        T_Status t = TransferStatusPending)"
  using pg.pending_law[of dir s "Inr ts" s'] store_engine_frame(6)[of dir s "Inr ts" s'] by simp

definition retry_delay :: "'c Engine \<Rightarrow> int" where
  "retry_delay E = (if RetryDelay (e_config E) \<le> 0 then stuckTransferThreshold else RetryDelay (e_config E))"

lemma runReconciliation_run:
  assumes run: "run_state (runReconciliation (E\<lparr>e_store := PGStore\<rparr>)) s = (Inr (), s')"
    and inv: "unique_ids s"
  obtains cs es where
    "distinct (map T_ID (cs @ es))"
    "\<And>t. t \<in> set (cs @ es) \<longleftrightarrow> rows_of s (T_ID t) = Some t \<and> T_Status t = TransferStatusPending"
    "unique_ids s'" "db_chain_state s' = db_chain_state s"
    "\<And>i. i \<notin> T_ID ` set (cs @ es) \<Longrightarrow> rows_of s' i = rows_of s i"
    "\<And>t. t \<in> set (cs @ es) \<Longrightarrow> \<exists>t'. rows_of s' (T_ID t) = Some t' \<and> retry_step (MaxRetries (e_config E)) t t'"
    "submitted s' = submitted s @
       map T_ID (filter (\<lambda>t. e_ethDest E \<noteq> None \<and> due (MaxRetries (e_config E)) (retry_delay E) (db_now s) t) cs @
         filter (\<lambda>t. e_cantonDest E \<noteq> None \<and> due (MaxRetries (e_config E)) (retry_delay E) (db_now s) t) es)"
proof -
  let ?E = "E\<lparr>e_store := PGStore\<rparr>" and ?m = "MaxRetries (e_config E)"
  obtain c s1 where c: "run_state (GetPendingTransfers PGStore DirectionCantonToEthereum) s = (c, s1)"
    by (rule run_obtain)
  obtain p s2 where p: "run_state (GetPendingTransfers PGStore DirectionEthereumToCanton) s1 = (p, s2)"
    by (rule run_obtain)
  from run c p obtain cs es where cs: "c = Inr cs" "p = Inr es"
    by (auto simp: runReconciliation_def split: sum.splits)
  note cl = GetPendingTransfers_db[OF c[unfolded cs] inv]
  then have "unique_ids s1" by simp
  note pl = GetPendingTransfers_db[OF p[unfolded cs] this]
  obtain s3 where s3: "run_state (for_each cs (\<lambda>t. maybeRetryTransfer ?E t (e_ethDest E) ?m (retry_delay E))) s2 = ((), s3)"
    by (rule run_unit_obtain)
  have s4: "run_state (for_each es (\<lambda>t. maybeRetryTransfer ?E t (e_cantonDest E) ?m (retry_delay E))) s3 = ((), s')"
    using run c p cs s3
    by (auto simp: runReconciliation_def retry_delay_def Let_def split: prod.splits if_splits)
  have l3: "unique_ids s3 \<and> db_chain_state s3 = db_chain_state s2 \<and> db_now s3 = db_now s2 \<and>
    (\<forall>i. i \<notin> T_ID ` set cs \<longrightarrow> rows_of s3 i = rows_of s2 i) \<and>
    (\<forall>t \<in> set cs. \<exists>t'. rows_of s3 (T_ID t) = Some t' \<and> retry_step ?m t t') \<and>
    submitted s3 = submitted s2 @ map T_ID (filter (\<lambda>t. e_ethDest E \<noteq> None \<and> due ?m (retry_delay E) (db_now s2) t) cs)"
    using cl pl by (intro retry_pass_law[OF s3]) simp_all
  have csm: "\<And>t. t \<in> set cs \<longleftrightarrow> rows_of s (T_ID t) = Some t \<and>
      T_Direction t = DirectionCantonToEthereum \<and> T_Status t = TransferStatusPending"
    and esm: "\<And>t. t \<in> set es \<longleftrightarrow> rows_of s (T_ID t) = Some t \<and>
      T_Direction t = DirectionEthereumToCanton \<and> T_Status t = TransferStatusPending"
    using cl pl by simp_all
  have disj: "T_ID t \<notin> T_ID ` set es" if "t \<in> set cs" for t
  proof
    assume "T_ID t \<in> T_ID ` set es"
    then obtain x where "x \<in> set es" "T_ID x = T_ID t" by force
    with that csm[of t] esm[of x] show False by simp
  qed
  then have disj': "T_ID t \<notin> T_ID ` set cs" if "t \<in> set es" for t
    using that by (metis imageE imageI)
  have "\<forall>t \<in> set es. rows_of s3 (T_ID t) = Some t"
    using l3 pl disj' by simp
  then have l4: "unique_ids s' \<and> db_chain_state s' = db_chain_state s3 \<and> db_now s' = db_now s3 \<and>
    (\<forall>i. i \<notin> T_ID ` set es \<longrightarrow> rows_of s' i = rows_of s3 i) \<and>
    (\<forall>t \<in> set es. \<exists>t'. rows_of s' (T_ID t) = Some t' \<and> retry_step ?m t t') \<and>
    submitted s' = submitted s3 @ map T_ID (filter (\<lambda>t. e_cantonDest E \<noteq> None \<and> due ?m (retry_delay E) (db_now s3) t) es)"
    using l3 pl by (intro retry_pass_law[OF s4]) simp_all
  have mem: "t \<in> set (cs @ es) \<longleftrightarrow> rows_of s (T_ID t) = Some t \<and> T_Status t = TransferStatusPending" for t
    using csm[of t] esm[of t] by (cases "T_Direction t") simp_all
  have same: "rows_of s' i = rows_of s i" if "i \<notin> T_ID ` set (cs @ es)" for i
    using that l3 l4 cl pl by (simp add: image_Un)
  have step: "\<exists>t'. rows_of s' (T_ID t) = Some t' \<and> retry_step ?m t t'" if "t \<in> set (cs @ es)" for t
    using that l3 l4 disj by (cases "t \<in> set cs") auto
  have now: "db_now s2 = db_now s" "db_now s3 = db_now s" "submitted s2 = submitted s"
    using cl pl l3 by (simp_all add: engine_part_def)
  have dist: "distinct (map T_ID (cs @ es))"
  proof -
    have "distinct (map T_ID cs)" "distinct (map T_ID es)" using cl pl by blast+
    moreover have "set (map T_ID cs) \<inter> set (map T_ID es) = {}" using disj by auto
    ultimately show ?thesis by simp
  qed
  have subs: "submitted s' = submitted s @
     map T_ID (filter (\<lambda>t. e_ethDest E \<noteq> None \<and> due ?m (retry_delay E) (db_now s) t) cs @
       filter (\<lambda>t. e_cantonDest E \<noteq> None \<and> due ?m (retry_delay E) (db_now s) t) es)"
    using l3 l4 now by simp
  have keep: "unique_ids s'" "db_chain_state s' = db_chain_state s"
    using cl pl l3 l4 by simp_all
  show thesis
    by (rule that[of cs es, OF dist mem keep same step subs])
qed

lemma runReconciliation_fails:
  assumes "run_state (runReconciliation (E\<lparr>e_store := PGStore\<rparr>)) s = (Inl e, s')" "unique_ids s"
  shows "unique_ids s'" "rows_of s' = rows_of s" "db_chain_state s' = db_chain_state s"
    "submitted s' = submitted s"
proof -
  obtain c s1 where c: "run_state (GetPendingTransfers PGStore DirectionCantonToEthereum) s = (c, s1)"
    by (rule run_obtain)
  obtain p s2 where p: "run_state (GetPendingTransfers PGStore DirectionEthereumToCanton) s1 = (p, s2)"
    by (rule run_obtain)
  note c1 = pg.pending_law[OF c assms(2)] store_engine_frame(6)[OF c]
  then have "unique_ids s1" by simp
  note p1 = pg.pending_law[OF p this] store_engine_frame(6)[OF p]
  have "s' = s1 \<or> s' = s2"
    using assms(1) c p
    by (auto simp: runReconciliation_def Let_def split: sum.splits prod.splits if_splits)
  then show "unique_ids s'" "rows_of s' = rows_of s" "db_chain_state s' = db_chain_state s"
    "submitted s' = submitted s"
    using c1 p1 by (auto simp: engine_part_def)
qed

end
