(* ===== verification/Relayer_Safety.thy ===== *)
theory Relayer_Safety
  imports Relayer_Engine
begin

text \<open>
  What the running relayer guarantees: the two processors and the restart loop over the
  PostgreSQL store, the offsets across a restart, reconciliation and readiness.  The engine
  \<open>E\<lparr>e_store := PGStore\<rparr>\<close> is an arbitrary engine on that store; \<open>pgE\<close> abbreviates it.
\<close>

abbreviation pgE :: "'c Engine \<Rightarrow> 'c Engine" where "pgE E \<equiv> E\<lparr>e_store := PGStore\<rparr>"

text \<open>A consistent starting point: unique ids, and every submitted id submitted once and recorded.\<close>

definition consistent :: "'c engine \<Rightarrow> bool" where
  "consistent s \<longleftrightarrow> unique_ids s \<and> submitted_once (count_list (submitted s)) (rows_of s)"

section \<open>A small engine\<close>

text \<open>An engine with empty tables whose chains answer at once, and a deposit event.\<close>

definition demo_config :: Config where
  "demo_config =
     \<lparr>MaxRetries = 3, RetryDelay = 60, CantonChainID = ''canton'', CantonStartBlock = 0,
      CantonLookback = 10, EthChainID = ''ethereum'', EthStartBlock = 5, EthLookbackBlocks = 100,
      EthTokenContract = ''0xT''\<rparr>"

definition demo_dest :: "unit Destination" where
  "demo_dest = \<lparr>SubmitTransfer = \<lambda>ev. ret (Inr (''0x'' @ E_ID ev, False)), D_GetChainID = ''canton''\<rparr>"

definition refusing_dest :: "unit Destination" where
  "refusing_dest = \<lparr>SubmitTransfer = \<lambda>ev. ret (Inl (Err ''reverted'')), D_GetChainID = ''canton''\<rparr>"

definition demo_E :: "unit Engine" where
  "demo_E =
     \<lparr>e_config = demo_config,
      e_cantonClient = \<lparr>B_IsDepositProcessed = \<lambda>_. ret (Inr False),
        B_CreatePendingDeposit = \<lambda>_. ret (Inl (Err ''down'')),
        B_ProcessDepositAndMint = \<lambda>_. ret (Inl (Err ''down'')),
        B_CompleteWithdrawal = \<lambda>_. ret (Inr ()), B_GetLatestLedgerOffset = ret (Inr 100)\<rparr>,
      e_ethClient = \<lparr>EB_GetLatestBlockNumber = ret (Inr 9),
        EB_WithdrawFromCanton = \<lambda>_ _ _ _ _. ret (Inl (Err ''down'')),
        EB_IsWithdrawalProcessed = \<lambda>_. ret (Inr False), EB_GetLastScannedBlock = ret 8\<rparr>,
      e_store = PGStore, e_ethDest = Some demo_dest, e_cantonDest = Some demo_dest\<rparr>"

definition demo_engine :: "unit engine" where
  "demo_engine =
     \<lparr>db_transfers = [], db_chain_state = Map.empty, db_now = 1000, db_faults = [],
      cantonOffset = '''', ethLastBlock = 0, cantonSynced = False, ethereumSynced = False,
      cantonStreamStarted = 0, ext = (), submitted = []\<rparr>"

definition demo_event :: "string \<Rightarrow> u64 \<Rightarrow> Event" where
  "demo_event i b =
     \<lparr>E_ID = i, E_TransactionID = i, E_SourceChain = ChainEthereum, E_DestinationChain = ChainCanton,
      E_SourceTxHash = i, E_SourceContractID = '''', E_TokenAddress = ''0xT'', E_Amount = ''5'',
      E_Sender = ''0xS'', E_Recipient = ''aa'', E_Nonce = 0, E_SourceBlockNumber = b,
      E_Checkpoint = False\<rparr>"

lemma demo_consistent [simp]: "consistent demo_engine" "unique_ids demo_engine"
  by (simp_all add: consistent_def demo_engine_def unique_ids_def submitted_once_def)

lemmas demo_run_defs = processEvent_def persistOffset_def processor_defs demo_E_def demo_engine_def
  demo_config_def demo_event_def demo_dest_def refusing_dest_def engine_dest_def ethereumSource_def
  saveChainOffset_def ethereumKey_def PGStore_def pg_CreateTransfer_def pg_UpdateTransferStatus_def
  pg_SetChainState_def exec_update_def insert_row_def update_row_def Let_def transfer_of_def
  toTransferDao_def has_row_def column_defaults_def

section \<open>At most one submission\<close>

text \<open>
  C1: The Ethereum processor submits no deposit twice.  From a consistent state, whatever
  sequence of events, repeated ones included, checkpoints and stream errors the processor
  receives, and whichever database calls and submissions fail, every event id is handed to the
  destination at most once and the state stays consistent.
\<close>

theorem deposits_submitted_once:
  assumes "run_state (Start_loop (ethProcessor (pgE E) dest) sels) s = (r, s')" "consistent (env s)"
  shows "count_list (submitted (env s')) i \<le> 1 \<and> consistent (env s')"
  using ep.Start_loop_safe[OF assms(1)] assms(2) by (simp add: consistent_def submitted_once_def)

theorem deposits_submitted_once_witness:
  "count_list (submitted (env (snd (run_state (Start_loop (ethProcessor (pgE demo_E) demo_dest)
      [RecvEvent (demo_event ''a-0'' 2), RecvEvent (demo_event ''a-0'' 2)])
      \<lparr>lastSavedOffset = '''', env = demo_engine\<rparr>)))) ''a-0'' \<le> 1"
  by (rule deposits_submitted_once[OF prod.collapse[symmetric], THEN conjunct1]) simp

lemma restarts_consistent:
  "run_state (runCantonProcessorLoop (cantonProcessor (pgE E) dest) runs b) s = (r, s') \<Longrightarrow>
     consistent (env s) \<Longrightarrow> consistent (env s')"
proof (induction runs arbitrary: b s r s')
  case (Cons run runs)
  let ?P = "cantonProcessor (pgE E) dest" and ?s1 = "s\<lparr>env := (env s)\<lparr>cantonStreamStarted := db_now (env s)\<rparr>\<rparr>"
  obtain err s2 where st: "run_state (Start_loop ?P (run (cantonOffset (env s)))) ?s1 = (err, s2)"
    by (rule run_obtain)
  have "consistent (env ?s1)" using Cons.prems(2) by (simp add: consistent_def)
  then have c2: "consistent (env s2)"
    using cp.Start_loop_safe[OF st] by (simp add: consistent_def)
  show ?case
  proof (cases "case err of Some (Inl e) \<Rightarrow> errors_Is e context_Canceled | _ \<Rightarrow> False")
    case True
    with Cons.prems(1) st c2 show ?thesis by auto
  next
    case False
    obtain sl s3 where "run_state (runCantonProcessorLoop ?P runs (nextCantonProcessorBackoff b)) s2 = (sl, s3)"
      by (rule run_obtain)
    with Cons.IH[OF this c2] Cons.prems(1) st False show ?thesis by auto
  qed
qed auto

text \<open>
  C8: Restarting the Canton processor submits no withdrawal twice.  However often the processor
  stops and is started again at the saved offset, and whatever the stream replays at each start,
  every withdrawal id is handed to the Ethereum destination at most once.
\<close>

theorem withdrawals_submitted_once:
  assumes "run_state (runCantonProcessorLoop (cantonProcessor (pgE E) dest) runs b) s = (r, s')"
    and "consistent (env s)"
  shows "count_list (submitted (env s')) i \<le> 1 \<and> consistent (env s')"
  using restarts_consistent[OF assms] by (simp add: consistent_def submitted_once_def)

theorem withdrawals_submitted_once_witness:
  "count_list (submitted (env (snd (run_state (runCantonProcessorLoop (cantonProcessor (pgE demo_E) demo_dest)
      (replicate 3 (\<lambda>_. [RecvEvent (demo_event ''7-0'' 0), RecvError (Some (Err ''reset''))])) 1)
      \<lparr>lastSavedOffset = '''', env = demo_engine\<rparr>)))) ''7-0'' \<le> 1"
  by (rule withdrawals_submitted_once[OF prod.collapse[symmetric], THEN conjunct1]) simp

section \<open>Offsets\<close>

text \<open>
  C10: A saved offset is that of an event the relayer has on record.  When a run of the Ethereum
  processor changes the chain state table, the change is one row, that of the source chain; its
  offset is the one of a received event that is a checkpoint or has a transfer row; and
  rows that were there before the run are still there unchanged.
\<close>

theorem saved_offset_recorded:
  assumes "run_state (Start_loop (ethProcessor (pgE E) dest) sels) s = (r, s')" "consistent (env s)"
    and "db_chain_state (env s') \<noteq> db_chain_state (env s)"
  shows "rows_of (env s) \<subseteq>\<^sub>m rows_of (env s') \<and>
    (\<exists>st ev. db_chain_state (env s') = (db_chain_state (env s))(ethereumKey E \<mapsto> st) \<and>
       RecvEvent ev \<in> set sels \<and> (E_Checkpoint ev \<or> rows_of (env s') (E_ID ev) \<noteq> None) \<and>
       CS_Offset st = FormatUint (E_SourceBlockNumber ev))"
proof -
  have P: "GetChainID (p_source (ethProcessor (pgE E) dest)) = ethereumKey E"
    "ExtractOffset (p_source (ethProcessor (pgE E) dest)) ev =
       (if E_SourceBlockNumber ev = 0 then '''' else FormatUint (E_SourceBlockNumber ev))" for ev
    by (simp_all add: processor_defs ethereumSource_def ethereumKey_def word_le_0_iff)
  from assms(2) have c: "unique_ids (env s)" "submitted_once (count_list (submitted (env s))) (rows_of (env s))"
    by (simp_all add: consistent_def)
  from ep.Start_loop_safe[OF assms(1) c] assms(3) obtain st ev where
    st: "db_chain_state (env s') = (db_chain_state (env s))(ethereumKey E \<mapsto> st)" "RecvEvent ev \<in> set sels"
      "E_Checkpoint ev \<or> rows_of (env s') (E_ID ev) \<noteq> None"
      "CS_Offset st = (if E_SourceBlockNumber ev = 0 then '''' else FormatUint (E_SourceBlockNumber ev))"
      "CS_Offset st \<noteq> ''''" and le: "rows_of (env s) \<subseteq>\<^sub>m rows_of (env s')"
    unfolding P by blast
  have off: "CS_Offset st = FormatUint (E_SourceBlockNumber ev)" using st(4,5) by presburger
  show ?thesis
    by (rule conjI[OF le]) (intro exI conjI; (rule st(1-3) off))
qed

theorem saved_offset_recorded_witness:
  "\<exists>st. db_chain_state (env (snd (run_state (Start_loop (ethProcessor (pgE demo_E) demo_dest)
      [RecvEvent (demo_event ''a-0'' 2)]) \<lparr>lastSavedOffset = '''', env = demo_engine\<rparr>))) ''ethereum'' = Some st \<and>
      CS_Offset st = FormatUint 2"
proof -
  obtain r s' where run: "run_state (Start_loop (ethProcessor (pgE demo_E) demo_dest)
      [RecvEvent (demo_event ''a-0'' 2)]) \<lparr>lastSavedOffset = '''', env = demo_engine\<rparr> = (r, s')"
    by (rule run_obtain)
  have ne: "db_chain_state (env s') ''ethereum'' \<noteq> None"
    using run by (auto simp: demo_run_defs)
  then have "db_chain_state (env s') \<noteq> db_chain_state (env \<lparr>lastSavedOffset = '''', env = demo_engine\<rparr>)"
    by (auto simp: demo_engine_def)
  from saved_offset_recorded[OF run _ this] have
    "\<exists>st. db_chain_state (env s') ''ethereum'' = Some st \<and> CS_Offset st = FormatUint 2"
    by (auto simp: demo_E_def demo_config_def ethereumKey_def demo_event_def)
  then show ?thesis using run by simp
qed

text \<open>
  C21: A failure never moves the offset.  When handling a withdrawal ends with an error, the
  persisted chain state is what it was, and the only possible change to the transfers is a new
  pending row of that event, never retried so far, which reconciliation will find.
\<close>

theorem failed_event_keeps_offset:
  assumes "run_state (processEvent (cantonProcessor (pgE E) dest) ev) s = (Inl e, s')" "unique_ids (env s)"
  shows "db_chain_state (env s') = db_chain_state (env s) \<and>
    (rows_of (env s') = rows_of (env s) \<or> rows_of (env s) (E_ID ev) = None \<and>
      (\<exists>t. rows_of (env s') = (rows_of (env s))(E_ID ev \<mapsto> t) \<and> T_ID t = E_ID ev \<and>
         T_Status t = TransferStatusPending \<and> T_Direction t = DirectionCantonToEthereum \<and> T_RetryCount t = 0))"
proof -
  have dir: "p_direction (cantonProcessor (pgE E) dest) = DirectionCantonToEthereum"
    by (simp add: processor_defs)
  from assms show ?thesis
    by (cases rule: cp.processEvent_cases) (auto simp: dir)
qed

theorem failed_event_keeps_offset_witness:
  "rows_of (env (snd (run_state (processEvent (cantonProcessor (pgE demo_E) refusing_dest) (demo_event ''7-0'' 0))
     \<lparr>lastSavedOffset = '''', env = demo_engine\<rparr>))) ''7-0'' \<noteq> None \<and>
   db_chain_state (env (snd (run_state (processEvent (cantonProcessor (pgE demo_E) refusing_dest) (demo_event ''7-0'' 0))
     \<lparr>lastSavedOffset = '''', env = demo_engine\<rparr>))) = Map.empty"
  (is "rows_of (env (snd ?run)) _ \<noteq> None \<and> _")
proof -
  have row: "rows_of (env (snd ?run)) ''7-0'' \<noteq> None" and err: "isl (fst ?run)"
    by (simp_all add: demo_run_defs rows_of_def)
  then obtain e s' where run: "?run = (Inl e, s')"
    by (metis isl_def prod.collapse)
  from failed_event_keeps_offset[OF run] have "db_chain_state (env s') = Map.empty"
    by (simp add: demo_engine_def unique_ids_def)
  with run row show ?thesis by simp
qed



section \<open>Where a restart begins\<close>

lemma get_chain_state_pg:
  assumes "run_state (GetChainState PGStore c) s = (Inr st, s1)" "unique_ids s"
  shows "st = db_chain_state s c" "engine_part s1 = engine_part s"
  using pg.get_chain_law[OF assms] store_engine_frame(5)[OF assms(1)] by simp_all

text \<open>
  C23: The Ethereum offset survives a restart.  If saving block \<open>b\<close> succeeded, and a later start of
  the engine finds that chain state, in whatever other state, and loads its offset successfully, it
  resumes from \<open>b\<close>, or from the configured start block if that is later.
\<close>

theorem ethereum_offset_survives_restart:
  assumes "run_state (saveChainOffset (pgE E) (ethereumKey E) (FormatUint b)) s = (Inr (), s1)" "unique_ids s"
    and "db_chain_state s2 = db_chain_state s1" "unique_ids s2"
    and "run_state (loadEthereumOffset (pgE E)) s2 = (Inr (), s3)"
  shows "ethLastBlock s3 = max (EthStartBlock (e_config E)) b"
proof -
  from saveChainOffset_law(5)[OF assms(1,2)] obtain st where
    st: "db_chain_state s1 (ethereumKey E) = Some st" "CS_LastBlock st = b" by auto
  obtain g s2' where g: "run_state (GetChainState PGStore (ethereumKey E)) s2 = (g, s2')" by (rule run_obtain)
  with assms(5) obtain o' where o': "g = Inr o'"
    by (cases g) (auto simp: loadEthereumOffset_def ethereumKey_def)
  with get_chain_state_pg(1)[OF g[unfolded o'] assms(4)] assms(3) st have "g = Inr (Some st)" by simp
  with g assms(5) st(2) show ?thesis
    by (auto simp: loadEthereumOffset_def ethereumKey_def max_def split: if_splits)
qed

theorem ethereum_offset_survives_restart_witness:
  "ethLastBlock (snd (run_state (loadEthereumOffset (pgE demo_E))
     (snd (run_state (saveChainOffset (pgE demo_E) ''ethereum'' (FormatUint 7)) demo_engine)))) = 7"
proof -
  have key: "''ethereum'' = ethereumKey demo_E" by (simp add: demo_E_def demo_config_def ethereumKey_def)
  obtain r s1 where save: "run_state (saveChainOffset (pgE demo_E) ''ethereum'' (FormatUint 7)) demo_engine = (r, s1)"
    by (rule run_obtain)
  have "r = Inr () \<and> db_faults s1 = []" using save by (auto simp: demo_run_defs)
  with save have r: "run_state (saveChainOffset (pgE demo_E) (ethereumKey demo_E) (FormatUint 7)) demo_engine = (Inr (), s1)"
    and f: "db_faults s1 = []" unfolding key by simp_all
  have u: "unique_ids s1" using saveChainOffset_law(1)[OF r] by simp
  obtain r2 s3 where load: "run_state (loadEthereumOffset (pgE demo_E)) s1 = (r2, s3)" by (rule run_obtain)
  have "r2 = Inr ()" using load f
    by (auto simp: loadEthereumOffset_def ethBlockFromChainHead_def demo_run_defs pg_GetChainState_def
        split: option.splits)
  with ethereum_offset_survives_restart[OF r _ refl u] load have "ethLastBlock s3 = max (EthStartBlock (e_config demo_E)) 7"
    by simp
  with save load show ?thesis by (simp add: demo_E_def demo_config_def max_def)
qed

lemma validate_offset:
  assumes "run_state (validateStoredCantonOffset (pgE E) stored) s = (Inr (), s')"
    and "run_state (B_GetLatestLedgerOffset (e_cantonClient E)) (ext s) = (Inr n, w)"
  shows "cantonOffset s' = safeCantonOffset (pgE E) n \<or> cantonOffset s' = stored \<and>
    (\<forall>m. ParseInt stored = Inr m \<longrightarrow> m \<le> n)"
proof (cases "case ParseInt stored of Inl _ \<Rightarrow> True | Inr m \<Rightarrow> m \<le> n")
  case True
  with assms show ?thesis by (auto simp: validateStoredCantonOffset_def split: sum.splits)
next
  case False
  let ?off = "safeCantonOffset (pgE E) n"
  obtain r s1 where set: "run_state (SetChainState PGStore (cantonKey (pgE E)) 0 ?off)
      (s\<lparr>ext := w, cantonOffset := ?off\<rparr>) = (r, s1)" by (rule run_obtain)
  have "s' = s1" using assms set False
    by (auto simp: validateStoredCantonOffset_def Let_def split: sum.splits)
  with store_engine_frame(4)[OF set] show ?thesis by (simp add: engine_part_def)
qed



section \<open>Reconciliation\<close>

lemma rows_of_key: "rows_of s i = Some t \<Longrightarrow> i = T_ID t"
  by (auto simp: rows_of_def dest!: map_of_SomeD)

text \<open>
  C19: Reconciliation touches pending transfers only, and submits each at most once.  A pass that
  completes submits an id only if its transfer was pending, out of its retry delay and within its
  retry limit, and no id twice; every other row, completed and failed ones in particular, is
  unchanged; and a pending row goes to completed, or to failed when its retries are used up, or
  counts one more retry, or stays.
\<close>

theorem reconciliation_safe:
  assumes "run_state (runReconciliation (pgE E)) s = (Inr (), s')" "unique_ids s"
  shows "\<exists>new. submitted s' = submitted s @ new \<and> distinct new \<and>
    (\<forall>i t. rows_of s i = Some t \<longrightarrow>
      (i \<in> set new \<longrightarrow> T_Status t = TransferStatusPending \<and>
         due (MaxRetries (e_config E)) (retry_delay E) (db_now s) t) \<and>
      (if T_Status t = TransferStatusPending
       then (\<exists>t'. rows_of s' i = Some t' \<and> retry_step (MaxRetries (e_config E)) t t')
       else rows_of s' i = Some t)) \<and>
    db_chain_state s' = db_chain_state s"
proof (rule runReconciliation_run[OF assms], goal_cases)
  case r: (1 cs es)
  let ?due = "due (MaxRetries (e_config E)) (retry_delay E) (db_now s)"
  define picked where "picked = filter (\<lambda>t. e_ethDest E \<noteq> None \<and> ?due t) cs @
     filter (\<lambda>t. e_cantonDest E \<noteq> None \<and> ?due t) es"
  have picked: "t \<in> set (cs @ es) \<and> ?due t" if "t \<in> set picked" for t
    using that by (auto simp: picked_def)
  have dist: "distinct (map T_ID picked)"
  proof -
    have "distinct (map T_ID (filter (\<lambda>t. e_ethDest E \<noteq> None \<and> ?due t) cs))"
      "distinct (map T_ID (filter (\<lambda>t. e_cantonDest E \<noteq> None \<and> ?due t) es))"
      using r(1) by (simp_all add: distinct_map_filter)
    moreover have "T_ID ` set cs \<inter> T_ID ` set es = {}" using r(1) by simp
    ultimately show ?thesis by (simp add: picked_def) blast
  qed
  show ?case
  proof (intro exI[of _ "map T_ID picked"] conjI allI impI)
    fix i t assume row: "rows_of s i = Some t"
    then have i: "i = T_ID t" by (rule rows_of_key)
    show "T_Status t = TransferStatusPending" "?due t" if new: "i \<in> set (map T_ID picked)"
    proof -
      from new obtain x where x: "x \<in> set picked" "T_ID x = i" by auto
      with r(2)[of x] picked[OF x(1)] row have "x = t" by simp
      with picked[OF x(1)] r(2)[of x] show "T_Status t = TransferStatusPending" "?due t" by auto
    qed
    show "if T_Status t = TransferStatusPending
      then \<exists>t'. rows_of s' i = Some t' \<and> retry_step (MaxRetries (e_config E)) t t'
      else rows_of s' i = Some t"
    proof (cases "T_Status t = TransferStatusPending")
      case True
      with row i r(2)[of t] have "t \<in> set (cs @ es)" by simp
      from r(6)[OF this] True i show ?thesis by simp
    next
      case False
      have "i \<notin> T_ID ` set (cs @ es)"
      proof
        assume "i \<in> T_ID ` set (cs @ es)"
        then obtain x where "x \<in> set (cs @ es)" "T_ID x = i" by force
        with r(2)[of x] row False show False by simp
      qed
      from r(5)[OF this] False row show ?thesis by simp
    qed
  qed (use r(4,7) dist in \<open>simp_all add: picked_def\<close>)
qed

text \<open>A transfer pending since time 0, and one whose retries are used up.\<close>

definition demo_transfer :: "string \<Rightarrow> int \<Rightarrow> Transfer" where
  "demo_transfer i n =
     \<lparr>T_ID = i, T_Direction = DirectionEthereumToCanton, T_Status = TransferStatusPending,
      T_SourceChain = ChainEthereum, T_DestinationChain = ChainCanton, T_SourceTxHash = i,
      T_DestinationTxHash = None, T_TokenAddress = ''0xT'', T_Amount = ''5'', T_Sender = ''0xS'',
      T_Recipient = ''aa'', T_Nonce = 0, T_SourceBlockNumber = 2, T_RetryCount = n, T_CreatedAt = 0,
      T_UpdatedAt = 0, T_CompletedAt = None, T_ErrorMessage = None\<rparr>"

definition stuck_engine :: "unit engine" where
  "stuck_engine = demo_engine\<lparr>db_transfers := [demo_transfer ''a-0'' 0, demo_transfer ''b-0'' 3]\<rparr>"

lemma stuck_engine_facts:
  "unique_ids stuck_engine" "rows_of stuck_engine ''a-0'' = Some (demo_transfer ''a-0'' 0)"
  "rows_of stuck_engine ''b-0'' = Some (demo_transfer ''b-0'' 3)"
  by (simp_all add: stuck_engine_def unique_ids_def rows_of_def demo_transfer_def)

theorem reconciliation_safe_witness:
  "\<exists>t'. rows_of (snd (run_state (runReconciliation (pgE demo_E)) stuck_engine)) ''b-0'' = Some t' \<and>
     retry_step 3 (demo_transfer ''b-0'' 3) t'"
proof -
  obtain r s' where run: "run_state (runReconciliation (pgE demo_E)) stuck_engine = (r, s')"
    by (rule run_obtain)
  have faults: "db_faults stuck_engine = []" by (simp add: stuck_engine_def demo_engine_def)
  have "r = Inr ()"
    using run faults by (auto simp: runReconciliation_def PGStore_def pg_GetPendingTransfers_def Let_def split: prod.splits)
  with run have "run_state (runReconciliation (pgE demo_E)) stuck_engine = (Inr (), s')" by simp
  from reconciliation_safe[OF this stuck_engine_facts(1)]
  have "\<exists>t'. rows_of s' ''b-0'' = Some t' \<and> retry_step (MaxRetries (e_config demo_E)) (demo_transfer ''b-0'' 3) t'"
    using stuck_engine_facts(3) by (auto simp: demo_transfer_def split: if_splits)
  with run show ?thesis by (simp add: demo_E_def demo_config_def)
qed

lemma update_no_faults:
  assumes "unique_ids s" "db_faults s = []" "rows_of s i = Some t"
  shows "\<exists>s'. run_state (UpdateTransferStatus PGStore i st h m) s = (Inr (), s') \<and>
    rows_of s' = (rows_of s)(i \<mapsto> set_status (db_now s) st h m t) \<and> submitted s' = submitted s"
proof -
  have "run_state (UpdateTransferStatus PGStore i st h m) s =
      (Inr (), update_row i (set_status (db_now s) st h m) s)"
    using assms by (simp add: PGStore_def pg_UpdateTransferStatus_def exec_update_def has_row_rows_of)
  moreover have "submitted (update_row i f s) = submitted s" for f by (simp add: update_row_def)
  ultimately show ?thesis using assms(3) by (simp add: rows_of_update_row)
qed

text \<open>
  C20: A transfer whose retries are used up ends as failed.  While the database works, one look of the
  reconciler at a pending transfer that has reached the retry limit submits nothing and marks
  exactly that transfer failed, with the reason.
\<close>

theorem exhausted_transfer_fails:
  assumes "unique_ids s" "db_faults s = []" "rows_of s (T_ID t) = Some t"
    and "0 < limit" "limit \<le> T_RetryCount t"
  shows "\<exists>s' t'. run_state (maybeRetryTransfer (pgE E) t dest limit delay) s = ((), s') \<and>
    rows_of s' = (rows_of s)(T_ID t \<mapsto> t') \<and> T_Status t' = TransferStatusFailed \<and>
    T_ErrorMessage t' = Some (''max retries ('' @ FormatInt limit @ '') exceeded'') \<and>
    submitted s' = submitted s"
proof -
  let ?msg = "''max retries ('' @ FormatInt limit @ '') exceeded''"
  from update_no_faults[OF assms(1-3), of TransferStatusFailed None "Some ?msg"] obtain s' where
    "run_state (UpdateTransferStatus PGStore (T_ID t) TransferStatusFailed None (Some ?msg)) s = (Inr (), s')"
    "rows_of s' = (rows_of s)(T_ID t \<mapsto> set_status (db_now s) TransferStatusFailed None (Some ?msg) t)"
    "submitted s' = submitted s" by blast
  with assms(4,5) show ?thesis
    by (intro exI[of _ s'] exI[of _ "set_status (db_now s) TransferStatusFailed None (Some ?msg) t"])
      (simp add: maybeRetryTransfer_def set_status_def)
qed

theorem exhausted_transfer_fails_witness:
  "\<exists>s' t'. run_state (maybeRetryTransfer (pgE demo_E) (demo_transfer ''b-0'' 3) (Some demo_dest) 3 60) stuck_engine = ((), s') \<and>
     rows_of s' ''b-0'' = Some t' \<and> T_Status t' = TransferStatusFailed \<and> submitted s' = []"
proof -
  have "db_faults stuck_engine = []" "submitted stuck_engine = []" "T_ID (demo_transfer ''b-0'' 3) = ''b-0''"
    "T_RetryCount (demo_transfer ''b-0'' 3) = 3"
    by (simp_all add: stuck_engine_def demo_engine_def demo_transfer_def)
  with exhausted_transfer_fails[OF stuck_engine_facts(1), of "demo_transfer ''b-0'' 3" 3 demo_E "Some demo_dest" 60]
    stuck_engine_facts(3) show ?thesis by (metis fun_upd_same order_refl zero_less_numeral)
qed

section \<open>Restart delays\<close>


lemma restart_delays:
  "run_state (runCantonProcessorLoop P runs b) s = (delays, s') \<Longrightarrow>
     cantonProcessorRestartInitialBackoff \<le> b \<Longrightarrow> b \<le> cantonProcessorRestartMaxBackoff \<Longrightarrow>
     sorted delays \<and> set delays \<subseteq> {b..cantonProcessorRestartMaxBackoff}"
proof (induction runs arbitrary: b s delays s')
  case (Cons run runs)
  let ?s1 = "s\<lparr>env := (env s)\<lparr>cantonStreamStarted := db_now (env s)\<rparr>\<rparr>" and ?b = "nextCantonProcessorBackoff b"
  obtain err s2 where st: "run_state (Start_loop P (run (cantonOffset (env s)))) ?s1 = (err, s2)"
    by (rule run_obtain)
  obtain sl s3 where sl: "run_state (runCantonProcessorLoop P runs ?b) s2 = (sl, s3)" by (rule run_obtain)
  have b: "b \<le> ?b" "cantonProcessorRestartInitialBackoff \<le> ?b" "?b \<le> cantonProcessorRestartMaxBackoff"
    using Cons.prems(2,3) by (auto simp: nextCantonProcessorBackoff_def cantonProcessorRestartInitialBackoff_def
      cantonProcessorRestartMaxBackoff_def)
  have "delays = [] \<or> delays = b # sl"
    using Cons.prems(1) st sl by (auto split: if_splits)
  moreover have "sorted sl" "\<forall>x \<in> set sl. b \<le> x \<and> x \<le> cantonProcessorRestartMaxBackoff"
    using Cons.IH[OF sl b(2,3)] b(1) by fastforce+
  ultimately show ?case using Cons.prems(3) by (elim disjE) (simp_all add: subset_iff)
qed auto

text \<open>
  C30: The restart loop sleeps between one and thirty seconds each time, never less after a
  longer sleep: from the initial delay, the list of delays is sorted and within the bounds.
\<close>

theorem restart_delays_bounded:
  assumes "run_state (runCantonProcessorLoop P runs cantonProcessorRestartInitialBackoff) s = (delays, s')"
  shows "sorted delays \<and> set delays \<subseteq> {cantonProcessorRestartInitialBackoff..cantonProcessorRestartMaxBackoff}"
  using restart_delays[OF assms] by (auto simp: cantonProcessorRestartInitialBackoff_def cantonProcessorRestartMaxBackoff_def)

theorem restart_delays_bounded_witness:
  "sorted (fst (run_state (runCantonProcessorLoop (cantonProcessor (pgE demo_E) demo_dest)
     (replicate 7 (\<lambda>_. [])) cantonProcessorRestartInitialBackoff) \<lparr>lastSavedOffset = '''', env = demo_engine\<rparr>))"
  by (rule restart_delays_bounded[OF prod.collapse[symmetric], THEN conjunct1])

section \<open>Readiness\<close>

text \<open>
  C31: Readiness is sticky and never claimed early for Ethereum.  A readiness check never clears a
  synced flag; and it sets the Ethereum flag only when the node answered with a head that the
  later of the scanned and the saved block is within one block of.
\<close>

theorem readiness_sticky:
  assumes "run_state (checkReadiness E) s = ((), s')"
  shows "(IsReady s \<longrightarrow> IsReady s') \<and> (ethereumSynced s \<longrightarrow> ethereumSynced s') \<and>
    (cantonSynced s \<longrightarrow> cantonSynced s') \<and>
    (ethereumSynced s' \<and> \<not> ethereumSynced s \<longrightarrow>
      (\<exists>h c1 b c2. run_state (EB_GetLatestBlockNumber (e_ethClient E)) (ext s) = (Inr h, c1) \<and>
         run_state (EB_GetLastScannedBlock (e_ethClient E)) c1 = (b, c2) \<and> h \<le> max b (ethLastBlock s) + 1))"
proof -
  obtain s1 where s1: "run_state (checkEthereumReadiness E) s = ((), s1)" by (rule run_unit_obtain)
  then have s2: "run_state (checkCantonReadiness E) s1 = ((), s')"
    using assms by (simp add: checkReadiness_def)
  obtain h c1 where h: "run_state (EB_GetLatestBlockNumber (e_ethClient E)) (ext s) = (h, c1)" by (rule run_obtain)
  obtain b c2 where b: "run_state (EB_GetLastScannedBlock (e_ethClient E)) c1 = (b, c2)" by (rule run_obtain)
  have eth: "cantonSynced s1 = cantonSynced s" "ethereumSynced s \<longrightarrow> ethereumSynced s1"
    "ethereumSynced s1 \<and> \<not> ethereumSynced s \<longrightarrow> (\<exists>n. h = Inr n \<and> n \<le> max b (ethLastBlock s) + 1)"
    using s1 h b by (cases h; auto simp: checkEthereumReadiness_def Let_def max_def split: if_splits)+
  obtain en c3 where en: "run_state (B_GetLatestLedgerOffset (e_cantonClient E)) (ext s1) = (en, c3)" by (rule run_obtain)
  have "ethereumSynced s' = ethereumSynced s1" "cantonSynced s1 \<longrightarrow> cantonSynced s'"
    using s2 en by (cases en; auto simp: checkCantonReadiness_def split: if_splits sum.splits)+
  with eth h b show ?thesis by (auto simp: IsReady_def)
qed

theorem readiness_sticky_witness:
  "\<exists>h c1 b c2. run_state (EB_GetLatestBlockNumber (e_ethClient demo_E)) (ext demo_engine) = (Inr h, c1) \<and>
     run_state (EB_GetLastScannedBlock (e_ethClient demo_E)) c1 = (b, c2) \<and> h \<le> max b (ethLastBlock demo_engine) + 1"
proof -
  obtain s' where run: "run_state (checkReadiness demo_E) demo_engine = ((), s')" by (rule run_unit_obtain)
  then have "ethereumSynced s'" "\<not> ethereumSynced demo_engine"
    by (auto simp: checkReadiness_def checkEthereumReadiness_def checkCantonReadiness_def demo_E_def
        demo_engine_def)
  with readiness_sticky[OF run] show ?thesis by blast
qed

end
