(* ===== verification/Indexer_Decoder.thy ===== *)
theory Indexer_Decoder
  imports Ledger_Stream
begin

text \<open>
  \<open>pkg/indexer/types.go\<close> and \<open>pkg/indexer/engine/decoder.go\<close>: the indexer's data and the three
  decoders that turn ledger events into token transfers, transfer offers and holding changes.
\<close>

section \<open>Types\<close>

text \<open>Statuses, kinds, roles and event types are strings in the source and in the tables.\<close>

definition StatusPending :: string where "StatusPending = ''pending''"
definition StatusExpired :: string where "StatusExpired = ''expired''"
definition StatusCompleted :: string where "StatusCompleted = ''completed''"
definition StatusCanceled :: string where "StatusCanceled = ''canceled''"
definition StatusRejected :: string where "StatusRejected = ''rejected''"

definition TransferKindDirect :: string where "TransferKindDirect = ''direct''"
definition TransferKindOffer :: string where "TransferKindOffer = ''offer''"

definition TransferRoleSender :: string where "TransferRoleSender = ''sender''"
definition TransferRoleReceiver :: string where "TransferRoleReceiver = ''receiver''"
definition TransferRoleAny :: string where "TransferRoleAny = ''any''"

definition EventMint :: string where "EventMint = ''MINT''"
definition EventBurn :: string where "EventBurn = ''BURN''"
definition EventTransfer :: string where "EventTransfer = ''TRANSFER''"

lemmas indexer_consts = StatusPending_def StatusExpired_def StatusCompleted_def StatusCanceled_def
  StatusRejected_def TransferKindDirect_def TransferKindOffer_def TransferRoleSender_def
  TransferRoleReceiver_def TransferRoleAny_def EventMint_def EventBurn_def EventTransfer_def

record TransferQuery =
  Q_Role :: string
  Q_Status :: string

record IxTransfer =
  X_ContractID :: string
  X_Kind :: string
  X_Status :: string
  X_FromPartyID :: string
  X_ToPartyID :: string
  X_InstrumentAdmin :: string
  X_InstrumentID :: string
  X_Amount :: string
  X_ExpiresAt :: "time option"
  X_TxID :: string
  X_LedgerOffset :: int
  X_CreatedAt :: time
  X_Archived :: bool

record ParsedEvent =
  PE_InstrumentID :: string
  PE_InstrumentAdmin :: string
  PE_Issuer :: string
  PE_EventType :: string
  PE_Amount :: string
  PE_FromPartyID :: "string option"
  PE_ToPartyID :: "string option"
  PE_ExternalTxID :: "string option"
  PE_ExternalAddress :: "string option"
  PE_Fingerprint :: "string option"
  PE_ContractID :: string
  PE_TxID :: string
  PE_LedgerOffset :: int
  PE_Timestamp :: time
  PE_EffectiveTime :: time

record HoldingChange =
  H_ContractID :: string
  H_IsArchived :: bool
  H_LedgerOffset :: int
  H_Owner :: string
  H_InstrumentAdmin :: string
  H_InstrumentID :: string
  H_Amount :: string
  H_Locked :: bool

record IxToken =
  K_InstrumentAdmin :: string
  K_InstrumentID :: string
  K_Issuer :: string
  K_TotalSupply :: string
  K_HolderCount :: int
  K_FirstSeenOffset :: int
  K_FirstSeenAt :: time

record Balance =
  B_PartyID :: string
  B_InstrumentAdmin :: string
  B_InstrumentID :: string
  B_Amount :: string

datatype FilterMode = FilterModeAll | FilterModeWhitelist

record InstrumentKey =
  IK_Admin :: string
  IK_ID :: string

record Pagination =
  P_Page :: int
  P_Limit :: int

record EventFilter =
  F_InstrumentAdmin :: string
  F_InstrumentID :: string
  F_PartyID :: string
  F_EventType :: string

record 'a Page =
  Pg_Items :: "'a list"
  Pg_Total :: int
  Pg_Page :: int
  Pg_Limit :: int

text \<open>A decoded item, the \<open>any\<close> of the batches: a token transfer, an offer or a holding change.\<close>

datatype item = Item_Event ParsedEvent | Item_Transfer IxTransfer | Item_Holding HoldingChange

section \<open>Decoders\<close>

definition tokenTransferEventModule :: string where "tokenTransferEventModule = ''CIP56.Events''"
definition tokenTransferEventEntity :: string where "tokenTransferEventEntity = ''TokenTransferEvent''"
definition metaKeyExternalTxID :: string where "metaKeyExternalTxID = ''bridge.externalTxId''"
definition metaKeyExternalAddress :: string where "metaKeyExternalAddress = ''bridge.externalAddress''"
definition metaKeyFingerprint :: string where "metaKeyFingerprint = ''bridge.fingerprint''"
definition transferOfferModule :: string where
  "transferOfferModule = ''Utility.Registry.App.V0.Model.Transfer''"
definition transferOfferEntity :: string where "transferOfferEntity = ''TransferOffer''"
definition choiceInstructionAccept :: string where
  "choiceInstructionAccept = ''TransferInstruction_Accept''"
definition choiceInstructionWithdraw :: string where
  "choiceInstructionWithdraw = ''TransferInstruction_Withdraw''"
definition choiceInstructionReject :: string where
  "choiceInstructionReject = ''TransferInstruction_Reject''"
definition holdingModule :: string where "holdingModule = ''Utility.Registry.Holding.V0.Holding''"
definition holdingEntity :: string where "holdingEntity = ''Holding''"

lemmas template_names = tokenTransferEventModule_def tokenTransferEventEntity_def
  transferOfferModule_def transferOfferEntity_def holdingModule_def holdingEntity_def

text \<open>\<open>if v != "" \{ p = &v \}\<close>.\<close>

definition non_empty :: "string \<Rightarrow> string option" where
  "non_empty v = (if v = '''' then None else Some v)"

definition party_opt :: "LedgerEvent \<Rightarrow> string \<Rightarrow> string option" where
  "party_opt ev name = (if ev_IsNone ev name then None else non_empty (ev_OptionalPartyField ev name))"

definition event_type_of :: "string option \<Rightarrow> string option \<Rightarrow> string option" where
  "event_type_of fromPartyID toPartyID =
     (case (fromPartyID, toPartyID) of
        (None, Some _) \<Rightarrow> Some EventMint
      | (Some _, None) \<Rightarrow> Some EventBurn
      | (Some _, Some _) \<Rightarrow> Some EventTransfer
      | (None, None) \<Rightarrow> None)"

definition NewTokenTransferDecoder ::
  "FilterMode \<Rightarrow> InstrumentKey list \<Rightarrow> LedgerTransaction \<Rightarrow> LedgerEvent \<Rightarrow> ParsedEvent option" where
  "NewTokenTransferDecoder mode allowed tx ev =
     (if \<not> le_IsCreated ev then None
      else if le_ModuleName ev \<noteq> tokenTransferEventModule \<or> le_TemplateName ev \<noteq> tokenTransferEventEntity
      then None
      else
        let instrumentID = ev_NestedTextField ev ''instrumentId'' ''id'';
            instrumentAdmin = ev_NestedPartyField ev ''instrumentId'' ''admin'';
            key = \<lparr>IK_Admin = instrumentAdmin, IK_ID = instrumentID\<rparr>
        in if mode = FilterModeWhitelist \<and> key \<notin> set allowed then None
           else
             let fromPartyID = party_opt ev ''fromParty'';
                 toPartyID = party_opt ev ''toParty''
             in case event_type_of fromPartyID toPartyID of
                  None \<Rightarrow> None
                | Some et \<Rightarrow> Some
                   \<lparr>PE_InstrumentID = instrumentID, PE_InstrumentAdmin = instrumentAdmin,
                    PE_Issuer = ev_PartyField ev ''issuer'', PE_EventType = et,
                    PE_Amount = ev_NumericField ev ''amount'',
                    PE_FromPartyID = fromPartyID, PE_ToPartyID = toPartyID,
                    PE_ExternalTxID = non_empty (ev_OptionalMetaLookup ev ''meta'' metaKeyExternalTxID),
                    PE_ExternalAddress = non_empty (ev_OptionalMetaLookup ev ''meta'' metaKeyExternalAddress),
                    PE_Fingerprint = non_empty (ev_OptionalMetaLookup ev ''meta'' metaKeyFingerprint),
                    PE_ContractID = le_ContractID ev, PE_TxID = lt_UpdateID tx,
                    PE_LedgerOffset = lt_Offset tx, PE_Timestamp = ev_TimestampField ev ''timestamp'',
                    PE_EffectiveTime = lt_EffectiveTime tx\<rparr>)"

definition offerTerminalStatus :: "string \<Rightarrow> string" where
  "offerTerminalStatus choice =
     (if choice = choiceInstructionAccept then StatusCompleted
      else if choice = choiceInstructionWithdraw then StatusCanceled
      else if choice = choiceInstructionReject then StatusRejected
      else StatusCompleted)"

definition NewOfferDecoder :: "string \<Rightarrow> LedgerTransaction \<Rightarrow> LedgerEvent \<Rightarrow> IxTransfer option" where
  "NewOfferDecoder packageID tx ev =
     (if packageID = '''' then None
      else if le_ModuleName ev \<noteq> transferOfferModule \<or> le_TemplateName ev \<noteq> transferOfferEntity then None
      else
        let transfer =
          \<lparr>X_ContractID = le_ContractID ev, X_Kind = TransferKindOffer, X_Status = '''',
           X_FromPartyID = '''', X_ToPartyID = '''', X_InstrumentAdmin = '''', X_InstrumentID = '''',
           X_Amount = '''', X_ExpiresAt = None, X_TxID = '''', X_LedgerOffset = lt_Offset tx,
           X_CreatedAt = lt_EffectiveTime tx, X_Archived = \<not> le_IsCreated ev\<rparr>
        in if \<not> le_IsCreated ev then Some (transfer\<lparr>X_Status := offerTerminalStatus (le_Choice ev)\<rparr>)
           else
             let exp = ev_NestedTimestampField ev ''transfer'' ''executeBefore''
             in Some (transfer\<lparr>X_Status := StatusPending, X_TxID := lt_UpdateID tx,
                  X_ToPartyID := ev_NestedPartyField ev ''transfer'' ''receiver'',
                  X_FromPartyID := ev_NestedPartyField ev ''transfer'' ''sender'',
                  X_Amount := ev_NestedNumericField ev ''transfer'' ''amount'',
                  X_InstrumentAdmin := ev_DoublyNestedPartyField ev ''transfer'' ''instrumentId'' ''admin'',
                  X_InstrumentID := ev_DoublyNestedTextField ev ''transfer'' ''instrumentId'' ''id'',
                  X_ExpiresAt := (if exp = zero_time then None else Some exp)\<rparr>))"

definition NewHoldingDecoder :: "string \<Rightarrow> LedgerTransaction \<Rightarrow> LedgerEvent \<Rightarrow> HoldingChange option" where
  "NewHoldingDecoder packageID tx ev =
     (if packageID = '''' then None
      else if le_ModuleName ev \<noteq> holdingModule \<or> le_TemplateName ev \<noteq> holdingEntity then None
      else
        let change =
          \<lparr>H_ContractID = le_ContractID ev, H_IsArchived = \<not> le_IsCreated ev,
           H_LedgerOffset = lt_Offset tx, H_Owner = '''', H_InstrumentAdmin = '''',
           H_InstrumentID = '''', H_Amount = '''', H_Locked = False\<rparr>
        in if le_IsCreated ev
           then Some (change\<lparr>H_Owner := ev_PartyField ev ''owner'',
                  H_InstrumentAdmin := ev_PartyField ev ''registrar'',
                  H_InstrumentID := ev_NestedTextField ev ''instrument'' ''id'',
                  H_Amount := ev_NumericField ev ''amount'',
                  H_Locked := \<not> ev_IsNone ev ''lock''\<rparr>)
           else Some change)"

definition NewMultiDecoder ::
  "(LedgerTransaction \<Rightarrow> LedgerEvent \<Rightarrow> ParsedEvent option) \<Rightarrow>
   (LedgerTransaction \<Rightarrow> LedgerEvent \<Rightarrow> IxTransfer option) \<Rightarrow>
   (LedgerTransaction \<Rightarrow> LedgerEvent \<Rightarrow> HoldingChange option) \<Rightarrow>
   LedgerTransaction \<Rightarrow> LedgerEvent \<Rightarrow> item option" where
  "NewMultiDecoder transferDecode offerDecode holdingDecode tx ev =
     (case transferDecode tx ev of
        Some e \<Rightarrow> Some (Item_Event e)
      | None \<Rightarrow>
          (case offerDecode tx ev of
             Some t \<Rightarrow> Some (Item_Transfer t)
           | None \<Rightarrow> map_option Item_Holding (holdingDecode tx ev)))"

section \<open>What the decoders guarantee\<close>

text \<open>
  The shape of a decoded event that the processor relies on: its type says which parties it has.
\<close>

definition wf_event :: "ParsedEvent \<Rightarrow> bool" where
  "wf_event e \<longleftrightarrow> event_type_of (PE_FromPartyID e) (PE_ToPartyID e) = Some (PE_EventType e)"

lemma wf_event_cases:
  assumes "wf_event e"
  obtains (mint) p where "PE_EventType e = EventMint" "PE_FromPartyID e = None" "PE_ToPartyID e = Some p"
  | (burn) p where "PE_EventType e = EventBurn" "PE_FromPartyID e = Some p" "PE_ToPartyID e = None"
  | (transfer) p q where "PE_EventType e = EventTransfer" "PE_FromPartyID e = Some p" "PE_ToPartyID e = Some q"
  using assms by (auto simp: wf_event_def event_type_of_def split: option.splits)

text \<open>
  The shape of a decoded offer: pending with no archive flag, or archived with a terminal status.
\<close>

definition wf_offer :: "IxTransfer \<Rightarrow> bool" where
  "wf_offer t \<longleftrightarrow> X_Kind t = TransferKindOffer \<and>
     (if X_Archived t then X_Status t \<in> {StatusCompleted, StatusCanceled, StatusRejected}
      else X_Status t = StatusPending)"

fun wf_item :: "item \<Rightarrow> bool" where
  "wf_item (Item_Event e) = wf_event e"
| "wf_item (Item_Transfer t) = wf_offer t"
| "wf_item (Item_Holding h) = True"

section \<open>The application's decoder and subscription\<close>

record IxConfig =
  IC_CIP56PackageID :: string
  IC_FilterMode :: string
  IC_Instruments :: "InstrumentKey list"
  IC_UtilityRegistryPackageID :: string
  IC_UtilityRegistryHoldingPackageID :: string

definition FilterModeAndKeys :: "IxConfig \<Rightarrow> FilterMode \<times> InstrumentKey list" where
  "FilterModeAndKeys c =
     (if IC_FilterMode c = ''whitelist'' then (FilterModeWhitelist, IC_Instruments c)
      else (FilterModeAll, []))"

definition indexer_decoder :: "IxConfig \<Rightarrow> LedgerTransaction \<Rightarrow> LedgerEvent \<Rightarrow> item option" where
  "indexer_decoder cfg =
     (let (filterMode, instruments) = FilterModeAndKeys cfg
      in NewMultiDecoder (NewTokenTransferDecoder filterMode instruments)
           (NewOfferDecoder (IC_UtilityRegistryPackageID cfg))
           (NewHoldingDecoder (IC_UtilityRegistryHoldingPackageID cfg)))"

definition indexerTemplateIDs :: "IxConfig \<Rightarrow> (string \<times> string \<times> string) list" where
  "indexerTemplateIDs cfg =
     [(IC_CIP56PackageID cfg, ''CIP56.Events'', ''TokenTransferEvent'')] @
     (if IC_UtilityRegistryPackageID cfg \<noteq> ''''
      then [(IC_UtilityRegistryPackageID cfg, ''Utility.Registry.App.V0.Model.Transfer'', ''TransferOffer'')]
      else []) @
     (if IC_UtilityRegistryHoldingPackageID cfg \<noteq> ''''
      then [(IC_UtilityRegistryHoldingPackageID cfg, ''Utility.Registry.Holding.V0.Holding'', ''Holding'')]
      else [])"

lemma transfer_decoder_wf:
  "NewTokenTransferDecoder mode allowed tx ev = Some e \<Longrightarrow> wf_event e"
  by (auto simp: NewTokenTransferDecoder_def wf_event_def Let_def split: if_splits option.splits)

lemma offer_decoder_wf: "NewOfferDecoder pkg tx ev = Some t \<Longrightarrow> wf_offer t"
  by (auto simp: NewOfferDecoder_def wf_offer_def offerTerminalStatus_def Let_def split: if_splits)

lemma decoder_wf: "indexer_decoder cfg tx ev = Some i \<Longrightarrow> wf_item i"
  by (auto simp: indexer_decoder_def NewMultiDecoder_def transfer_decoder_wf offer_decoder_wf
      split: option.splits prod.splits)

text \<open>
  C39: Everything the decoder emits has the shape the processor relies on.  A decoded token event is a
  mint with only a receiver, a burn with only a sender or a transfer with both; a decoded offer is
  pending, or archived with one of the three terminal statuses, never with an empty one.
\<close>

theorem decoded_items_wellformed:
  assumes "indexer_decoder cfg tx ev = Some i"
  shows "case i of
      Item_Event e \<Rightarrow> (PE_EventType e = EventMint \<and> PE_FromPartyID e = None \<and> PE_ToPartyID e \<noteq> None) \<or>
        (PE_EventType e = EventBurn \<and> PE_FromPartyID e \<noteq> None \<and> PE_ToPartyID e = None) \<or>
        (PE_EventType e = EventTransfer \<and> PE_FromPartyID e \<noteq> None \<and> PE_ToPartyID e \<noteq> None)
    | Item_Transfer t \<Rightarrow> X_Kind t = TransferKindOffer \<and>
        (if X_Archived t then X_Status t \<in> {StatusCompleted, StatusCanceled, StatusRejected}
         else X_Status t = StatusPending)
    | Item_Holding h \<Rightarrow> True"
  using decoder_wf[OF assms]
  by (cases i) (auto simp: wf_offer_def elim!: wf_event_cases)

definition demo_ix_config :: IxConfig where
  "demo_ix_config = \<lparr>IC_CIP56PackageID = ''#cip56'', IC_FilterMode = ''whitelist'',
     IC_Instruments = [\<lparr>IK_Admin = ''issuer'', IK_ID = ''DEMO''\<rparr>],
     IC_UtilityRegistryPackageID = ''#registry'', IC_UtilityRegistryHoldingPackageID = ''''\<rparr>"

definition demo_withdrawn :: LedgerEvent where
  "demo_withdrawn = \<lparr>le_ContractID = ''c1'', le_PackageID = ''p'',
     le_ModuleName = ''Utility.Registry.App.V0.Model.Transfer'', le_TemplateName = ''TransferOffer'',
     le_IsCreated = False, le_Choice = ''TransferInstruction_Withdraw'', le_fields = None\<rparr>"

definition demo_ledger_tx :: LedgerTransaction where
  "demo_ledger_tx = \<lparr>lt_UpdateID = ''u1'', lt_Offset = 7, lt_EffectiveTime = 100, lt_Events = [demo_withdrawn]\<rparr>"

theorem decoded_items_wellformed_witness:
  "\<exists>t. indexer_decoder demo_ix_config demo_ledger_tx demo_withdrawn = Some (Item_Transfer t) \<and>
     X_Kind t = TransferKindOffer \<and> X_Status t = StatusCanceled"
proof -
  obtain t where t: "indexer_decoder demo_ix_config demo_ledger_tx demo_withdrawn = Some (Item_Transfer t)"
    and st: "X_Status t = StatusCanceled"
    by (simp add: indexer_decoder_def NewMultiDecoder_def NewTokenTransferDecoder_def NewOfferDecoder_def
        FilterModeAndKeys_def demo_ix_config_def demo_ledger_tx_def demo_withdrawn_def offerTerminalStatus_def
        choiceInstructionAccept_def choiceInstructionWithdraw_def template_names)
  from decoded_items_wellformed[OF t] st t show ?thesis by simp
qed

text \<open>
  C40: The subscription covers the decoders, and a whitelist admits nothing else.  An event that the
  decoder turns into an item is of a template the stream subscribes to, and in whitelist mode a
  decoded token event is of a listed instrument, admin and identifier together.
\<close>

theorem decoded_events_subscribed:
  assumes "indexer_decoder cfg tx ev = Some i"
  shows "(le_ModuleName ev, le_TemplateName ev) \<in> snd ` set (indexerTemplateIDs cfg) \<and>
    (IC_FilterMode cfg = ''whitelist'' \<longrightarrow> (\<forall>e. i = Item_Event e \<longrightarrow>
       \<lparr>IK_Admin = PE_InstrumentAdmin e, IK_ID = PE_InstrumentID e\<rparr> \<in> set (IC_Instruments cfg)))"
  using assms
  by (auto simp: indexer_decoder_def NewMultiDecoder_def NewTokenTransferDecoder_def NewOfferDecoder_def
      NewHoldingDecoder_def FilterModeAndKeys_def indexerTemplateIDs_def template_names Let_def
      split: option.splits prod.splits if_splits)

theorem decoded_events_subscribed_witness:
  "(le_ModuleName demo_withdrawn, le_TemplateName demo_withdrawn) \<in> snd ` set (indexerTemplateIDs demo_ix_config)"
proof -
  obtain t where "indexer_decoder demo_ix_config demo_ledger_tx demo_withdrawn = Some (Item_Transfer t)"
    by (simp add: indexer_decoder_def NewMultiDecoder_def NewTokenTransferDecoder_def NewOfferDecoder_def
        FilterModeAndKeys_def demo_ix_config_def demo_ledger_tx_def demo_withdrawn_def template_names)
  from decoded_events_subscribed[OF this] show ?thesis by simp
qed

end
