(* ===== verification/Sql_Table.thy ===== *)
theory Sql_Table
  imports Go_Prelude
begin

text \<open>
  What the stores use of PostgreSQL through the Bun query builder: tables as lists of rows with a
  primary key, the statements the sources write, failing statements, and transactions.

  Every database call takes the next entry of the schedule \<open>pg_faults\<close>: the call may work, fail
  without effect, or take effect while its answer is lost.  An empty schedule means that
  everything works.  The error of a failed call comes from the driver and is none of the sentinel
  errors of the repository.
\<close>

section \<open>Tables\<close>

definition row_of :: "('r \<Rightarrow> 'k) \<Rightarrow> 'k \<Rightarrow> 'r list \<Rightarrow> 'r option" where
  "row_of key k rows = find (\<lambda>r. key r = k) rows"

text \<open>\<open>INSERT \<dots> ON CONFLICT (key) DO NOTHING\<close>.\<close>

definition insert_ignore :: "('r \<Rightarrow> 'k) \<Rightarrow> 'r \<Rightarrow> 'r list \<Rightarrow> 'r list" where
  "insert_ignore key r rows = (if row_of key (key r) rows = None then rows @ [r] else rows)"

text \<open>\<open>UPDATE \<dots> SET \<dots> WHERE p\<close>.\<close>

definition update_where :: "('r \<Rightarrow> bool) \<Rightarrow> ('r \<Rightarrow> 'r) \<Rightarrow> 'r list \<Rightarrow> 'r list" where
  "update_where p f rows = map (\<lambda>r. if p r then f r else r) rows"

text \<open>\<open>INSERT \<dots> ON CONFLICT (key) DO UPDATE SET \<dots>\<close>: the conflicting row is changed by \<open>f\<close>.\<close>

definition upsert :: "('r \<Rightarrow> 'k) \<Rightarrow> ('r \<Rightarrow> 'r) \<Rightarrow> 'r \<Rightarrow> 'r list \<Rightarrow> 'r list" where
  "upsert key f r rows =
     (if row_of key (key r) rows = None then rows @ [r]
      else update_where (\<lambda>x. key x = key r) f rows)"

definition delete_where :: "('r \<Rightarrow> bool) \<Rightarrow> 'r list \<Rightarrow> 'r list" where
  "delete_where p rows = filter (\<lambda>r. \<not> p r) rows"

text \<open>\<open>Limit(n)\<close> and \<open>Offset(n)\<close> of the builder write no clause unless \<open>n\<close> is positive.\<close>

definition limit_offset :: "int \<Rightarrow> int \<Rightarrow> 'r list \<Rightarrow> 'r list" where
  "limit_offset limit offset rows =
     (let rest = (if offset > 0 then drop (nat offset) rows else rows)
      in if limit > 0 then take (nat limit) rest else rest)"

definition unique_rows :: "('r \<Rightarrow> 'k) \<Rightarrow> 'r list \<Rightarrow> bool" where
  "unique_rows key rows \<longleftrightarrow> distinct (map key rows)"

lemma row_of_Nil [simp]: "row_of key k [] = None"
  by (simp add: row_of_def)

lemma row_of_Cons [simp]: "row_of key k (r # rows) = (if key r = k then Some r else row_of key k rows)"
  by (simp add: row_of_def)

lemma row_of_append:
  "row_of key k (xs @ ys) = (case row_of key k xs of None \<Rightarrow> row_of key k ys | Some r \<Rightarrow> Some r)"
  by (induction xs) auto

lemma row_of_key: "row_of key k rows = Some r \<Longrightarrow> key r = k"
  by (induction rows) (auto split: if_splits)

lemma row_of_mem: "row_of key k rows = Some r \<Longrightarrow> r \<in> set rows"
  by (induction rows) (auto split: if_splits)

lemma row_of_None: "row_of key k rows = None \<longleftrightarrow> k \<notin> key ` set rows"
  by (induction rows) auto

lemma row_of_unique: "unique_rows key rows \<Longrightarrow> r \<in> set rows \<Longrightarrow> row_of key (key r) rows = Some r"
  by (induction rows) (auto simp: unique_rows_def rev_image_eqI)

lemma row_of_insert_ignore:
  "row_of key k (insert_ignore key r rows) =
     (if k = key r \<and> row_of key k rows = None then Some r else row_of key k rows)"
  by (auto simp: insert_ignore_def row_of_append split: option.splits)

lemma row_of_update:
  assumes "\<And>r. key (f r) = key r"
  shows "row_of key k (update_where p f rows) = map_option (\<lambda>r. if p r then f r else r) (row_of key k rows)"
  using assms by (induction rows) (auto simp: update_where_def)

lemma row_of_update_key:
  assumes "\<And>r. key (f r) = key r"
  shows "row_of key k (update_where (\<lambda>r. key r = k') f rows) =
    (if k = k' then map_option f (row_of key k rows) else row_of key k rows)"
  using assms row_of_key[of key k rows] by (auto simp: row_of_update map_option_case split: option.splits)

lemma row_of_delete_key:
  "row_of key k (delete_where (\<lambda>r. key r = k') rows) = (if k = k' then None else row_of key k rows)"
  by (induction rows) (auto simp: delete_where_def)

lemma unique_insert_ignore [simp]: "unique_rows key (insert_ignore key r rows) = unique_rows key rows"
  by (auto simp: insert_ignore_def unique_rows_def row_of_None)

lemma unique_update [simp]:
  "(\<And>r. key (f r) = key r) \<Longrightarrow> unique_rows key (update_where p f rows) = unique_rows key rows"
  by (auto simp: unique_rows_def update_where_def intro!: arg_cong[where f = distinct])

lemma unique_upsert [simp]:
  "(\<And>x. key (f x) = key x) \<Longrightarrow> unique_rows key (upsert key f r rows) = unique_rows key rows"
  by (auto simp: upsert_def) (auto simp: unique_rows_def row_of_None)

lemma unique_delete [simp]: "unique_rows key rows \<Longrightarrow> unique_rows key (delete_where p rows)"
  by (simp add: unique_rows_def delete_where_def distinct_map_filter)

lemma unique_Nil [simp]: "unique_rows key []"
  by (simp add: unique_rows_def)

lemma row_of_upsert:
  assumes "\<And>x. key (f x) = key x"
  shows "row_of key k (upsert key f r rows) =
    (if k = key r then (case row_of key k rows of None \<Rightarrow> Some r | Some x \<Rightarrow> Some (f x))
     else row_of key k rows)"
  using assms by (auto simp: upsert_def row_of_append row_of_update_key split: option.splits)

lemma limit_offset_length: "limit > 0 \<Longrightarrow> length (limit_offset limit offset rows) \<le> nat limit"
  by (simp add: limit_offset_def Let_def)

lemma limit_offset_set: "set (limit_offset limit offset rows) \<subseteq> set rows"
  by (auto simp: limit_offset_def Let_def dest: in_set_takeD in_set_dropD)

lemma limit_offset_sorted: "sorted (map f rows) \<Longrightarrow> sorted (map f (limit_offset limit offset rows))"
  by (simp add: limit_offset_def Let_def sorted_wrt_take sorted_wrt_drop take_map[symmetric] drop_map[symmetric])

section \<open>Statements and transactions\<close>

datatype fault = Works | Fails string | LostAck string

record pg =
  pg_now :: time
  pg_faults :: "fault list"

definition pg_exec :: "('a pg_scheme, fault) state" where
  "pg_exec = State (\<lambda>w. case pg_faults w of
     [] \<Rightarrow> (Works, w)
   | f # fs \<Rightarrow> (f, w\<lparr>pg_faults := fs\<rparr>))"

definition exec :: "string \<Rightarrow> ('a pg_scheme \<Rightarrow> 'a pg_scheme) \<Rightarrow> ('a pg_scheme, goerr + unit) state" where
  "exec what f = do {
     o' \<leftarrow> pg_exec;
     case o' of
       Works \<Rightarrow> do { modify f; ret (Inr ()) }
     | Fails e \<Rightarrow> ret (Inl (Errorf what (Err e)))
     | LostAck e \<Rightarrow> do { modify f; ret (Inl (Errorf what (Err e))) } }"

text \<open>A statement whose \<open>RowsAffected\<close> the caller reads.\<close>

definition exec_rows ::
  "string \<Rightarrow> ('a pg_scheme \<Rightarrow> nat) \<Rightarrow> ('a pg_scheme \<Rightarrow> 'a pg_scheme) \<Rightarrow> ('a pg_scheme, goerr + nat) state" where
  "exec_rows what n f = do {
     o' \<leftarrow> pg_exec;
     k \<leftarrow> gets n;
     case o' of
       Works \<Rightarrow> do { modify f; ret (Inr k) }
     | Fails e \<Rightarrow> ret (Inl (Errorf what (Err e)))
     | LostAck e \<Rightarrow> do { modify f; ret (Inl (Errorf what (Err e))) } }"

definition query :: "string \<Rightarrow> ('a pg_scheme \<Rightarrow> 'b) \<Rightarrow> ('a pg_scheme, goerr + 'b) state" where
  "query what g = do {
     o' \<leftarrow> pg_exec;
     case o' of
       Works \<Rightarrow> gets (\<lambda>w. Inr (g w))
     | Fails e \<Rightarrow> ret (Inl (Errorf what (Err e)))
     | LostAck e \<Rightarrow> ret (Inl (Errorf what (Err e))) }"

text \<open>What a rollback keeps is the clock and the rest of the schedule.\<close>

definition rollback :: "'a pg_scheme \<Rightarrow> 'a pg_scheme \<Rightarrow> 'a pg_scheme" where
  "rollback before w = before\<lparr>pg_now := pg_now w, pg_faults := pg_faults w\<rparr>"

definition run_in_tx :: "('a pg_scheme, goerr + 'b) state \<Rightarrow> ('a pg_scheme, goerr + 'b) state" where
  "run_in_tx fn = do {
     b \<leftarrow> pg_exec;
     case b of
       Fails e \<Rightarrow> ret (Inl (Err e))
     | LostAck e \<Rightarrow> ret (Inl (Err e))
     | Works \<Rightarrow> do {
         before \<leftarrow> State_Monad.get;
         r \<leftarrow> fn;
         (case r of
            Inl e \<Rightarrow> do { modify (rollback before); ret (Inl e) }
          | Inr x \<Rightarrow> do {
              c \<leftarrow> pg_exec;
              (case c of
                 Works \<Rightarrow> ret (Inr x)
               | Fails e \<Rightarrow> do { modify (rollback before); ret (Inl (Err e)) }
               | LostAck e \<Rightarrow> ret (Inl (Err e))) }) } }"

text \<open>\<open>tables P\<close>: the predicate or view \<open>P\<close> looks at the tables only.\<close>

definition tables :: "('a pg_scheme \<Rightarrow> 'b) \<Rightarrow> bool" where
  "tables P \<longleftrightarrow> (\<forall>w t fs. P (w\<lparr>pg_now := t, pg_faults := fs\<rparr>) = P w)"

lemma tables_rollback: "tables P \<Longrightarrow> P (rollback before w) = P before"
  by (simp add: tables_def rollback_def)

lemma tables_faults: "tables P \<Longrightarrow> P (w\<lparr>pg_faults := fs\<rparr>) = P w"
  unfolding tables_def by (metis pg.surjective pg.update_convs(1,2))

lemma run_pg_exec [simp, go_run]:
  "run_state pg_exec w = (case pg_faults w of [] \<Rightarrow> (Works, w) | f # fs \<Rightarrow> (f, w\<lparr>pg_faults := fs\<rparr>))"
  by (simp add: pg_exec_def)

lemma pg_exec_tables:
  assumes "run_state pg_exec w = (o', w')" "tables P"
  shows "P w' = P w"
  using assms by (auto split: list.splits simp: tables_faults)

lemma exec_ok:
  assumes "run_state (exec what f) w = (Inr u, w')"
  obtains w1 where "w' = f w1" "run_state pg_exec w = (Works, w1)"
  using assms by (auto simp: exec_def split: list.splits fault.splits)

lemma exec_rows_ok:
  assumes "run_state (exec_rows what n f) w = (Inr k, w')"
  obtains w1 where "w' = f w1" "k = n w1" "run_state pg_exec w = (Works, w1)"
  using assms by (auto simp: exec_rows_def split: list.splits fault.splits)

lemma query_ok:
  assumes "run_state (query what g) w = (Inr x, w')"
  shows "run_state pg_exec w = (Works, w')" "x = g w'"
  using assms by (auto simp: query_def split: list.splits fault.splits)

lemma query_no_sentinel: "run_state (query what g) w = (Inl e, w') \<Longrightarrow> \<not> errors_Is e t"
  by (auto simp: query_def split: list.splits fault.splits)

lemma exec_no_sentinel: "run_state (exec what f) w = (Inl e, w') \<Longrightarrow> \<not> errors_Is e t"
  by (auto simp: exec_def split: list.splits fault.splits)

text \<open>
  A transaction either leaves the tables as they were and reports an error, or it ends with the
  tables its body produced; an error is possible then too, when the answer to the commit is lost.
\<close>

lemma run_in_tx_cases:
  assumes run: "run_state (run_in_tx fn) w = (r, w')"
  obtains (aborted) e where "r = Inl e" "\<And>P :: 'a pg_scheme \<Rightarrow> 'c. tables P \<Longrightarrow> P w' = P w"
  | (committed) w1 x w2 where "\<And>P :: 'a pg_scheme \<Rightarrow> 'c. tables P \<Longrightarrow> P w1 = P w"
      "run_state fn w1 = (Inr x, w2)" "\<And>P :: 'a pg_scheme \<Rightarrow> 'c. tables P \<Longrightarrow> P w' = P w2"
      "r = Inr x \<or> (\<exists>e. r = Inl e)"
proof -
  obtain b w1 where b: "run_state pg_exec w = (b, w1)" by (rule run_obtain)
  have w1: "P w1 = P w" if "tables P" for P :: "'a pg_scheme \<Rightarrow> 'c"
    using pg_exec_tables[OF b that] .
  show thesis
  proof (cases "b = Works")
    case False
    then obtain e where "r = Inl e" "w' = w1"
      using run b by (cases b) (auto simp: run_in_tx_def)
    with w1 aborted show thesis by blast
  next
    case True
    obtain rf w2 where f: "run_state fn w1 = (rf, w2)" by (rule run_obtain)
    obtain c w3 where c: "run_state pg_exec w2 = (c, w3)" by (rule run_obtain)
    show thesis
    proof (cases rf)
      case (Inl e)
      then have "r = Inl e" "w' = rollback w1 w2"
        using run b f True by (auto simp: run_in_tx_def State_Monad.get_def)
      with w1 aborted show thesis by (metis tables_rollback)
    next
      case (Inr x)
      show thesis
      proof (cases c)
        case (Fails e)
        then have "r = Inl (Err e)" "w' = rollback w1 w3"
          using run b f True c Inr by (auto simp: run_in_tx_def State_Monad.get_def)
        with w1 aborted show thesis by (metis tables_rollback)
      next
        case Works
        then have "r = Inr x" "w' = w3"
          using run b f True c Inr by (auto simp: run_in_tx_def State_Monad.get_def)
        then show thesis
          using committed[OF w1 f[unfolded Inr]] pg_exec_tables[OF c] by blast
      next
        case (LostAck e)
        then have "r = Inl (Err e)" "w' = w3"
          using run b f True c Inr by (auto simp: run_in_tx_def State_Monad.get_def)
        then show thesis
          using committed[OF w1 f[unfolded Inr]] pg_exec_tables[OF c] by blast
      qed
    qed
  qed
qed

end
