(* ===== verification/Indexer_Processor.thy ===== *)
theory Indexer_Processor
  imports Indexer_Decoder Sql_Table Encodings
begin

text \<open>
  \<open>pkg/indexer/engine/processor.go\<close>: one batch of decoded items per ledger transaction, written in
  one database transaction, retried until it is stored.  The store is the record \<open>EngineStore\<close>, its
  contract the locale \<open>engine_store\<close>; what a batch means is the function \<open>spec_batch\<close> on the
  abstract state \<open>view\<close>.
\<close>

section \<open>The store interface\<close>

record 'w EngineStore =
  S_LatestOffset :: "('w, goerr + int) state"
  S_RunInTx :: "('w, goerr + unit) state \<Rightarrow> ('w, goerr + unit) state"
  S_InsertEvent :: "ParsedEvent \<Rightarrow> ('w, goerr + bool) state"
  S_SaveOffset :: "int \<Rightarrow> ('w, goerr + unit) state"
  S_UpsertToken :: "IxToken \<Rightarrow> ('w, goerr + unit) state"
  S_ApplyBalanceDelta :: "string \<Rightarrow> string \<Rightarrow> string \<Rightarrow> string \<Rightarrow> ('w, goerr + unit) state"
  S_ApplySupplyDelta :: "string \<Rightarrow> string \<Rightarrow> string \<Rightarrow> ('w, goerr + unit) state"
  S_InsertTransfer :: "IxTransfer \<Rightarrow> ('w, goerr + unit) state"
  S_FinalizeTransfer :: "string \<Rightarrow> string \<Rightarrow> ('w, goerr + unit) state"
  S_InsertHolding :: "HoldingChange \<Rightarrow> ('w, goerr + unit) state"
  S_TakeHolding :: "string \<Rightarrow> ('w, goerr + HoldingChange option) state"

definition ErrNegativeBalance :: goerr where
  "ErrNegativeBalance = Sentinel ''negative balance''"

section \<open>The processor\<close>

definition tokenFromEvent :: "ParsedEvent \<Rightarrow> IxToken" where
  "tokenFromEvent e =
     \<lparr>K_InstrumentAdmin = PE_InstrumentAdmin e, K_InstrumentID = PE_InstrumentID e,
      K_Issuer = PE_Issuer e, K_TotalSupply = '''', K_HolderCount = 0,
      K_FirstSeenOffset = PE_LedgerOffset e, K_FirstSeenAt = PE_EffectiveTime e\<rparr>"

definition supplyDeltaFromEvent :: "ParsedEvent \<Rightarrow> (string \<times> string \<times> string) option" where
  "supplyDeltaFromEvent e =
     (if PE_EventType e = EventMint then Some (PE_InstrumentAdmin e, PE_InstrumentID e, PE_Amount e)
      else if PE_EventType e = EventBurn then Some (PE_InstrumentAdmin e, PE_InstrumentID e, CHR ''-'' # PE_Amount e)
      else None)"

definition isNegativeDelta :: "string \<Rightarrow> bool" where
  "isNegativeDelta delta \<longleftrightarrow> delta \<noteq> [] \<and> hd delta = CHR ''-''"

definition balanceUpdatesFromEvent :: "ParsedEvent \<Rightarrow> (string \<times> string) list" where
  "balanceUpdatesFromEvent e =
     (let neg = CHR ''-'' # PE_Amount e
      in if PE_EventType e = EventMint then
           (case PE_ToPartyID e of None \<Rightarrow> [] | Some t \<Rightarrow> [(t, PE_Amount e)])
         else if PE_EventType e = EventBurn then
           (case PE_FromPartyID e of None \<Rightarrow> [] | Some f \<Rightarrow> [(f, neg)])
         else if PE_EventType e = EventTransfer then
           (case (PE_FromPartyID e, PE_ToPartyID e) of
              (Some f, Some t) \<Rightarrow> [(f, neg), (t, PE_Amount e)]
            | _ \<Rightarrow> [])
         else [])"

definition apply_update :: "'w EngineStore \<Rightarrow> ParsedEvent \<Rightarrow> string \<times> string \<Rightarrow> ('w, goerr + unit) state" where
  "apply_update tx e u = do {
     r \<leftarrow> S_ApplyBalanceDelta tx (fst u) (PE_InstrumentAdmin e) (PE_InstrumentID e) (snd u);
     case r of
       Inr _ \<Rightarrow> ret (Inr ())
     | Inl err \<Rightarrow>
         if PE_EventType e = EventTransfer \<and> isNegativeDelta (snd u) \<and> errors_Is err ErrNegativeBalance
         then ret (Inr ())
         else ret (Inl (Errorf ''apply balance delta'' err)) }"

definition direct_transfer :: "ParsedEvent \<Rightarrow> string \<Rightarrow> string \<Rightarrow> IxTransfer" where
  "direct_transfer e f t =
     \<lparr>X_ContractID = PE_ContractID e, X_Kind = TransferKindDirect, X_Status = StatusCompleted,
      X_FromPartyID = f, X_ToPartyID = t, X_InstrumentAdmin = PE_InstrumentAdmin e,
      X_InstrumentID = PE_InstrumentID e, X_Amount = PE_Amount e, X_ExpiresAt = None,
      X_TxID = PE_TxID e, X_LedgerOffset = PE_LedgerOffset e, X_CreatedAt = PE_EffectiveTime e,
      X_Archived = False\<rparr>"

definition record_direct :: "'w EngineStore \<Rightarrow> ParsedEvent \<Rightarrow> ('w, goerr + unit) state" where
  "record_direct tx e =
     (case (PE_FromPartyID e, PE_ToPartyID e) of
        (Some f, Some t) \<Rightarrow>
          if PE_EventType e = EventTransfer then do {
            r \<leftarrow> S_InsertTransfer tx (direct_transfer e f t);
            case r of
              Inl err \<Rightarrow> ret (Inl (Errorf ''insert direct transfer'' err))
            | Inr _ \<Rightarrow> ret (Inr ()) }
          else ret (Inr ())
      | _ \<Rightarrow> ret (Inr ()))"

definition processTransferEvent :: "'w EngineStore \<Rightarrow> ParsedEvent \<Rightarrow> ('w, goerr + unit) state" where
  "processTransferEvent tx e = do {
     ins \<leftarrow> S_InsertEvent tx e;
     case ins of
       Inl err \<Rightarrow> ret (Inl (Errorf ''insert event'' err))
     | Inr inserted \<Rightarrow>
         if \<not> inserted then ret (Inr ())
         else do {
           up \<leftarrow> S_UpsertToken tx (tokenFromEvent e);
           (case up of
              Inl err \<Rightarrow> ret (Inl (Errorf ''upsert token'' err))
            | Inr _ \<Rightarrow> do {
                sup \<leftarrow> (case supplyDeltaFromEvent e of
                         None \<Rightarrow> ret (Inr ())
                       | Some (admin, i, delta) \<Rightarrow> S_ApplySupplyDelta tx admin i delta);
                (case sup of
                   Inl err \<Rightarrow> ret (Inl (Errorf ''apply supply delta'' err))
                 | Inr _ \<Rightarrow> do {
                     bal \<leftarrow> for_err (balanceUpdatesFromEvent e) (apply_update tx e);
                     (case bal of
                        Inl err \<Rightarrow> ret (Inl err)
                      | Inr _ \<Rightarrow> record_direct tx e) }) }) } }"

definition processHoldingChange :: "'w EngineStore \<Rightarrow> HoldingChange \<Rightarrow> ('w, goerr + unit) state" where
  "processHoldingChange tx h =
     (if H_IsArchived h then do {
        t \<leftarrow> S_TakeHolding tx (H_ContractID h);
        case t of
          Inl err \<Rightarrow> ret (Inl (Errorf (''take holding '' @ H_ContractID h) err))
        | Inr None \<Rightarrow> ret (Inr ())
        | Inr (Some stored) \<Rightarrow> do {
            r \<leftarrow> S_ApplyBalanceDelta tx (H_Owner stored) (H_InstrumentAdmin stored) (H_InstrumentID stored)
                  (CHR ''-'' # H_Amount stored);
            (case r of
               Inl err \<Rightarrow> if errors_Is err ErrNegativeBalance then ret (Inr ())
                          else ret (Inl (Errorf ''apply holding archive delta'' err))
             | Inr _ \<Rightarrow> ret (Inr ())) } }
      else if H_Owner h = '''' \<or> H_InstrumentID h = '''' \<or> H_InstrumentAdmin h = '''' then ret (Inr ())
      else if H_Locked h then ret (Inr ())
      else do {
        i \<leftarrow> S_InsertHolding tx h;
        case i of
          Inl err \<Rightarrow> ret (Inl (Errorf (''insert holding '' @ H_ContractID h) err))
        | Inr _ \<Rightarrow> do {
            r \<leftarrow> S_ApplyBalanceDelta tx (H_Owner h) (H_InstrumentAdmin h) (H_InstrumentID h) (H_Amount h);
            (case r of
               Inl err \<Rightarrow> ret (Inl (Errorf ''apply holding create delta'' err))
             | Inr _ \<Rightarrow> ret (Inr ())) } })"

definition archived_status :: "IxTransfer \<Rightarrow> string" where
  "archived_status t = (if X_Status t = '''' then StatusCompleted else X_Status t)"

fun process_item :: "'w EngineStore \<Rightarrow> item \<Rightarrow> ('w, goerr + unit) state" where
  "process_item tx (Item_Event e) = processTransferEvent tx e"
| "process_item tx (Item_Transfer t) =
     (if X_Archived t then do {
        r \<leftarrow> S_FinalizeTransfer tx (X_ContractID t) (archived_status t);
        case r of
          Inl err \<Rightarrow> ret (Inl (Errorf (''finalize transfer '' @ X_ContractID t) err))
        | Inr _ \<Rightarrow> ret (Inr ()) }
      else do {
        r \<leftarrow> S_InsertTransfer tx t;
        case r of
          Inl err \<Rightarrow> ret (Inl (Errorf (''insert transfer '' @ X_ContractID t) err))
        | Inr _ \<Rightarrow> ret (Inr ()) })"
| "process_item tx (Item_Holding h) = processHoldingChange tx h"

definition batch_body :: "'w EngineStore \<Rightarrow> item Batch \<Rightarrow> ('w, goerr + unit) state" where
  "batch_body tx b = do {
     r \<leftarrow> for_err (b_Items b) (process_item tx);
     case r of
       Inl e \<Rightarrow> ret (Inl e)
     | Inr _ \<Rightarrow> do {
         s \<leftarrow> S_SaveOffset tx (b_Offset b);
         (case s of
            Inl e \<Rightarrow> ret (Inl (Errorf ''save offset'' e))
          | Inr _ \<Rightarrow> ret (Inr ())) } }"

definition processBatch :: "'w EngineStore \<Rightarrow> item Batch \<Rightarrow> ('w, goerr + unit) state" where
  "processBatch store b = do {
     r \<leftarrow> S_RunInTx store (batch_body store b);
     case r of
       Inl e \<Rightarrow> ret (Inl (Errorf (''tx at offset '' @ FormatInt (b_Offset b)) e))
     | Inr _ \<Rightarrow> ret (Inr ()) }"

definition processorRetryBaseDelay :: int where "processorRetryBaseDelay = 5 * 10 ^ 9"
definition processorRetryMaxDelay :: int where "processorRetryMaxDelay = 60 * 10 ^ 9"

text \<open>
  The retry loop, with \<open>fuel\<close> the number of attempts before the context ends.  The result is
  \<open>None\<close> when the context ended, otherwise the delays slept before the attempt that stored the batch.
\<close>

fun retry_loop :: "'w EngineStore \<Rightarrow> item Batch \<Rightarrow> nat \<Rightarrow> int \<Rightarrow> ('w, int list option) state" where
  "retry_loop store b 0 delay = ret None"
| "retry_loop store b (Suc fuel) delay = do {
     r \<leftarrow> processBatch store b;
     case r of
       Inr _ \<Rightarrow> ret (Some [])
     | Inl _ \<Rightarrow> do {
         rest \<leftarrow> retry_loop store b fuel (min (delay * 2) processorRetryMaxDelay);
         ret (map_option (\<lambda>ds. delay # ds) rest) } }"

definition processBatchWithRetry :: "'w EngineStore \<Rightarrow> item Batch \<Rightarrow> nat \<Rightarrow> ('w, int list option) state" where
  "processBatchWithRetry store b fuel = retry_loop store b fuel processorRetryBaseDelay"

text \<open>
  \<open>Run\<close>: the batches the fetcher delivers from the loaded offset.  \<open>Inr\<close> of the number of batches
  stored, or the error of loading the offset.
\<close>

fun run_batches :: "'w EngineStore \<Rightarrow> item Batch list \<Rightarrow> nat \<Rightarrow> ('w, nat) state" where
  "run_batches store [] fuel = ret 0"
| "run_batches store (b # bs) fuel = do {
     r \<leftarrow> processBatchWithRetry store b fuel;
     case r of
       None \<Rightarrow> ret 0
     | Some _ \<Rightarrow> do { n \<leftarrow> run_batches store bs fuel; ret (Suc n) } }"

definition Run :: "'w EngineStore \<Rightarrow> (int \<Rightarrow> item Batch list) \<Rightarrow> nat \<Rightarrow> ('w, goerr + nat) state" where
  "Run store fetch fuel = do {
     o' \<leftarrow> S_LatestOffset store;
     case o' of
       Inl e \<Rightarrow> ret (Inl (Errorf ''load resume offset'' e))
     | Inr offset \<Rightarrow> do { n \<leftarrow> run_batches store (fetch offset) fuel; ret (Inr n) } }"

section \<open>What a batch means\<close>

text \<open>
  The abstract state: the events on record, supply and holder count of each token row, the balance
  of each party and instrument (0 without a row), the active holdings, the transfers and the offset.
  Amounts are rational numbers; \<open>tval\<close> is the value of an amount's text.
\<close>

type_synonym instrument = "string \<times> string"

record view =
  v_events :: "string \<rightharpoonup> ParsedEvent"
  v_supply :: "instrument \<rightharpoonup> rat"
  v_holders :: "instrument \<Rightarrow> int"
  v_bal :: "string \<times> instrument \<Rightarrow> rat"
  v_holdings :: "string \<rightharpoonup> HoldingChange"
  v_transfers :: "string \<rightharpoonup> IxTransfer"
  v_offset :: int

definition holder_step :: "rat \<Rightarrow> rat \<Rightarrow> int" where
  "holder_step old new = (if old = 0 \<and> new \<noteq> 0 then 1 else if old \<noteq> 0 \<and> new = 0 then - 1 else 0)"

definition spec_balance :: "string \<times> instrument \<Rightarrow> rat \<Rightarrow> view \<Rightarrow> view option" where
  "spec_balance k d v =
     (let new = v_bal v k + d
      in if new < 0 then None
         else Some (v\<lparr>v_bal := (v_bal v)(k := new),
                v_holders := (if v_supply v (snd k) = None then v_holders v
                  else (v_holders v)(snd k := v_holders v (snd k) + holder_step (v_bal v k) new))\<rparr>))"

definition spec_token :: "instrument \<Rightarrow> view \<Rightarrow> view" where
  "spec_token i v =
     (if v_supply v i = None
      then v\<lparr>v_supply := (v_supply v)(i \<mapsto> 0), v_holders := (v_holders v)(i := 0)\<rparr> else v)"

definition spec_supply :: "instrument \<Rightarrow> rat \<Rightarrow> view \<Rightarrow> view" where
  "spec_supply i d v = v\<lparr>v_supply := (v_supply v)(i := map_option (\<lambda>x. x + d) (v_supply v i))\<rparr>"

definition spec_insert_transfer :: "IxTransfer \<Rightarrow> view \<Rightarrow> view" where
  "spec_insert_transfer t v =
     (if v_transfers v (X_ContractID t) = None
      then v\<lparr>v_transfers := (v_transfers v)(X_ContractID t \<mapsto> t\<lparr>X_Archived := False\<rparr>)\<rparr> else v)"

definition spec_finalize :: "string \<Rightarrow> string \<Rightarrow> view \<Rightarrow> view" where
  "spec_finalize c st v =
     (case v_transfers v c of
        Some t \<Rightarrow> if X_Status t = StatusPending then v\<lparr>v_transfers := (v_transfers v)(c \<mapsto> t\<lparr>X_Status := st\<rparr>)\<rparr> else v
      | None \<Rightarrow> v)"

definition event_instrument :: "ParsedEvent \<Rightarrow> instrument" where
  "event_instrument e = (PE_InstrumentAdmin e, PE_InstrumentID e)"

text \<open>A new event, of the shape the decoder guarantees: mint, burn or transfer.\<close>

definition spec_new_event :: "(string \<Rightarrow> rat option) \<Rightarrow> ParsedEvent \<Rightarrow> view \<Rightarrow> view option" where
  "spec_new_event tval e v =
     (let i = event_instrument e;
          v1 = spec_token i (v\<lparr>v_events := (v_events v)(PE_ContractID e \<mapsto> e)\<rparr>);
          plus = tval (PE_Amount e);
          minus = tval (CHR ''-'' # PE_Amount e)
      in case (PE_FromPartyID e, PE_ToPartyID e) of
           (None, Some t) \<Rightarrow> Option.bind plus (\<lambda>a. spec_balance (t, i) a (spec_supply i a v1))
         | (Some f, None) \<Rightarrow> Option.bind minus (\<lambda>d. spec_balance (f, i) d (spec_supply i d v1))
         | (Some f, Some t) \<Rightarrow> Option.bind minus (\<lambda>d.
             let v2 = (case spec_balance (f, i) d v1 of None \<Rightarrow> v1 | Some v2 \<Rightarrow> v2)
             in Option.bind plus (\<lambda>a. map_option (spec_insert_transfer (direct_transfer e f t))
                  (spec_balance (t, i) a v2)))
         | (None, None) \<Rightarrow> None)"

definition spec_event :: "(string \<Rightarrow> rat option) \<Rightarrow> ParsedEvent \<Rightarrow> view \<Rightarrow> view option" where
  "spec_event tval e v = (if v_events v (PE_ContractID e) \<noteq> None then Some v else spec_new_event tval e v)"

definition stored_holding :: "HoldingChange \<Rightarrow> HoldingChange" where
  "stored_holding h = h\<lparr>H_IsArchived := False, H_Locked := False\<rparr>"

definition holding_key :: "HoldingChange \<Rightarrow> string \<times> instrument" where
  "holding_key h = (H_Owner h, (H_InstrumentAdmin h, H_InstrumentID h))"

definition spec_holding :: "(string \<Rightarrow> rat option) \<Rightarrow> HoldingChange \<Rightarrow> view \<Rightarrow> view option" where
  "spec_holding tval h v =
     (if H_IsArchived h then
        (case v_holdings v (H_ContractID h) of
           None \<Rightarrow> Some v
         | Some st \<Rightarrow>
             let v1 = v\<lparr>v_holdings := (v_holdings v)(H_ContractID h := None)\<rparr>
             in Option.bind (tval (CHR ''-'' # H_Amount st)) (\<lambda>d.
                  Some (case spec_balance (holding_key st) d v1 of None \<Rightarrow> v1 | Some v2 \<Rightarrow> v2)))
      else if H_Owner h = '''' \<or> H_InstrumentID h = '''' \<or> H_InstrumentAdmin h = '''' \<or> H_Locked h then Some v
      else
        let v1 = (if v_holdings v (H_ContractID h) = None
                  then v\<lparr>v_holdings := (v_holdings v)(H_ContractID h \<mapsto> stored_holding h)\<rparr> else v)
        in Option.bind (tval (H_Amount h)) (\<lambda>a. spec_balance (holding_key h) a v1))"

fun spec_item :: "(string \<Rightarrow> rat option) \<Rightarrow> item \<Rightarrow> view \<Rightarrow> view option" where
  "spec_item tval (Item_Event e) v = spec_event tval e v"
| "spec_item tval (Item_Transfer t) v =
     Some (if X_Archived t then spec_finalize (X_ContractID t) (archived_status t) v else spec_insert_transfer t v)"
| "spec_item tval (Item_Holding h) v = spec_holding tval h v"

fun spec_items :: "(string \<Rightarrow> rat option) \<Rightarrow> item list \<Rightarrow> view \<Rightarrow> view option" where
  "spec_items tval [] v = Some v"
| "spec_items tval (i # is) v = Option.bind (spec_item tval i v) (spec_items tval is)"

definition spec_batch :: "(string \<Rightarrow> rat option) \<Rightarrow> item Batch \<Rightarrow> view \<Rightarrow> view option" where
  "spec_batch tval b v = map_option (\<lambda>v. v\<lparr>v_offset := b_Offset b\<rparr>) (spec_items tval (b_Items b) v)"

section \<open>The contract of the store\<close>

text \<open>
  \<open>inv\<close> is the store's invariant, \<open>view\<close> what its tables say.  Each law speaks of a call that
  succeeds; a call that fails makes the enclosing transaction fail, except for a balance that
  would become negative, which the processor may tolerate and which must then leave the tables
  alone.
\<close>

locale engine_store =
  fixes S :: "'w EngineStore" and inv :: "'w \<Rightarrow> bool" and view :: "'w \<Rightarrow> view"
    and tval :: "string \<Rightarrow> rat option"
  assumes latest_law: "run_state (S_LatestOffset S) w = (ro, w') \<Longrightarrow> inv w \<Longrightarrow>
      inv w' \<and> view w' = view w \<and> (\<forall>n. ro = Inr n \<longrightarrow> n = v_offset (view w))"
    and tx_law: "run_state (S_RunInTx S m) w = (r, w') \<Longrightarrow> inv w \<Longrightarrow>
      (\<And>w1 w2. inv w1 \<Longrightarrow> run_state m w1 = (Inr (), w2) \<Longrightarrow> inv w2) \<Longrightarrow>
      inv w' \<and> ((\<exists>er. r = Inl er) \<and> view w' = view w \<or>
        (\<exists>w1 w2. inv w1 \<and> view w1 = view w \<and> run_state m w1 = (Inr (), w2) \<and> view w' = view w2))"
    and event_law: "run_state (S_InsertEvent S ev) w = (Inr b, w') \<Longrightarrow> inv w \<Longrightarrow>
      inv w' \<and> (b \<longleftrightarrow> v_events (view w) (PE_ContractID ev) = None) \<and>
      view w' = (if b then (view w)\<lparr>v_events := (v_events (view w))(PE_ContractID ev \<mapsto> ev)\<rparr> else view w)"
    and token_law: "run_state (S_UpsertToken S tk) w = (Inr u, w') \<Longrightarrow> inv w \<Longrightarrow>
      inv w' \<and> view w' = spec_token (K_InstrumentAdmin tk, K_InstrumentID tk) (view w)"
    and supply_law: "run_state (S_ApplySupplyDelta S a i d) w = (Inr u, w') \<Longrightarrow> inv w \<Longrightarrow>
      v_supply (view w) (a, i) \<noteq> None \<Longrightarrow> tval d = Some x \<Longrightarrow>
      inv w' \<and> view w' = spec_supply (a, i) x (view w)"
    and delta_law: "run_state (S_ApplyBalanceDelta S p a i d) w = (Inr u, w') \<Longrightarrow> \<exists>x. tval d = Some x"
    and balance_law: "run_state (S_ApplyBalanceDelta S p a i d) w = (Inr u, w') \<Longrightarrow> inv w \<Longrightarrow>
      inv w' \<and> (\<exists>x. tval d = Some x \<and> spec_balance (p, (a, i)) x (view w) = Some (view w'))"
    and negative_law: "run_state (S_ApplyBalanceDelta S p a i d) w = (Inl er, w') \<Longrightarrow> inv w \<Longrightarrow>
      errors_Is er ErrNegativeBalance \<Longrightarrow>
      inv w' \<and> view w' = view w \<and> (\<exists>x. tval d = Some x \<and> spec_balance (p, (a, i)) x (view w) = None)"
    and transfer_law: "run_state (S_InsertTransfer S t) w = (Inr u, w') \<Longrightarrow> inv w \<Longrightarrow>
      inv w' \<and> view w' = spec_insert_transfer t (view w)"
    and finalize_law: "run_state (S_FinalizeTransfer S c st) w = (Inr u, w') \<Longrightarrow> inv w \<Longrightarrow>
      inv w' \<and> view w' = spec_finalize c st (view w)"
    and holding_law: "run_state (S_InsertHolding S h) w = (Inr u, w') \<Longrightarrow> inv w \<Longrightarrow>
      inv w' \<and> view w' = (if v_holdings (view w) (H_ContractID h) = None
        then (view w)\<lparr>v_holdings := (v_holdings (view w))(H_ContractID h \<mapsto> stored_holding h)\<rparr> else view w)"
    and take_law: "run_state (S_TakeHolding S c) w = (Inr o', w') \<Longrightarrow> inv w \<Longrightarrow>
      inv w' \<and> o' = v_holdings (view w) c \<and>
      view w' = (view w)\<lparr>v_holdings := (v_holdings (view w))(c := None)\<rparr>"
    and offset_law: "run_state (S_SaveOffset S n) w = (Inr u, w') \<Longrightarrow> inv w \<Longrightarrow>
      inv w' \<and> view w' = (view w)\<lparr>v_offset := n\<rparr>"
    and sign_law: "tval (CHR ''-'' # s) = Some x \<Longrightarrow> tval s = Some (- x) \<and> x \<le> 0 \<and> \<not> isNegativeDelta s"
begin

lemma apply_update_law:
  assumes run: "run_state (apply_update S e u) w = (Inr r, w')" and inv: "inv w"
  shows "inv w' \<and> (\<exists>x. tval (snd u) = Some x \<and>
    (case spec_balance (fst u, event_instrument e) x (view w) of
       Some v \<Rightarrow> view w' = v
     | None \<Rightarrow> PE_EventType e = EventTransfer \<and> isNegativeDelta (snd u) \<and> view w' = view w))"
proof -
  obtain q w1 where q: "run_state (S_ApplyBalanceDelta S (fst u) (PE_InstrumentAdmin e) (PE_InstrumentID e) (snd u)) w = (q, w1)"
    by (rule run_obtain)
  show ?thesis
  proof (cases q)
    case (Inl err)
    with run q have "PE_EventType e = EventTransfer \<and> isNegativeDelta (snd u) \<and> errors_Is err ErrNegativeBalance"
      "w' = w1" by (auto simp: apply_update_def split: if_splits)
    with negative_law[OF q[unfolded Inl] inv] show ?thesis by (auto simp: event_instrument_def)
  next
    case (Inr x)
    with run q have "w' = w1" by (auto simp: apply_update_def)
    with balance_law[OF q[unfolded Inr] inv] show ?thesis by (auto simp: event_instrument_def)
  qed
qed

end

context engine_store
begin

lemma record_direct_law:
  assumes "run_state (record_direct S e) w = (Inr r, w')" "inv w"
  shows "inv w' \<and> view w' = (case (PE_FromPartyID e, PE_ToPartyID e) of
      (Some f, Some t) \<Rightarrow> if PE_EventType e = EventTransfer then spec_insert_transfer (direct_transfer e f t) (view w)
                        else view w
    | _ \<Rightarrow> view w)"
proof (cases "PE_EventType e = EventTransfer \<and> PE_FromPartyID e \<noteq> None \<and> PE_ToPartyID e \<noteq> None")
  case True
  then obtain f t where ft: "PE_FromPartyID e = Some f" "PE_ToPartyID e = Some t" by blast
  obtain q w1 where q: "run_state (S_InsertTransfer S (direct_transfer e f t)) w = (q, w1)" by (rule run_obtain)
  with assms(1) ft True have "q = Inr ()" "w' = w1"
    by (auto simp: record_direct_def split: sum.splits)
  with transfer_law[of "direct_transfer e f t" w "()" w1] q assms(2) ft True show ?thesis by simp
next
  case False
  with assms show ?thesis by (auto simp: record_direct_def split: option.splits)
qed

lemma apply_update_delta:
  assumes "run_state (apply_update S e u) w = (Inr r, w')" "PE_EventType e \<noteq> EventTransfer"
  obtains x where "tval (snd u) = Some x"
proof -
  obtain q w1 where "run_state (S_ApplyBalanceDelta S (fst u) (PE_InstrumentAdmin e) (PE_InstrumentID e) (snd u)) w = (q, w1)"
    by (rule run_obtain)
  moreover from this assms obtain y where "q = Inr y" by (cases q) (auto simp: apply_update_def)
  ultimately show thesis using delta_law that by blast
qed

text \<open>
  The three steps before the balances: event, token row, supply.  The database adds more texts
  than the decimals of the processor (\<open>NaN\<close> is a number to it); such a delta does not get past the
  balance update.
\<close>

lemma event_steps:
  assumes run: "run_state (processTransferEvent S e) w = (Inr r, w')" and inv: "inv w"
  obtains (old) "v_events (view w) (PE_ContractID e) \<noteq> None" "inv w'" "view w' = view w"
  | (new) w3 w4 where "v_events (view w) (PE_ContractID e) = None"
      "case supplyDeltaFromEvent e of
         None \<Rightarrow> inv w3 \<and> view w3 = spec_token (event_instrument e)
           ((view w)\<lparr>v_events := (v_events (view w))(PE_ContractID e \<mapsto> e)\<rparr>)
       | Some (a, i, d) \<Rightarrow> (\<forall>x. tval d = Some x \<longrightarrow> inv w3 \<and>
           view w3 = spec_supply (a, i) x (spec_token (event_instrument e)
             ((view w)\<lparr>v_events := (v_events (view w))(PE_ContractID e \<mapsto> e)\<rparr>)))"
      "run_state (for_err (balanceUpdatesFromEvent e) (apply_update S e)) w3 = (Inr (), w4)"
      "run_state (record_direct S e) w4 = (Inr (), w')"
proof -
  obtain ins w1 where ins: "run_state (S_InsertEvent S e) w = (ins, w1)" by (rule run_obtain)
  obtain up w2 where up: "run_state (S_UpsertToken S (tokenFromEvent e)) w1 = (up, w2)" by (rule run_obtain)
  let ?sup = "case supplyDeltaFromEvent e of None \<Rightarrow> ret (Inr ()) | Some (a, i, d) \<Rightarrow> S_ApplySupplyDelta S a i d"
  obtain sup w3 where sup: "run_state ?sup w2 = (sup, w3)" by (rule run_obtain)
  obtain bal w4 where bal: "run_state (for_err (balanceUpdatesFromEvent e) (apply_update S e)) w3 = (bal, w4)"
    by (rule run_obtain)
  from run ins obtain b where b: "ins = Inr b"
    by (cases ins) (auto simp: processTransferEvent_def)
  note el = event_law[OF ins[unfolded b] inv]
  show thesis
  proof (cases b)
    case False
    with run ins b have "w' = w1" by (auto simp: processTransferEvent_def)
    with el False show thesis by (intro old) auto
  next
    case True
    from run ins b True up sup bal have ok: "up = Inr ()" "sup = Inr ()" "bal = Inr ()"
      "run_state (record_direct S e) w4 = (Inr (), w')"
      by (auto simp: processTransferEvent_def split: sum.splits)
    have inv1: "inv w1" using el by blast
    note tl = token_law[OF up[unfolded ok(1)] inv1]
    let ?v = "(view w)\<lparr>v_events := (v_events (view w))(PE_ContractID e \<mapsto> e)\<rparr>"
    have v2: "view w2 = spec_token (event_instrument e) ?v"
      using tl el True by (simp add: tokenFromEvent_def event_instrument_def)
    then have row: "v_supply (view w2) (event_instrument e) \<noteq> None"
      by (simp add: spec_token_def)
    have "(case supplyDeltaFromEvent e of None \<Rightarrow> inv w3 \<and> view w3 = view w2
       | Some (a, i, d) \<Rightarrow> (\<forall>x. tval d = Some x \<longrightarrow> inv w3 \<and> view w3 = spec_supply (a, i) x (view w2)))"
    proof (cases "supplyDeltaFromEvent e")
      case None
      with sup tl show ?thesis by simp
    next
      case (Some s)
      then obtain d where s: "s = (PE_InstrumentAdmin e, PE_InstrumentID e, d)"
        by (auto simp: supplyDeltaFromEvent_def split: if_splits)
      have "run_state (S_ApplySupplyDelta S (PE_InstrumentAdmin e) (PE_InstrumentID e) d) w2 = (Inr (), w3)"
        using sup Some s ok by simp
      from supply_law[OF this] tl row Some s show ?thesis by (simp add: event_instrument_def)
    qed
    then show thesis
      using el True bal ok v2 by (intro new[of w3 w4]) (auto split: option.splits prod.splits)
  qed
qed

lemma processTransferEvent_law:
  assumes run: "run_state (processTransferEvent S e) w = (Inr r, w')" and inv: "inv w" and wf: "wf_event e"
  shows "inv w' \<and> spec_event tval e (view w) = Some (view w')"
  using run inv
proof (cases rule: event_steps)
  case old
  then show ?thesis by (simp add: spec_event_def)
next
  case (new w3 w4)
  let ?i = "event_instrument e"
  let ?v1 = "spec_token ?i ((view w)\<lparr>v_events := (v_events (view w))(PE_ContractID e \<mapsto> e)\<rparr>)"
  have types: "EventMint \<noteq> EventBurn" "EventMint \<noteq> EventTransfer" "EventBurn \<noteq> EventTransfer"
    by (simp_all add: indexer_consts)
  from wf show ?thesis
  proof (cases rule: wf_event_cases)
    case (mint p)
    have up: "run_state (apply_update S e (p, PE_Amount e)) w3 = (Inr (), w4)"
      using new(3) mint by (auto simp: balanceUpdatesFromEvent_def split: prod.splits sum.splits)
    then obtain a where "tval (PE_Amount e) = Some a"
      using mint types by (auto elim: apply_update_delta)
    with new(2) mint have a: "tval (PE_Amount e) = Some a" "view w3 = spec_supply ?i a ?v1" and inv3: "inv w3"
      by (auto simp: supplyDeltaFromEvent_def event_instrument_def)
    from apply_update_law[OF up inv3] mint a(1) types
    have "inv w4" "spec_balance (p, ?i) a (view w3) = Some (view w4)"
      by (auto split: option.splits)
    with record_direct_law[OF new(4)] mint a new(1) show ?thesis
      by (simp add: spec_event_def spec_new_event_def Let_def)
  next
    case (burn p)
    have up: "run_state (apply_update S e (p, CHR ''-'' # PE_Amount e)) w3 = (Inr (), w4)"
      using new(3) burn types by (auto simp: balanceUpdatesFromEvent_def split: prod.splits sum.splits)
    then obtain d where "tval (CHR ''-'' # PE_Amount e) = Some d"
      using burn types by (auto elim: apply_update_delta)
    with new(2) burn types have d: "tval (CHR ''-'' # PE_Amount e) = Some d" "view w3 = spec_supply ?i d ?v1"
      and inv3: "inv w3" by (auto simp: supplyDeltaFromEvent_def event_instrument_def)
    from apply_update_law[OF up inv3] burn d(1) types
    have "inv w4" "spec_balance (p, ?i) d (view w3) = Some (view w4)"
      by (auto split: option.splits)
    with record_direct_law[OF new(4)] burn d new(1) show ?thesis
      by (simp add: spec_event_def spec_new_event_def Let_def)
  next
    case (transfer p q)
    have v3: "view w3 = ?v1" and inv3: "inv w3"
      using new(2) transfer types by (simp_all add: supplyDeltaFromEvent_def split: if_splits)
    obtain r5 w5 where w5: "run_state (apply_update S e (p, CHR ''-'' # PE_Amount e)) w3 = (r5, w5)"
      by (rule run_obtain)
    have r5: "r5 = Inr ()" and w4: "run_state (apply_update S e (q, PE_Amount e)) w5 = (Inr (), w4)"
      using new(3) transfer types w5
      by (auto simp: balanceUpdatesFromEvent_def split: prod.splits sum.splits)
    from apply_update_law[OF w5[unfolded r5] inv3] obtain d where inv5: "inv w5"
      and d: "tval (CHR ''-'' # PE_Amount e) = Some d"
        "view w5 = (case spec_balance (p, ?i) d ?v1 of None \<Rightarrow> ?v1 | Some v2 \<Rightarrow> v2)"
      by (auto simp: v3 split: option.splits)
    from apply_update_law[OF w4 inv5] sign_law[OF d(1)] obtain a where "inv w4"
      "tval (PE_Amount e) = Some a" "spec_balance (q, ?i) a (view w5) = Some (view w4)"
      by (auto split: option.splits)
    with record_direct_law[OF new(4)] transfer d new(1) show ?thesis
      by (simp add: spec_event_def spec_new_event_def Let_def)
  qed
qed

end

context engine_store
begin

lemma take_step:
  assumes run: "run_state (processHoldingChange S h) w = (Inr r, w')" and inv: "inv w" and arch: "H_IsArchived h"
  shows "inv w' \<and> spec_holding tval h (view w) = Some (view w')"
proof -
  obtain t w1 where t: "run_state (S_TakeHolding S (H_ContractID h)) w = (t, w1)" by (rule run_obtain)
  with run arch obtain o' where o': "t = Inr o'"
    by (cases t) (auto simp: processHoldingChange_def)
  note tl = take_law[OF t[unfolded o'] inv]
  then have inv1: "inv w1" by simp
  show ?thesis
  proof (cases o')
    case None
    with run t o' arch have "w' = w1" by (auto simp: processHoldingChange_def)
    moreover have "(view w)\<lparr>v_holdings := (v_holdings (view w))(H_ContractID h := None)\<rparr> = view w"
      using tl None by (simp add: fun_upd_idem)
    ultimately show ?thesis using tl arch None by (simp add: spec_holding_def)
  next
    case (Some st)
    then have st: "v_holdings (view w) (H_ContractID h) = Some st" using tl by simp
    obtain q w2 where q: "run_state (S_ApplyBalanceDelta S (H_Owner st) (H_InstrumentAdmin st) (H_InstrumentID st)
        (CHR ''-'' # H_Amount st)) w1 = (q, w2)" by (rule run_obtain)
    have w2: "w' = w2" "\<And>e. q = Inl e \<Longrightarrow> errors_Is e ErrNegativeBalance"
      using run t o' arch Some q by (auto simp: processHoldingChange_def split: sum.splits if_splits)
    show ?thesis
    proof (cases q)
      case (Inl e)
      from negative_law[OF q[unfolded Inl] inv1 w2(2)[OF Inl]] w2(1) tl arch st show ?thesis
        by (auto simp: spec_holding_def holding_key_def)
    next
      case (Inr u)
      from balance_law[OF q[unfolded Inr] inv1] w2(1) tl arch st show ?thesis
        by (auto simp: spec_holding_def holding_key_def)
    qed
  qed
qed

lemma create_step:
  assumes run: "run_state (processHoldingChange S h) w = (Inr r, w')" and inv: "inv w" and cr: "\<not> H_IsArchived h"
  shows "inv w' \<and> spec_holding tval h (view w) = Some (view w')"
proof (cases "H_Owner h = '''' \<or> H_InstrumentID h = '''' \<or> H_InstrumentAdmin h = '''' \<or> H_Locked h")
  case True
  with run inv cr show ?thesis
    by (auto simp: processHoldingChange_def spec_holding_def split: if_splits)
next
  case False
  obtain i w1 where i: "run_state (S_InsertHolding S h) w = (i, w1)" by (rule run_obtain)
  obtain q w2 where q: "run_state (S_ApplyBalanceDelta S (H_Owner h) (H_InstrumentAdmin h) (H_InstrumentID h)
      (H_Amount h)) w1 = (q, w2)" by (rule run_obtain)
  have ok: "i = Inr ()" "q = Inr ()" "w' = w2"
    using run cr False i q by (auto simp: processHoldingChange_def split: sum.splits)
  note hl = holding_law[OF i[unfolded ok] inv]
  then have "inv w1" by simp
  from balance_law[OF q[unfolded ok(2)] this] hl False cr ok(3) show ?thesis
    by (auto simp: spec_holding_def holding_key_def Let_def)
qed

lemma process_item_law:
  assumes run: "run_state (process_item S i) w = (Inr r, w')" and inv: "inv w" and wf: "wf_item i"
  shows "inv w' \<and> spec_item tval i (view w) = Some (view w')"
proof (cases i)
  case (Item_Event e)
  with run wf processTransferEvent_law[OF _ inv, of e r w'] show ?thesis by simp
next
  case (Item_Holding h)
  with run take_step[OF _ inv, of h r w'] create_step[OF _ inv, of h r w'] show ?thesis
    by (cases "H_IsArchived h") simp_all
next
  case (Item_Transfer t)
  show ?thesis
  proof (cases "X_Archived t")
    case True
    obtain q w1 where q: "run_state (S_FinalizeTransfer S (X_ContractID t) (archived_status t)) w = (q, w1)"
      by (rule run_obtain)
    with run Item_Transfer True have "q = Inr ()" "w' = w1" by (auto split: sum.splits)
    with finalize_law[OF _ inv] q Item_Transfer True show ?thesis by simp
  next
    case False
    obtain q w1 where q: "run_state (S_InsertTransfer S t) w = (q, w1)" by (rule run_obtain)
    with run Item_Transfer False have "q = Inr ()" "w' = w1" by (auto split: sum.splits)
    with transfer_law[OF _ inv] q Item_Transfer False show ?thesis by simp
  qed
qed

lemma items_law:
  "run_state (for_err is (process_item S)) w = (Inr r, w') \<Longrightarrow> inv w \<Longrightarrow> list_all wf_item is \<Longrightarrow>
     inv w' \<and> spec_items tval is (view w) = Some (view w')"
proof (induction "is" arbitrary: w)
  case (Cons i "is")
  obtain q w1 where q: "run_state (process_item S i) w = (q, w1)" by (rule run_obtain)
  with Cons.prems obtain u where u: "q = Inr u" by (cases q) auto
  note il = process_item_law[OF q[unfolded u] Cons.prems(2)]
  with Cons.IH[of w1] Cons.prems q u show ?case by auto
qed auto

lemma batch_body_law:
  assumes run: "run_state (batch_body S b) w = (Inr r, w')" and inv: "inv w" and wf: "list_all wf_item (b_Items b)"
  shows "inv w' \<and> spec_batch tval b (view w) = Some (view w')"
proof -
  obtain q w1 where q: "run_state (for_err (b_Items b) (process_item S)) w = (q, w1)" by (rule run_obtain)
  obtain s w2 where s: "run_state (S_SaveOffset S (b_Offset b)) w1 = (s, w2)" by (rule run_obtain)
  have ok: "q = Inr ()" "s = Inr ()" "w' = w2"
    using run q s by (auto simp: batch_body_def split: sum.splits)
  note il = items_law[OF q[unfolded ok] inv wf]
  then have "inv w1" by simp
  from offset_law[OF s[unfolded ok] this] il ok(3) show ?thesis by (simp add: spec_batch_def)
qed

text \<open>All or nothing, and what all is.\<close>

lemma processBatch_law:
  assumes run: "run_state (processBatch S b) w = (r, w')" and inv: "inv w" and wf: "list_all wf_item (b_Items b)"
  shows "inv w'" "spec_batch tval b (view w) = Some (view w') \<or> view w' = view w \<and> (\<exists>e. r = Inl e)"
proof -
  obtain q w1 where q: "run_state (S_RunInTx S (batch_body S b)) w = (q, w1)" by (rule run_obtain)
  have w1: "w' = w1" "(\<exists>e. q = Inl e) \<longrightarrow> (\<exists>e. r = Inl e)"
    using run q by (auto simp: processBatch_def split: sum.splits)
  have tx: "inv w1 \<and> ((\<exists>er. q = Inl er) \<and> view w1 = view w \<or> (\<exists>v1 v2. inv v1 \<and> view v1 = view w \<and>
      run_state (batch_body S b) v1 = (Inr (), v2) \<and> view w1 = view v2))"
    by (rule tx_law[OF q inv]) (use batch_body_law wf in blast)
  show "inv w'" using tx w1 by simp
  show "spec_batch tval b (view w) = Some (view w') \<or> view w' = view w \<and> (\<exists>e. r = Inl e)"
  proof (cases "(\<exists>er. q = Inl er) \<and> view w1 = view w")
    case True
    with w1 show ?thesis by blast
  next
    case False
    with tx obtain v1 v2 where "inv v1" "view v1 = view w" "run_state (batch_body S b) v1 = (Inr (), v2)" "view w1 = view v2"
      by blast
    with batch_body_law[of b v1 "()" v2] wf w1 show ?thesis by simp
  qed
qed

end

context engine_store
begin

text \<open>What every batch keeps, the whole run keeps: through retries, lost answers and restarts.\<close>

lemma retry_preserves:
  assumes "run_state (retry_loop S b fuel delay) w = (r, w')" "inv w" "I (view w)" "list_all wf_item (b_Items b)"
    and step: "\<And>v v'. I v \<Longrightarrow> spec_batch tval b v = Some v' \<Longrightarrow> I v'"
  shows "inv w' \<and> I (view w')"
  using assms(1-3)
proof (induction fuel arbitrary: w w' delay r)
  case (Suc fuel)
  obtain q w1 where q: "run_state (processBatch S b) w = (q, w1)" by (rule run_obtain)
  note pl = processBatch_law[OF q Suc.prems(2) assms(4)]
  then have I1: "I (view w1)" using step[OF Suc.prems(3), of "view w1"] Suc.prems(3) by auto
  show ?case
  proof (cases q)
    case (Inl e)
    obtain r2 w2 where r2: "run_state (retry_loop S b fuel (min (delay * 2) processorRetryMaxDelay)) w1 = (r2, w2)"
      by (rule run_obtain)
    with Suc.prems(1) q Inl have "w' = w2" by simp
    with Suc.IH[OF r2 pl(1) I1] show ?thesis by simp
  next
    case (Inr u)
    with Suc.prems(1) q have "w' = w1" by simp
    with pl(1) I1 show ?thesis by simp
  qed
qed simp

lemma run_batches_preserves:
  assumes "run_state (run_batches S bs fuel) w = (r, w')" "inv w" "I (view w)"
    and "\<And>b. b \<in> set bs \<Longrightarrow> list_all wf_item (b_Items b)"
    and "\<And>b v v'. b \<in> set bs \<Longrightarrow> I v \<Longrightarrow> spec_batch tval b v = Some v' \<Longrightarrow> I v'"
  shows "inv w' \<and> I (view w')"
  using assms
proof (induction bs arbitrary: w w' r)
  case (Cons b bs)
  obtain q w1 where q: "run_state (processBatchWithRetry S b fuel) w = (q, w1)" by (rule run_obtain)
  have keep: "inv w1 \<and> I (view w1)"
    by (rule retry_preserves[OF q[unfolded processBatchWithRetry_def] Cons.prems(2), where I = I])
      (use Cons.prems(3-5) in auto)
  show ?case
  proof (cases q)
    case None
    with Cons.prems(1) q keep show ?thesis by simp
  next
    case (Some ds)
    obtain r2 w2 where r2: "run_state (run_batches S bs fuel) w1 = (r2, w2)" by (rule run_obtain)
    with Cons.prems(1) q Some have "w' = w2" by simp
    moreover have "inv w2 \<and> I (view w2)"
      by (rule Cons.IH[OF r2]) (use keep Cons.prems(4,5) in auto)
    ultimately show ?thesis by simp
  qed
qed simp

lemma Run_preserves:
  assumes run: "run_state (Run S fetch fuel) w = (r, w')" and inv: "inv w" and I: "I (view w)"
    and wf: "\<And>b. b \<in> set (fetch (v_offset (view w))) \<Longrightarrow> list_all wf_item (b_Items b)"
    and step: "\<And>b v v'. b \<in> set (fetch (v_offset (view w))) \<Longrightarrow> I v \<Longrightarrow> spec_batch tval b v = Some v' \<Longrightarrow> I v'"
  shows "inv w' \<and> I (view w')"
proof -
  obtain q w1 where q: "run_state (S_LatestOffset S) w = (q, w1)" by (rule run_obtain)
  note ll = latest_law[OF q inv]
  show ?thesis
  proof (cases q)
    case (Inl e)
    with run q ll I show ?thesis by (simp add: Run_def)
  next
    case (Inr n)
    obtain r2 w2 where r2: "run_state (run_batches S (fetch n) fuel) w1 = (r2, w2)" by (rule run_obtain)
    with run q Inr have "w' = w2" by (simp add: Run_def)
    moreover have "inv w2 \<and> I (view w2)"
      by (rule run_batches_preserves[OF r2, where I = I]) (use ll Inr I wf step in auto)
    ultimately show ?thesis by simp
  qed
qed

end

end
