(* ===== verification/Indexer_Store.thy ===== *)
theory Indexer_Store
  imports Indexer_Processor
begin

text \<open>
  The write path of \<open>pkg/indexer/store\<close>: the rows of the six tables (\<open>model.go\<close>) and the methods the
  processor calls (\<open>pg.go\<close>), as statements on \<open>indexer_db\<close>.  Decimal arithmetic in Go is the record
  \<open>DecimalLib\<close>, the addition PostgreSQL does on \<open>::numeric\<close> texts the parameter \<open>numeric_add\<close>; the
  locale \<open>indexer_numbers\<close> says what both compute.  The store satisfies \<open>engine_store\<close>.
\<close>

section \<open>Rows\<close>

record EventDao =
  ED_ContractID :: string
  ED_InstrumentID :: string
  ED_InstrumentAdmin :: string
  ED_Issuer :: string
  ED_EventType :: string
  ED_Amount :: string
  ED_FromPartyID :: "string option"
  ED_ToPartyID :: "string option"
  ED_ExternalTxID :: "string option"
  ED_ExternalAddress :: "string option"
  ED_Fingerprint :: "string option"
  ED_TxID :: string
  ED_LedgerOffset :: int
  ED_Timestamp :: time
  ED_EffectiveTime :: time

record TokenDao =
  TD_InstrumentAdmin :: string
  TD_InstrumentID :: string
  TD_Issuer :: string
  TD_TotalSupply :: string
  TD_HolderCount :: int
  TD_FirstSeenOffset :: int
  TD_FirstSeenAt :: time

record BalanceDao =
  BD_PartyID :: string
  BD_InstrumentAdmin :: string
  BD_InstrumentID :: string
  BD_Amount :: string

record OffsetDao =
  OD_ID :: int
  OD_LedgerOffset :: int

record HoldingDao =
  HD_ContractID :: string
  HD_Owner :: string
  HD_InstrumentAdmin :: string
  HD_InstrumentID :: string
  HD_Amount :: string
  HD_LedgerOffset :: int

record IxTransferDao =
  RD_ContractID :: string
  RD_Kind :: string
  RD_Status :: string
  RD_FromPartyID :: string
  RD_ToPartyID :: string
  RD_InstrumentAdmin :: string
  RD_InstrumentID :: string
  RD_Amount :: string
  RD_ExpiresAt :: "time option"
  RD_TxID :: string
  RD_LedgerOffset :: int
  RD_CreatedAt :: time

definition toEventDao :: "ParsedEvent \<Rightarrow> EventDao" where
  "toEventDao e =
     \<lparr>ED_ContractID = PE_ContractID e, ED_InstrumentID = PE_InstrumentID e,
      ED_InstrumentAdmin = PE_InstrumentAdmin e, ED_Issuer = PE_Issuer e,
      ED_EventType = PE_EventType e, ED_Amount = PE_Amount e,
      ED_FromPartyID = PE_FromPartyID e, ED_ToPartyID = PE_ToPartyID e,
      ED_ExternalTxID = PE_ExternalTxID e, ED_ExternalAddress = PE_ExternalAddress e,
      ED_Fingerprint = PE_Fingerprint e, ED_TxID = PE_TxID e,
      ED_LedgerOffset = PE_LedgerOffset e, ED_Timestamp = PE_Timestamp e,
      ED_EffectiveTime = PE_EffectiveTime e\<rparr>"

definition fromEventDao :: "EventDao \<Rightarrow> ParsedEvent" where
  "fromEventDao d =
     \<lparr>PE_InstrumentID = ED_InstrumentID d, PE_InstrumentAdmin = ED_InstrumentAdmin d,
      PE_Issuer = ED_Issuer d, PE_EventType = ED_EventType d, PE_Amount = ED_Amount d,
      PE_FromPartyID = ED_FromPartyID d, PE_ToPartyID = ED_ToPartyID d,
      PE_ExternalTxID = ED_ExternalTxID d, PE_ExternalAddress = ED_ExternalAddress d,
      PE_Fingerprint = ED_Fingerprint d, PE_ContractID = ED_ContractID d, PE_TxID = ED_TxID d,
      PE_LedgerOffset = ED_LedgerOffset d, PE_Timestamp = ED_Timestamp d,
      PE_EffectiveTime = ED_EffectiveTime d\<rparr>"

definition fromTokenDao :: "TokenDao \<Rightarrow> IxToken" where
  "fromTokenDao d =
     \<lparr>K_InstrumentAdmin = TD_InstrumentAdmin d, K_InstrumentID = TD_InstrumentID d,
      K_Issuer = TD_Issuer d, K_TotalSupply = TD_TotalSupply d, K_HolderCount = TD_HolderCount d,
      K_FirstSeenOffset = TD_FirstSeenOffset d, K_FirstSeenAt = TD_FirstSeenAt d\<rparr>"

definition fromBalanceDao :: "BalanceDao \<Rightarrow> Balance" where
  "fromBalanceDao d =
     \<lparr>B_PartyID = BD_PartyID d, B_InstrumentAdmin = BD_InstrumentAdmin d,
      B_InstrumentID = BD_InstrumentID d, B_Amount = BD_Amount d\<rparr>"

definition toIxTransferDao :: "IxTransfer \<Rightarrow> IxTransferDao" where
  "toIxTransferDao t =
     \<lparr>RD_ContractID = X_ContractID t, RD_Kind = X_Kind t, RD_Status = X_Status t,
      RD_FromPartyID = X_FromPartyID t, RD_ToPartyID = X_ToPartyID t,
      RD_InstrumentAdmin = X_InstrumentAdmin t, RD_InstrumentID = X_InstrumentID t,
      RD_Amount = X_Amount t, RD_ExpiresAt = X_ExpiresAt t, RD_TxID = X_TxID t,
      RD_LedgerOffset = X_LedgerOffset t, RD_CreatedAt = X_CreatedAt t\<rparr>"

definition fromIxTransferDao :: "IxTransferDao \<Rightarrow> IxTransfer" where
  "fromIxTransferDao d =
     \<lparr>X_ContractID = RD_ContractID d, X_Kind = RD_Kind d, X_Status = RD_Status d,
      X_FromPartyID = RD_FromPartyID d, X_ToPartyID = RD_ToPartyID d,
      X_InstrumentAdmin = RD_InstrumentAdmin d, X_InstrumentID = RD_InstrumentID d,
      X_Amount = RD_Amount d, X_ExpiresAt = RD_ExpiresAt d, X_TxID = RD_TxID d,
      X_LedgerOffset = RD_LedgerOffset d, X_CreatedAt = RD_CreatedAt d, X_Archived = False\<rparr>"

lemma event_dao_roundtrip [simp]: "fromEventDao (toEventDao e) = e" "toEventDao (fromEventDao d) = d"
  by (simp_all add: fromEventDao_def toEventDao_def)

lemma transfer_dao_roundtrip [simp]: "fromIxTransferDao (toIxTransferDao t) = t\<lparr>X_Archived := False\<rparr>"
  by (cases t) (simp add: fromIxTransferDao_def toIxTransferDao_def)

record indexer_db = pg +
  ix_events :: "EventDao list"
  ix_tokens :: "TokenDao list"
  ix_balances :: "BalanceDao list"
  ix_offsets :: "OffsetDao list"
  ix_holdings :: "HoldingDao list"
  ix_transfers :: "IxTransferDao list"

definition token_key :: "TokenDao \<Rightarrow> instrument" where
  "token_key d = (TD_InstrumentAdmin d, TD_InstrumentID d)"

definition balance_key :: "BalanceDao \<Rightarrow> string \<times> instrument" where
  "balance_key d = (BD_PartyID d, (BD_InstrumentAdmin d, BD_InstrumentID d))"

section \<open>Methods\<close>

definition ix_LatestOffset :: "('a indexer_db_scheme, goerr + int) state" where
  "ix_LatestOffset = do {
     r \<leftarrow> query ''latest offset'' (\<lambda>w. row_of OD_ID 1 (ix_offsets w));
     case r of
       Inl e \<Rightarrow> ret (Inl e)
     | Inr None \<Rightarrow> ret (Inr 0)
     | Inr (Some d) \<Rightarrow> ret (Inr (OD_LedgerOffset d)) }"

definition ix_InsertEvent :: "ParsedEvent \<Rightarrow> ('a indexer_db_scheme, goerr + bool) state" where
  "ix_InsertEvent e = do {
     r \<leftarrow> exec_rows ''insert event''
            (\<lambda>w. if row_of ED_ContractID (PE_ContractID e) (ix_events w) = None then 1 else 0)
            (\<lambda>w. w\<lparr>ix_events := insert_ignore ED_ContractID (toEventDao e) (ix_events w)\<rparr>);
     case r of
       Inl err \<Rightarrow> ret (Inl err)
     | Inr n \<Rightarrow> ret (Inr (n > 0)) }"

definition ix_SaveOffset :: "int \<Rightarrow> ('a indexer_db_scheme, goerr + unit) state" where
  "ix_SaveOffset offset =
     exec ''save offset'' (\<lambda>w. w\<lparr>ix_offsets :=
       upsert OD_ID (\<lambda>d. d\<lparr>OD_LedgerOffset := offset\<rparr>) \<lparr>OD_ID = 1, OD_LedgerOffset = offset\<rparr> (ix_offsets w)\<rparr>)"

definition ix_UpsertToken :: "IxToken \<Rightarrow> ('a indexer_db_scheme, goerr + unit) state" where
  "ix_UpsertToken t =
     exec ''upsert token'' (\<lambda>w. w\<lparr>ix_tokens := insert_ignore token_key
       \<lparr>TD_InstrumentAdmin = K_InstrumentAdmin t, TD_InstrumentID = K_InstrumentID t,
        TD_Issuer = K_Issuer t, TD_TotalSupply = ''0'', TD_HolderCount = 0,
        TD_FirstSeenOffset = K_FirstSeenOffset t, TD_FirstSeenAt = K_FirstSeenAt t\<rparr> (ix_tokens w)\<rparr>)"

text \<open>
  The statement fails when \<open>numeric_add\<close> does on the row it selects; with no such row it succeeds.
\<close>

definition ix_ApplySupplyDelta ::
  "(string \<Rightarrow> string \<Rightarrow> goerr + string) \<Rightarrow> string \<Rightarrow> string \<Rightarrow> string \<Rightarrow> ('a indexer_db_scheme, goerr + unit) state" where
  "ix_ApplySupplyDelta numeric_add admin i delta = do {
     row \<leftarrow> gets (\<lambda>w. row_of token_key (admin, i) (ix_tokens w));
     (case row of
        None \<Rightarrow> exec ''apply supply delta'' (\<lambda>w. w)
      | Some d \<Rightarrow>
          (case numeric_add (TD_TotalSupply d) delta of
             Inl e \<Rightarrow> ret (Inl (Errorf ''apply supply delta'' e))
           | Inr newTotal \<Rightarrow> exec ''apply supply delta'' (\<lambda>w. w\<lparr>ix_tokens :=
               update_where (\<lambda>r. token_key r = (admin, i)) (\<lambda>r. r\<lparr>TD_TotalSupply := newTotal\<rparr>) (ix_tokens w)\<rparr>))) }"

definition holder_delta :: "bool \<Rightarrow> bool \<Rightarrow> int" where
  "holder_delta wasZero isZero = (if wasZero \<and> \<not> isZero then 1 else if \<not> wasZero \<and> isZero then - 1 else 0)"

text \<open>The two writes of \<open>ApplyBalanceDelta\<close>: the balance, and the holder count when it crossed zero.\<close>

definition ix_write_balance ::
  "'d DecimalLib \<Rightarrow> string \<Rightarrow> string \<Rightarrow> string \<Rightarrow> bool \<Rightarrow> 'd \<Rightarrow> 'd \<Rightarrow> ('a indexer_db_scheme, goerr + unit) state" where
  "ix_write_balance D party admin i isNew oldAmount newAmount = do {
     u \<leftarrow> exec ''upsert balance'' (\<lambda>w. w\<lparr>ix_balances :=
            upsert balance_key (\<lambda>r. r\<lparr>BD_Amount := D_String D newAmount\<rparr>)
              \<lparr>BD_PartyID = party, BD_InstrumentAdmin = admin, BD_InstrumentID = i,
               BD_Amount = D_String D newAmount\<rparr> (ix_balances w)\<rparr>);
     case u of
       Inl e \<Rightarrow> ret (Inl e)
     | Inr _ \<Rightarrow>
         let holderDelta = holder_delta (isNew \<or> IsZero D oldAmount) (IsZero D newAmount)
         in if holderDelta \<noteq> 0 then
              exec ''update holder count'' (\<lambda>w. w\<lparr>ix_tokens :=
                update_where (\<lambda>r. token_key r = (admin, i))
                  (\<lambda>r. r\<lparr>TD_HolderCount := TD_HolderCount r + holderDelta\<rparr>) (ix_tokens w)\<rparr>)
            else ret (Inr ()) }"

definition ix_ApplyBalanceDelta ::
  "'d DecimalLib \<Rightarrow> string \<Rightarrow> string \<Rightarrow> string \<Rightarrow> string \<Rightarrow> ('a indexer_db_scheme, goerr + unit) state" where
  "ix_ApplyBalanceDelta D party admin i delta = do {
     q \<leftarrow> query ''read balance'' (\<lambda>w. row_of balance_key (party, admin, i) (ix_balances w));
     case q of
       Inl e \<Rightarrow> ret (Inl e)
     | Inr row \<Rightarrow>
         (case (case row of None \<Rightarrow> Inr (D_Zero D) | Some d \<Rightarrow> NewFromString D (BD_Amount d)) of
            Inl e \<Rightarrow> ret (Inl (Errorf ''parse old amount'' e))
          | Inr oldAmount \<Rightarrow>
              (case NewFromString D delta of
                 Inl e \<Rightarrow> ret (Inl (Errorf (''parse delta '' @ delta) e))
               | Inr d \<Rightarrow>
                   let newAmount = D_Add D oldAmount d
                   in if IsNegative D newAmount then
                        ret (Inl (Wrap '''' ErrNegativeBalance ('' for party '' @ party @ '' on '' @ admin @ ''/'' @ i @
                          '': current='' @ D_String D oldAmount @ '' delta='' @ delta)))
                      else ix_write_balance D party admin i (row = None) oldAmount newAmount)) }"

definition ix_InsertHolding :: "HoldingChange \<Rightarrow> ('a indexer_db_scheme, goerr + unit) state" where
  "ix_InsertHolding h =
     exec ''insert holding'' (\<lambda>w. w\<lparr>ix_holdings := insert_ignore HD_ContractID
       \<lparr>HD_ContractID = H_ContractID h, HD_Owner = H_Owner h, HD_InstrumentAdmin = H_InstrumentAdmin h,
        HD_InstrumentID = H_InstrumentID h, HD_Amount = H_Amount h, HD_LedgerOffset = H_LedgerOffset h\<rparr> (ix_holdings w)\<rparr>)"

text \<open>The \<open>HoldingChange\<close> that \<open>TakeHolding\<close> returns.\<close>

definition holding_of_row :: "HoldingDao \<Rightarrow> HoldingChange" where
  "holding_of_row d =
     \<lparr>H_ContractID = HD_ContractID d, H_IsArchived = False, H_LedgerOffset = HD_LedgerOffset d,
      H_Owner = HD_Owner d, H_InstrumentAdmin = HD_InstrumentAdmin d, H_InstrumentID = HD_InstrumentID d,
      H_Amount = HD_Amount d, H_Locked = False\<rparr>"

definition ix_TakeHolding :: "string \<Rightarrow> ('a indexer_db_scheme, goerr + HoldingChange option) state" where
  "ix_TakeHolding cid = do {
     q \<leftarrow> query ''select holding'' (\<lambda>w. row_of HD_ContractID cid (ix_holdings w));
     case q of
       Inl e \<Rightarrow> ret (Inl e)
     | Inr None \<Rightarrow> ret (Inr None)
     | Inr (Some d) \<Rightarrow> do {
         u \<leftarrow> exec ''delete holding'' (\<lambda>w. w\<lparr>ix_holdings :=
                delete_where (\<lambda>r. HD_ContractID r = cid) (ix_holdings w)\<rparr>);
         (case u of
            Inl e \<Rightarrow> ret (Inl e)
          | Inr _ \<Rightarrow> ret (Inr (Some (holding_of_row d)))) } }"

definition ix_InsertTransfer :: "IxTransfer \<Rightarrow> ('a indexer_db_scheme, goerr + unit) state" where
  "ix_InsertTransfer t =
     exec ''insert transfer'' (\<lambda>w. w\<lparr>ix_transfers := insert_ignore RD_ContractID (toIxTransferDao t) (ix_transfers w)\<rparr>)"

definition ix_FinalizeTransfer :: "string \<Rightarrow> string \<Rightarrow> ('a indexer_db_scheme, goerr + unit) state" where
  "ix_FinalizeTransfer cid status =
     exec ''finalize transfer'' (\<lambda>w. w\<lparr>ix_transfers :=
       update_where (\<lambda>r. RD_ContractID r = cid \<and> RD_Status r = StatusPending)
         (\<lambda>r. r\<lparr>RD_Status := status\<rparr>) (ix_transfers w)\<rparr>)"

definition IndexerPGStore ::
  "'d DecimalLib \<Rightarrow> (string \<Rightarrow> string \<Rightarrow> goerr + string) \<Rightarrow> ('a indexer_db_scheme) EngineStore" where
  "IndexerPGStore D numeric_add =
     \<lparr>S_LatestOffset = ix_LatestOffset, S_RunInTx = run_in_tx, S_InsertEvent = ix_InsertEvent,
      S_SaveOffset = ix_SaveOffset, S_UpsertToken = ix_UpsertToken,
      S_ApplyBalanceDelta = ix_ApplyBalanceDelta D, S_ApplySupplyDelta = ix_ApplySupplyDelta numeric_add,
      S_InsertTransfer = ix_InsertTransfer, S_FinalizeTransfer = ix_FinalizeTransfer,
      S_InsertHolding = ix_InsertHolding, S_TakeHolding = ix_TakeHolding\<rparr>"

section \<open>What the tables say\<close>

locale indexer_numbers = decimal_lib D dval tval for D :: "'d DecimalLib" and dval tval +
  fixes numeric_add :: "string \<Rightarrow> string \<Rightarrow> goerr + string"
  assumes numeric_law: "numeric_add s u = Inr t \<Longrightarrow> tval s = Some x \<Longrightarrow> tval u = Some y \<Longrightarrow> tval t = Some (x + y)"
    and numeric_total: "tval s = Some x \<Longrightarrow> tval u = Some y \<Longrightarrow> \<exists>t. numeric_add s u = Inr t"
    and zero_text: "tval ''0'' = Some 0"
    and minus_text: "tval (CHR ''-'' # s) = Some x \<Longrightarrow> tval s = Some (- x) \<and> x \<le> 0 \<and> \<not> isNegativeDelta s"
    and parse_error: "NewFromString D s = Inl er \<Longrightarrow> \<not> errors_Is er ErrNegativeBalance"

text \<open>The instance on plain decimals.\<close>

definition dec_numeric_add :: "string \<Rightarrow> string \<Rightarrow> goerr + string" where
  "dec_numeric_add s t =
     (case (parse_dec s, parse_dec t) of
        (Some a, Some b) \<Rightarrow> Inr (print_dec (D_Add dec_lib a b))
      | _ \<Rightarrow> Inl (Err ''invalid input syntax for type numeric''))"

lemma dec_minus_twice: "parse_dec (CHR ''-'' # CHR ''-'' # u) = None"
proof -
  obtain i r where "SplitN2 (CHR ''-'' # u) CHR ''.'' = (CHR ''-'' # i) # r"
    by (cases "CHR ''.'' \<in> set u") (simp_all add: SplitN2_def)
  moreover have "\<not> is_digit CHR ''-''" by (rule sign_no_digit)
  ultimately show ?thesis by (simp add: parse_dec_def split: list.splits)
qed

lemma dec_minus_text:
  assumes "dec_text (CHR ''-'' # s) = Some x"
  shows "dec_text s = Some (- x)" "x \<le> 0" "\<not> isNegativeDelta s"
proof -
  have pos: "s = [] \<or> hd s \<noteq> CHR ''-''"
    using assms by (cases s) (auto simp: dec_text_def dec_minus_twice)
  then show "\<not> isNegativeDelta s" by (auto simp: isNegativeDelta_def)
  from assms obtain d where d: "parse_dec (CHR ''-'' # s) = Some d" "x = dec_val d" by (auto simp: dec_text_def)
  have "parse_dec s = Some (- fst d, snd d) \<and> fst d \<le> 0"
  proof (cases "CHR ''.'' \<in> set s")
    case True
    then obtain i f where "SplitN2 s CHR ''.'' = [i, f]" by (simp add: SplitN2_def)
    with d(1) pos show ?thesis by (simp add: parse_dec_def split: if_splits) (auto simp: list_all_iff)
  next
    case False
    then have "SplitN2 s CHR ''.'' = [s]" by (simp add: SplitN2_def)
    with d(1) pos show ?thesis by (simp add: parse_dec_def split: if_splits) (auto simp: list_all_iff)
  qed
  with d(2) show "dec_text s = Some (- x)" "x \<le> 0"
    using ten_powi_pos[of "snd d"] by (simp_all add: dec_text_def dec_val_def mult_le_0_iff less_imp_le)
qed

interpretation dec_ix: indexer_numbers dec_lib dec_val dec_text dec_numeric_add
proof (unfold_locales, goal_cases)
  case (1 s u t x y)
  then obtain a b where "t = D_String dec_lib (D_Add dec_lib a b)" "dec_val a = x" "dec_val b = y"
    by (auto simp: dec_numeric_add_def dec_text_def dec_lib_def split: option.splits)
  then show ?case using dec.string_law dec.add_law by simp
next
  case (2 s x u y)
  then show ?case by (auto simp: dec_numeric_add_def dec_text_def)
next
  case 3
  then show ?case by (simp add: dec_text_def dec_val_def parse_dec_def SplitN2_def Let_def is_digit_def digits_val_def digit_val_def)
next
  case (4 s x)
  then show ?case using dec_minus_text by blast
next
  case (5 s er)
  then show ?case by (auto simp: dec_lib_def split: option.splits)
qed

definition ix_view :: "(string \<Rightarrow> rat option) \<Rightarrow> 'a indexer_db_scheme \<Rightarrow> view" where
  "ix_view tval w =
     \<lparr>v_events = (\<lambda>c. map_option fromEventDao (row_of ED_ContractID c (ix_events w))),
      v_supply = (\<lambda>i. Option.bind (row_of token_key i (ix_tokens w)) (\<lambda>d. tval (TD_TotalSupply d))),
      v_holders = (\<lambda>i. case row_of token_key i (ix_tokens w) of None \<Rightarrow> 0 | Some d \<Rightarrow> TD_HolderCount d),
      v_bal = (\<lambda>k. case row_of balance_key k (ix_balances w) of None \<Rightarrow> 0 | Some d \<Rightarrow>
                 (case tval (BD_Amount d) of None \<Rightarrow> 0 | Some x \<Rightarrow> x)),
      v_holdings = (\<lambda>c. map_option holding_of_row (row_of HD_ContractID c (ix_holdings w))),
      v_transfers = (\<lambda>c. map_option fromIxTransferDao (row_of RD_ContractID c (ix_transfers w))),
      v_offset = (case row_of OD_ID 1 (ix_offsets w) of None \<Rightarrow> 0 | Some d \<Rightarrow> OD_LedgerOffset d)\<rparr>"

definition ix_inv :: "(string \<Rightarrow> rat option) \<Rightarrow> 'a indexer_db_scheme \<Rightarrow> bool" where
  "ix_inv tval w \<longleftrightarrow>
     unique_rows ED_ContractID (ix_events w) \<and> unique_rows token_key (ix_tokens w) \<and>
     unique_rows balance_key (ix_balances w) \<and> unique_rows OD_ID (ix_offsets w) \<and>
     unique_rows HD_ContractID (ix_holdings w) \<and> unique_rows RD_ContractID (ix_transfers w) \<and>
     list_all (\<lambda>d. tval (TD_TotalSupply d) \<noteq> None) (ix_tokens w) \<and>
     list_all (\<lambda>d. tval (BD_Amount d) \<noteq> None) (ix_balances w)"

lemma ix_tables [simp]: "tables (\<lambda>w. (ix_inv tval w, ix_view tval w))"
  by (simp add: tables_def ix_inv_def ix_view_def)

lemma ix_exec_tables:
  assumes "run_state pg_exec w = (f, w1)"
  shows "ix_inv tval w1 = ix_inv tval w" "ix_view tval w1 = ix_view tval w"
  using pg_exec_tables[OF assms ix_tables[of tval]] by simp_all

text \<open>The laws of the statements, each on the tables as they are when it runs.\<close>

lemma latest_offset_law:
  assumes "run_state ix_LatestOffset w = (r, w')"
  shows "ix_inv tval w' = ix_inv tval w" "ix_view tval w' = ix_view tval w"
    "\<forall>n. r = Inr n \<longrightarrow> n = v_offset (ix_view tval w)"
proof -
  obtain q w1 where q: "run_state (query ''latest offset'' (\<lambda>w. row_of OD_ID 1 (ix_offsets w))) w = (q, w1)"
    by (rule run_obtain)
  then have w': "w' = w1" using assms by (auto simp: ix_LatestOffset_def split: sum.splits option.splits)
  from q have "\<exists>f. run_state pg_exec w = (f, w1)"
    by (auto simp: query_def split: list.splits fault.splits)
  then obtain f where f: "run_state pg_exec w = (f, w1)" by blast
  from ix_exec_tables[OF f] w'
  show "ix_inv tval w' = ix_inv tval w" "ix_view tval w' = ix_view tval w" by simp_all
  show "\<forall>n. r = Inr n \<longrightarrow> n = v_offset (ix_view tval w)"
  proof (intro allI impI)
    fix n assume "r = Inr n"
    with assms q obtain o' where o': "q = Inr o'" "n = (case o' of None \<Rightarrow> 0 | Some d \<Rightarrow> OD_LedgerOffset d)"
      by (auto simp: ix_LatestOffset_def split: sum.splits option.splits)
    with query_ok[OF q[unfolded o'(1)]] have "n = v_offset (ix_view tval w1)" by (simp add: ix_view_def)
    then show "n = v_offset (ix_view tval w)" using ix_exec_tables[OF f, of tval] by simp
  qed
qed

text \<open>A law of a statement is a fact about its effect on the tables.\<close>

lemma ix_exec_law:
  assumes "run_state (exec what f) w = (Inr u, w')" "ix_inv tval w"
    and "\<And>w1. ix_inv tval w1 \<Longrightarrow> ix_view tval w1 = ix_view tval w \<Longrightarrow> Q (f w1)"
  shows "Q w'"
proof (rule exec_ok[OF assms(1)])
  fix w1 assume "w' = f w1" "run_state pg_exec w = (Works, w1)"
  with ix_exec_tables[of w Works w1 tval] assms(2,3) show "Q w'" by simp
qed

lemma insert_event_law:
  assumes "run_state (ix_InsertEvent e) w = (Inr b, w')" "ix_inv tval w"
  shows "ix_inv tval w' \<and> (b \<longleftrightarrow> v_events (ix_view tval w) (PE_ContractID e) = None) \<and>
    ix_view tval w' = (if b then (ix_view tval w)\<lparr>v_events := (v_events (ix_view tval w))(PE_ContractID e \<mapsto> e)\<rparr>
                       else ix_view tval w)"
proof -
  let ?n = "\<lambda>w. if row_of ED_ContractID (PE_ContractID e) (ix_events w) = None then 1 else 0 :: nat"
  let ?f = "\<lambda>w. w\<lparr>ix_events := insert_ignore ED_ContractID (toEventDao e) (ix_events w)\<rparr>"
  have key: "ED_ContractID (toEventDao e) = PE_ContractID e" by (simp add: toEventDao_def)
  obtain q w1 where q: "run_state (exec_rows ''insert event'' ?n ?f) w = (q, w1)" by (rule run_obtain)
  with assms(1) obtain k where k: "q = Inr k" "w1 = w'" "b = (k > 0)"
    by (cases q) (auto simp: ix_InsertEvent_def)
  from q[unfolded k] show ?thesis
  proof (rule exec_rows_ok)
    fix v assume v: "w' = ?f v" "k = ?n v" "run_state pg_exec w = (Works, v)"
    note t = ix_exec_tables[OF v(3), of tval, symmetric]
    have "ix_inv tval v" using assms(2) by (simp only: t)
    then have inv: "ix_inv tval w'" using v(1) by (simp add: ix_inv_def)
    show ?thesis
    proof (cases "row_of ED_ContractID (PE_ContractID e) (ix_events v)")
      case None
      then have "ix_view tval w' = (ix_view tval v)\<lparr>v_events := (v_events (ix_view tval v))(PE_ContractID e \<mapsto> e)\<rparr>"
        using v(1) by (simp add: ix_view_def row_of_insert_ignore key fun_eq_iff)
      with None inv v(2) k(3) show ?thesis by (simp add: t) (simp add: ix_view_def)
    next
      case (Some r)
      then have "ix_view tval w' = ix_view tval v"
        using v(1) by (simp add: insert_ignore_def key)
      with Some inv v(2) k(3) show ?thesis by (simp add: t) (simp add: ix_view_def)
    qed
  qed
qed

lemma insert_transfer_law:
  assumes "run_state (ix_InsertTransfer t) w = (Inr u, w')" "ix_inv tval w"
  shows "ix_inv tval w' \<and> ix_view tval w' = spec_insert_transfer t (ix_view tval w)"
proof (rule ix_exec_law[OF assms(1)[unfolded ix_InsertTransfer_def] assms(2)])
  fix w1 :: "'a indexer_db_scheme" assume w1: "ix_inv tval w1" "ix_view tval w1 = ix_view tval w"
  let ?w = "w1\<lparr>ix_transfers := insert_ignore RD_ContractID (toIxTransferDao t) (ix_transfers w1)\<rparr>"
  have key: "RD_ContractID (toIxTransferDao t) = X_ContractID t" by (simp add: toIxTransferDao_def)
  have "ix_view tval ?w = spec_insert_transfer t (ix_view tval w1)"
  proof (cases "row_of RD_ContractID (X_ContractID t) (ix_transfers w1)")
    case None
    then show ?thesis by (simp add: ix_view_def spec_insert_transfer_def row_of_insert_ignore key fun_eq_iff)
  next
    case (Some r)
    then show ?thesis by (simp add: insert_ignore_def key) (simp add: ix_view_def spec_insert_transfer_def)
  qed
  with w1 show "ix_inv tval ?w \<and> ix_view tval ?w = spec_insert_transfer t (ix_view tval w)"
    by (simp add: ix_inv_def)
qed

lemma finalize_transfer_law:
  assumes "run_state (ix_FinalizeTransfer c st) w = (Inr u, w')" "ix_inv tval w"
  shows "ix_inv tval w' \<and> ix_view tval w' = spec_finalize c st (ix_view tval w)"
proof (rule ix_exec_law[OF assms(1)[unfolded ix_FinalizeTransfer_def] assms(2)])
  fix w1 :: "'a indexer_db_scheme" assume w1: "ix_inv tval w1" "ix_view tval w1 = ix_view tval w"
  let ?p = "\<lambda>r. RD_ContractID r = c \<and> RD_Status r = StatusPending"
  let ?w = "w1\<lparr>ix_transfers := update_where ?p (\<lambda>r. r\<lparr>RD_Status := st\<rparr>) (ix_transfers w1)\<rparr>"
  have row: "row_of RD_ContractID k (ix_transfers ?w) =
      map_option (\<lambda>r. if ?p r then r\<lparr>RD_Status := st\<rparr> else r) (row_of RD_ContractID k (ix_transfers w1))" for k
    by (simp add: row_of_update)
  have "ix_view tval ?w = spec_finalize c st (ix_view tval w1)"
  proof (cases "row_of RD_ContractID c (ix_transfers w1)")
    case None
    have "row_of RD_ContractID k (ix_transfers ?w) = row_of RD_ContractID k (ix_transfers w1)" for k
      unfolding row using None row_of_key[of RD_ContractID k "ix_transfers w1"]
      by (cases "row_of RD_ContractID k (ix_transfers w1)") auto
    with None show ?thesis by (simp add: ix_view_def spec_finalize_def)
  next
    case (Some r)
    have other: "k \<noteq> c \<Longrightarrow> row_of RD_ContractID k (ix_transfers ?w) = row_of RD_ContractID k (ix_transfers w1)" for k
      unfolding row using row_of_key[of RD_ContractID k "ix_transfers w1"]
      by (cases "row_of RD_ContractID k (ix_transfers w1)") auto
    have same: "row_of RD_ContractID c (ix_transfers ?w) = Some (if RD_Status r = StatusPending then r\<lparr>RD_Status := st\<rparr> else r)"
      unfolding row using Some row_of_key[OF Some] by simp
    have "map_option fromIxTransferDao (row_of RD_ContractID k (ix_transfers ?w)) =
        v_transfers (spec_finalize c st (ix_view tval w1)) k" for k
      using Some same other[of k]
      by (cases "k = c") (auto simp: spec_finalize_def ix_view_def fromIxTransferDao_def)
    with Some show ?thesis
      by (auto simp: ix_view_def spec_finalize_def fun_eq_iff)
  qed
  with w1 show "ix_inv tval ?w \<and> ix_view tval ?w = spec_finalize c st (ix_view tval w)"
    by (simp add: ix_inv_def)
qed

lemma insert_holding_law:
  assumes "run_state (ix_InsertHolding h) w = (Inr u, w')" "ix_inv tval w"
  shows "ix_inv tval w' \<and> ix_view tval w' = (if v_holdings (ix_view tval w) (H_ContractID h) = None
    then (ix_view tval w)\<lparr>v_holdings := (v_holdings (ix_view tval w))(H_ContractID h \<mapsto> stored_holding h)\<rparr>
    else ix_view tval w)"
    (is "_ \<and> _ = ?ins (ix_view tval w)")
proof (rule ix_exec_law[OF assms(1)[unfolded ix_InsertHolding_def] assms(2)])
  fix w1 :: "'a indexer_db_scheme" assume w1: "ix_inv tval w1" "ix_view tval w1 = ix_view tval w"
  let ?r = "\<lparr>HD_ContractID = H_ContractID h, HD_Owner = H_Owner h, HD_InstrumentAdmin = H_InstrumentAdmin h,
        HD_InstrumentID = H_InstrumentID h, HD_Amount = H_Amount h, HD_LedgerOffset = H_LedgerOffset h\<rparr>"
  let ?w = "w1\<lparr>ix_holdings := insert_ignore HD_ContractID ?r (ix_holdings w1)\<rparr>"
  have r: "holding_of_row ?r = stored_holding h" by (cases h) (simp add: holding_of_row_def stored_holding_def)
  have "ix_view tval ?w = ?ins (ix_view tval w1)"
  proof (cases "row_of HD_ContractID (H_ContractID h) (ix_holdings w1)")
    case None
    with r show ?thesis by (simp add: ix_view_def row_of_insert_ignore fun_eq_iff)
  next
    case (Some r)
    then show ?thesis by (simp add: insert_ignore_def) (simp add: ix_view_def)
  qed
  with w1 show "ix_inv tval ?w \<and> ix_view tval ?w = ?ins (ix_view tval w)"
    by (simp add: ix_inv_def)
qed

lemma save_offset_law:
  assumes "run_state (ix_SaveOffset n) w = (Inr u, w')" "ix_inv tval w"
  shows "ix_inv tval w' \<and> ix_view tval w' = (ix_view tval w)\<lparr>v_offset := n\<rparr>"
proof (rule ix_exec_law[OF assms(1)[unfolded ix_SaveOffset_def] assms(2)])
  fix w1 :: "'a indexer_db_scheme" assume w1: "ix_inv tval w1" "ix_view tval w1 = ix_view tval w"
  let ?w = "w1\<lparr>ix_offsets := upsert OD_ID (\<lambda>d. d\<lparr>OD_LedgerOffset := n\<rparr>) \<lparr>OD_ID = 1, OD_LedgerOffset = n\<rparr> (ix_offsets w1)\<rparr>"
  have "ix_view tval ?w = (ix_view tval w1)\<lparr>v_offset := n\<rparr>"
    by (simp add: ix_view_def row_of_upsert split: option.splits)
  with w1 show "ix_inv tval ?w \<and> ix_view tval ?w = (ix_view tval w)\<lparr>v_offset := n\<rparr>"
    by (simp add: ix_inv_def)
qed

lemma take_holding_law:
  assumes run: "run_state (ix_TakeHolding c) w = (Inr o', w')" and inv: "ix_inv tval w"
  shows "ix_inv tval w' \<and> o' = v_holdings (ix_view tval w) c \<and>
    ix_view tval w' = (ix_view tval w)\<lparr>v_holdings := (v_holdings (ix_view tval w))(c := None)\<rparr>"
proof -
  obtain q w1 where q: "run_state (query ''select holding'' (\<lambda>w. row_of HD_ContractID c (ix_holdings w))) w = (q, w1)"
    by (rule run_obtain)
  from run q obtain row where row: "q = Inr row"
    by (cases q) (auto simp: ix_TakeHolding_def)
  note w1 = ix_exec_tables[OF query_ok(1)[OF q[unfolded row]], of tval] query_ok(2)[OF q[unfolded row]]
  show ?thesis
  proof (cases row)
    case None
    with run q row have "o' = None" "w' = w1" by (auto simp: ix_TakeHolding_def)
    moreover have "(ix_view tval w1)\<lparr>v_holdings := (v_holdings (ix_view tval w1))(c := None)\<rparr> = ix_view tval w1"
      using w1(3) None by (simp add: ix_view_def fun_eq_iff)
    moreover have "v_holdings (ix_view tval w1) c = None" using w1(3) None by (simp add: ix_view_def)
    ultimately show ?thesis using w1 inv by simp
  next
    case (Some d)
    let ?f = "\<lambda>w. w\<lparr>ix_holdings := delete_where (\<lambda>r. HD_ContractID r = c) (ix_holdings w)\<rparr>"
    obtain x w2 where x: "run_state (exec ''delete holding'' ?f) w1 = (x, w2)" by (rule run_obtain)
    with run q row Some have ok: "x = Inr ()" "w' = w2" "o' = Some (holding_of_row d)"
      by (auto simp: ix_TakeHolding_def split: sum.splits)
    have "ix_inv tval w2 \<and> ix_view tval w2 = (ix_view tval w1)\<lparr>v_holdings := (v_holdings (ix_view tval w1))(c := None)\<rparr>"
    proof (rule ix_exec_law[OF x[unfolded ok]])
      show "ix_inv tval w1" using w1 inv by simp
      fix v :: "'a indexer_db_scheme" assume v: "ix_inv tval v" "ix_view tval v = ix_view tval w1"
      have "ix_view tval (?f v) = (ix_view tval v)\<lparr>v_holdings := (v_holdings (ix_view tval v))(c := None)\<rparr>"
        by (simp add: ix_view_def row_of_delete_key fun_eq_iff)
      with v show "ix_inv tval (?f v) \<and>
          ix_view tval (?f v) = (ix_view tval w1)\<lparr>v_holdings := (v_holdings (ix_view tval w1))(c := None)\<rparr>"
        by (simp add: ix_inv_def)
    qed
    moreover have "v_holdings (ix_view tval w1) c = Some (holding_of_row d)"
      using w1(3)[symmetric] Some by (simp add: ix_view_def)
    ultimately show ?thesis using ok w1 by simp
  qed
qed

context indexer_numbers
begin

lemma upsert_token_law:
  assumes "run_state (ix_UpsertToken t) w = (Inr u, w')" "ix_inv tval w"
  shows "ix_inv tval w' \<and> ix_view tval w' = spec_token (K_InstrumentAdmin t, K_InstrumentID t) (ix_view tval w)"
proof (rule ix_exec_law[OF assms(1)[unfolded ix_UpsertToken_def] assms(2)])
  fix w1 :: "'z indexer_db_scheme" assume w1: "ix_inv tval w1" "ix_view tval w1 = ix_view tval w"
  let ?i = "(K_InstrumentAdmin t, K_InstrumentID t)"
  let ?r = "\<lparr>TD_InstrumentAdmin = K_InstrumentAdmin t, TD_InstrumentID = K_InstrumentID t,
        TD_Issuer = K_Issuer t, TD_TotalSupply = ''0'', TD_HolderCount = 0,
        TD_FirstSeenOffset = K_FirstSeenOffset t, TD_FirstSeenAt = K_FirstSeenAt t\<rparr>"
  let ?w = "w1\<lparr>ix_tokens := insert_ignore token_key ?r (ix_tokens w1)\<rparr>"
  have key: "token_key ?r = ?i" by (simp add: token_key_def)
  have inv: "ix_inv tval ?w"
    using w1(1) zero_text by (simp add: ix_inv_def) (simp add: insert_ignore_def)
  have "ix_view tval ?w = spec_token ?i (ix_view tval w1)"
  proof (cases "row_of token_key ?i (ix_tokens w1)")
    case None
    with zero_text key show ?thesis
      by (simp add: ix_view_def spec_token_def row_of_insert_ignore fun_eq_iff)
  next
    case (Some r)
    then obtain y where "tval (TD_TotalSupply r) = Some y"
      using w1(1) row_of_mem by (fastforce simp: ix_inv_def list_all_iff)
    with Some show ?thesis
      by (simp add: insert_ignore_def key) (simp add: ix_view_def spec_token_def)
  qed
  with inv w1 show "ix_inv tval ?w \<and> ix_view tval ?w = spec_token ?i (ix_view tval w)" by simp
qed

lemma balance_upsert:
  fixes n :: 'd and p a i :: string and w :: "'z indexer_db_scheme"
  assumes "ix_inv tval w"
  defines "w' \<equiv> w\<lparr>ix_balances := upsert balance_key (\<lambda>r. r\<lparr>BD_Amount := D_String D n\<rparr>)
      \<lparr>BD_PartyID = p, BD_InstrumentAdmin = a, BD_InstrumentID = i, BD_Amount = D_String D n\<rparr> (ix_balances w)\<rparr>"
  shows "ix_inv tval w'" "ix_view tval w' = (ix_view tval w)\<lparr>v_bal := (v_bal (ix_view tval w))((p, a, i) := dval n)\<rparr>"
proof -
  have key: "balance_key (r\<lparr>BD_Amount := D_String D n\<rparr>) = balance_key r" for r by (simp add: balance_key_def)
  show "ix_inv tval w'" using assms(1) key string_law[of n]
    by (simp add: w'_def ix_inv_def) (auto simp: upsert_def update_where_def list_all_iff)
  have "row_of balance_key k (ix_balances w') = (if k = (p, a, i) then
      Some (case row_of balance_key k (ix_balances w) of
        None \<Rightarrow> \<lparr>BD_PartyID = p, BD_InstrumentAdmin = a, BD_InstrumentID = i, BD_Amount = D_String D n\<rparr>
      | Some r \<Rightarrow> r\<lparr>BD_Amount := D_String D n\<rparr>)
    else row_of balance_key k (ix_balances w))" for k
    unfolding w'_def using key by (simp add: row_of_upsert balance_key_def split: option.splits)
  then have "v_bal (ix_view tval w') = (v_bal (ix_view tval w))((p, a, i) := dval n)"
    using string_law[of n] by (auto simp: ix_view_def fun_eq_iff split: option.splits)
  then show "ix_view tval w' = (ix_view tval w)\<lparr>v_bal := (v_bal (ix_view tval w))((p, a, i) := dval n)\<rparr>"
    by (simp add: ix_view_def w'_def)
qed

lemma holder_update:
  fixes i :: instrument and h :: int and w :: "'z indexer_db_scheme"
  assumes "ix_inv tval w"
  defines "w' \<equiv> w\<lparr>ix_tokens := update_where (\<lambda>r. token_key r = i)
      (\<lambda>r. r\<lparr>TD_HolderCount := TD_HolderCount r + h\<rparr>) (ix_tokens w)\<rparr>"
  shows "ix_inv tval w'" "ix_view tval w' = (ix_view tval w)\<lparr>v_holders :=
    (if v_supply (ix_view tval w) i = None then v_holders (ix_view tval w)
     else (v_holders (ix_view tval w))(i := v_holders (ix_view tval w) i + h))\<rparr>"
proof -
  have key: "token_key (r\<lparr>TD_HolderCount := m\<rparr>) = token_key r" for r m by (simp add: token_key_def)
  show "ix_inv tval w'" using assms(1) key
    by (simp add: w'_def ix_inv_def) (auto simp: update_where_def list_all_iff)
  have row: "row_of token_key k (ix_tokens w') = (if k = i then
      map_option (\<lambda>r. r\<lparr>TD_HolderCount := TD_HolderCount r + h\<rparr>) (row_of token_key k (ix_tokens w))
    else row_of token_key k (ix_tokens w))" for k
    unfolding w'_def using key by (simp add: row_of_update_key)
  have "v_supply (ix_view tval w) i = None \<longleftrightarrow> row_of token_key i (ix_tokens w) = None"
    using assms(1) row_of_mem[of token_key i "ix_tokens w"]
    by (cases "row_of token_key i (ix_tokens w)") (auto simp: ix_view_def ix_inv_def list_all_iff)
  moreover have "v_supply (ix_view tval w') = v_supply (ix_view tval w)"
    using row by (auto simp: ix_view_def fun_eq_iff map_option_case split: option.splits)
  moreover have "v_holders (ix_view tval w') k = (case row_of token_key k (ix_tokens w) of None \<Rightarrow> 0
      | Some r \<Rightarrow> if k = i then TD_HolderCount r + h else TD_HolderCount r)" for k
    using row by (auto simp: ix_view_def split: option.splits)
  ultimately show "ix_view tval w' = (ix_view tval w)\<lparr>v_holders :=
    (if v_supply (ix_view tval w) i = None then v_holders (ix_view tval w)
     else (v_holders (ix_view tval w))(i := v_holders (ix_view tval w) i + h))\<rparr>"
    by (auto simp: ix_view_def w'_def fun_eq_iff split: option.splits)
qed

lemma supply_delta_law:
  assumes run: "run_state (ix_ApplySupplyDelta numeric_add a i d) w = (Inr u, w')" and inv: "ix_inv tval w"
    and row: "v_supply (ix_view tval w) (a, i) \<noteq> None" and d: "tval d = Some x"
  shows "ix_inv tval w' \<and> ix_view tval w' = spec_supply (a, i) x (ix_view tval w)"
proof -
  from row obtain r y where r: "row_of token_key (a, i) (ix_tokens w) = Some r" "tval (TD_TotalSupply r) = Some y"
    by (auto simp: ix_view_def bind_eq_Some_conv)
  with run obtain s where s: "numeric_add (TD_TotalSupply r) d = Inr s"
    by (auto simp: ix_ApplySupplyDelta_def split: sum.splits)
  let ?f = "\<lambda>w. w\<lparr>ix_tokens :=
    update_where (\<lambda>r. token_key r = (a, i)) (\<lambda>r. r\<lparr>TD_TotalSupply := s\<rparr>) (ix_tokens w)\<rparr>"
  have "run_state (exec ''apply supply delta'' ?f) w = (Inr u, w')"
    using run r s by (simp add: ix_ApplySupplyDelta_def)
  then show ?thesis
  proof (rule exec_ok)
    fix v assume v: "w' = ?f v" "run_state pg_exec w = (Works, v)"
    have tok: "ix_tokens v = ix_tokens w"
      using v(2) by (auto split: list.splits)
    note t = ix_exec_tables[OF v(2), of tval]
    have key: "token_key (r\<lparr>TD_TotalSupply := s\<rparr>) = token_key r" for r by (simp add: token_key_def)
    have val: "tval s = Some (y + x)" by (rule numeric_law[OF s r(2) d])
    have "ix_inv tval w'"
      using t(1) inv v(1) val key
      by (simp add: ix_inv_def) (auto simp: update_where_def list_all_iff)
    moreover have "ix_view tval w' = spec_supply (a, i) x (ix_view tval v)"
      using v(1) r val key tok
      by (simp add: ix_view_def spec_supply_def row_of_update_key fun_eq_iff)
    ultimately show ?thesis using t by simp
  qed
qed

end

context indexer_numbers
begin

text \<open>What a call that succeeds, or that refuses a negative balance, has read and computed.\<close>

lemma balance_run:
  assumes run: "run_state (ix_ApplyBalanceDelta D p a i s) w = (r, w')"
    and r: "r = Inr () \<or> (\<exists>er. r = Inl er \<and> errors_Is er ErrNegativeBalance)"
  obtains isNew old d w1 where "run_state pg_exec w = (Works, w1)" "NewFromString D s = Inr d"
    "v_bal (ix_view tval w1) (p, a, i) = dval old" "isNew \<longrightarrow> dval old = 0"
    "if dval old + dval d < 0 then w' = w1 \<and> r \<noteq> Inr ()
     else run_state (ix_write_balance D p a i (isNew) old (D_Add D old d)) w1 = (r, w')"
proof -
  let ?g = "\<lambda>w. row_of balance_key (p, a, i) (ix_balances w)"
  obtain q w1 where q: "run_state (query ''read balance'' ?g) w = (q, w1)" by (rule run_obtain)
  have "\<exists>x. q = Inr x"
  proof (cases q)
    case (Inl e)
    with run q have "r = Inl e" by (simp add: ix_ApplyBalanceDelta_def)
    with r query_no_sentinel[OF q[unfolded Inl]] show ?thesis by blast
  qed simp
  then obtain row where row: "q = Inr row" ..
  note qo = query_ok[OF q[unfolded row]]
  let ?old = "case row of None \<Rightarrow> Inr (D_Zero D) | Some d \<Rightarrow> NewFromString D (BD_Amount d)"
  have "\<exists>x. ?old = Inr x"
  proof (cases ?old)
    case (Inl e)
    then have "\<not> errors_Is e ErrNegativeBalance" using parse_error by (auto split: option.splits)
    moreover have "r = Inl (Errorf ''parse old amount'' e)"
      using run q row Inl by (simp add: ix_ApplyBalanceDelta_def)
    ultimately show ?thesis using r by simp
  qed simp
  then obtain old where old: "?old = Inr old" ..
  have "\<exists>x. NewFromString D s = Inr x"
  proof (cases "NewFromString D s")
    case (Inl e)
    moreover have "r = Inl (Errorf (''parse delta '' @ s) e)"
      using run q row old Inl by (simp add: ix_ApplyBalanceDelta_def)
    ultimately show ?thesis using r parse_error[OF Inl] by simp
  qed simp
  then obtain d where d: "NewFromString D s = Inr d" ..
  have v: "v_bal (ix_view tval w1) (p, a, i) = dval old" "row = None \<longrightarrow> dval old = 0"
    using old qo(2) parse_law zero_law by (auto simp: ix_view_def split: option.splits)
  have "if dval old + dval d < 0 then w' = w1 \<and> r \<noteq> Inr ()
     else run_state (ix_write_balance D p a i (row = None) old (D_Add D old d)) w1 = (r, w')"
    using run q row old d by (auto simp: ix_ApplyBalanceDelta_def neg_law add_law)
  with that[of w1 d old "row = None"] qo(1) d v show thesis by blast
qed

lemma write_balance_ok:
  assumes run: "run_state (ix_write_balance D p a i new old n) w = (Inr u, w')" and inv: "ix_inv tval w"
    and old: "v_bal (ix_view tval w) (p, a, i) = dval old" "new \<longrightarrow> dval old = 0"
  shows "ix_inv tval w' \<and> ix_view tval w' = (ix_view tval w)\<lparr>v_bal := (v_bal (ix_view tval w))((p, a, i) := dval n),
    v_holders := (if v_supply (ix_view tval w) (a, i) = None then v_holders (ix_view tval w)
      else (v_holders (ix_view tval w))((a, i) := v_holders (ix_view tval w) (a, i) + holder_step (dval old) (dval n)))\<rparr>"
proof -
  let ?f = "\<lambda>w. w\<lparr>ix_balances := upsert balance_key (\<lambda>r. r\<lparr>BD_Amount := D_String D n\<rparr>)
      \<lparr>BD_PartyID = p, BD_InstrumentAdmin = a, BD_InstrumentID = i, BD_Amount = D_String D n\<rparr> (ix_balances w)\<rparr>"
  define h where "h = holder_delta (new \<or> IsZero D old) (IsZero D n)"
  have h: "h = holder_step (dval old) (dval n)"
    using old(2) by (auto simp: h_def holder_delta_def holder_step_def is_zero_law)
  let ?k = "\<lambda>w. w\<lparr>ix_tokens := update_where (\<lambda>r. token_key r = (a, i))
      (\<lambda>r. r\<lparr>TD_HolderCount := TD_HolderCount r + h\<rparr>) (ix_tokens w)\<rparr>"
  obtain x w1 where x: "run_state (exec ''upsert balance'' ?f) w = (x, w1)" by (rule run_obtain)
  with run have ok: "x = Inr ()" by (cases x) (auto simp: ix_write_balance_def)
  let ?v = "(ix_view tval w)\<lparr>v_bal := (v_bal (ix_view tval w))((p, a, i) := dval n)\<rparr>"
  have w1: "ix_inv tval w1 \<and> ix_view tval w1 = ?v"
    by (rule ix_exec_law[OF x[unfolded ok] inv]) (simp only: balance_upsert simp_thms)
  show ?thesis
  proof (cases "h = 0")
    case True
    with run x ok have "w' = w1" by (simp add: ix_write_balance_def h_def)
    with w1 True h show ?thesis by simp
  next
    case False
    with run x ok have "run_state (exec ''update holder count'' ?k) w1 = (Inr u, w')"
      by (simp add: ix_write_balance_def h_def)
    then have "ix_inv tval w' \<and> ix_view tval w' = (ix_view tval w1)\<lparr>v_holders :=
      (if v_supply (ix_view tval w1) (a, i) = None then v_holders (ix_view tval w1)
       else (v_holders (ix_view tval w1))((a, i) := v_holders (ix_view tval w1) (a, i) + h))\<rparr>"
      by (rule ix_exec_law[OF _ w1[THEN conjunct1]]) (simp only: holder_update simp_thms)
    with w1 h show ?thesis by simp
  qed
qed

lemma balance_delta_law:
  assumes "run_state (ix_ApplyBalanceDelta D p a i s) w = (Inr u, w')" "ix_inv tval w"
  shows "ix_inv tval w' \<and> (\<exists>x. tval s = Some x \<and> spec_balance (p, (a, i)) x (ix_view tval w) = Some (ix_view tval w'))"
proof (rule balance_run[OF assms(1)], goal_cases)
  case 1
  then show ?case by simp
next
  case b: (2 isNew old d w1)
  note t = ix_exec_tables[OF b(1), of tval]
  have nn: "\<not> dval old + dval d < 0"
    and w: "run_state (ix_write_balance D p a i isNew old (D_Add D old d)) w1 = (Inr u, w')"
    using b(5) by (auto split: if_splits)
  have inv1: "ix_inv tval w1" using t assms(2) by simp
  from write_balance_ok[OF w inv1 b(3,4)] nn parse_law[OF b(2)] t b(3) show ?case
    by (auto simp: spec_balance_def add_law Let_def)
qed

lemma negative_delta_law:
  assumes "run_state (ix_ApplyBalanceDelta D p a i s) w = (Inl er, w')" "ix_inv tval w" "errors_Is er ErrNegativeBalance"
  shows "ix_inv tval w' \<and> ix_view tval w' = ix_view tval w \<and>
    (\<exists>x. tval s = Some x \<and> spec_balance (p, (a, i)) x (ix_view tval w) = None)"
proof (rule balance_run[OF assms(1)], goal_cases)
  case 1
  then show ?case using assms(3) by simp
next
  case b: (2 isNew old d w1)
  note t = ix_exec_tables[OF b(1), of tval]
  have "\<not> errors_Is er ErrNegativeBalance"
    if "run_state (ix_write_balance D p a i isNew old (D_Add D old d)) w1 = (Inl er, w')"
    using that by (auto simp: ix_write_balance_def Let_def split: prod.splits sum.splits if_splits
        dest: exec_no_sentinel)
  then have "dval old + dval d < 0" "w' = w1"
    using b(5) assms(3) by (auto split: if_splits)
  with t parse_law[OF b(2)] assms(2) b(3) show ?case by (auto simp: spec_balance_def)
qed

lemma balance_delta_parses:
  "run_state (ix_ApplyBalanceDelta D p a i s) w = (Inr u, w') \<Longrightarrow> \<exists>x. tval s = Some x"
  by (erule balance_run) (auto dest: parse_law)

end

sublocale indexer_numbers \<subseteq> ix: engine_store "IndexerPGStore D numeric_add" "ix_inv tval" "ix_view tval" tval
proof (unfold_locales, unfold IndexerPGStore_def EngineStore.simps, goal_cases)
  case (1 w ro w')
  then show ?case using latest_offset_law[of w ro w' tval] by simp
next
  case (2 m w r w')
  from 2(1) show ?case
  proof (cases rule: run_in_tx_cases[where ?'c = "bool \<times> view"])
    case (aborted e)
    from aborted(2)[OF ix_tables[of tval]] aborted(1) 2(2) show ?thesis by simp
  next
    case (committed w1 x w2)
    from committed(1)[OF ix_tables[of tval]] have w1: "ix_inv tval w1" "ix_view tval w1 = ix_view tval w"
      using 2(2) by simp_all
    from committed(3)[OF ix_tables[of tval]] have "ix_inv tval w' = ix_inv tval w2" "ix_view tval w' = ix_view tval w2"
      by simp_all
    with w1 committed(2) 2(3)[of w1 w2] show ?thesis by auto
  qed
qed (erule insert_event_law upsert_token_law supply_delta_law balance_delta_parses balance_delta_law
       negative_delta_law insert_transfer_law finalize_transfer_law insert_holding_law take_holding_law
       save_offset_law minus_text; assumption)+

end
