(* ===== verification/Indexer_Books.thy ===== *)
theory Indexer_Books
  imports Indexer_Processor
begin

text \<open>
  What a batch keeps of the books: balances are never negative and cover what was issued, holder
  counts are exact, a settled transfer stays settled, a batch that is replayed changes nothing.
  All of it about \<open>spec_batch\<close>; the store theories carry it over to the tables.
\<close>

section \<open>Totals\<close>

definition total_of :: "view \<Rightarrow> instrument \<Rightarrow> rat" where
  "total_of v i = (\<Sum>p | v_bal v (p, i) \<noteq> 0. v_bal v (p, i))"

definition supply_of :: "view \<Rightarrow> instrument \<Rightarrow> rat" where
  "supply_of v i = (case v_supply v i of None \<Rightarrow> 0 | Some x \<Rightarrow> x)"

definition held_amount :: "(string \<Rightarrow> rat option) \<Rightarrow> view \<Rightarrow> instrument \<Rightarrow> string \<Rightarrow> rat" where
  "held_amount tval v i c =
     (case v_holdings v c of
        Some h \<Rightarrow> if snd (holding_key h) = i then (case tval (H_Amount h) of None \<Rightarrow> 0 | Some x \<Rightarrow> x) else 0
      | None \<Rightarrow> 0)"

definition held_of :: "(string \<Rightarrow> rat option) \<Rightarrow> view \<Rightarrow> instrument \<Rightarrow> rat" where
  "held_of tval v i = (\<Sum>c | v_holdings v c \<noteq> None. held_amount tval v i c)"

definition books_ok :: "(string \<Rightarrow> rat option) \<Rightarrow> view \<Rightarrow> bool" where
  "books_ok tval v \<longleftrightarrow>
     finite {k. v_bal v k \<noteq> 0} \<and> finite {c. v_holdings v c \<noteq> None} \<and>
     (\<forall>k. 0 \<le> v_bal v k) \<and> (\<forall>i. supply_of v i + held_of tval v i \<le> total_of v i)"

text \<open>A holding on the ledger has a positive amount.\<close>

fun holding_nonneg :: "(string \<Rightarrow> rat option) \<Rightarrow> item \<Rightarrow> bool" where
  "holding_nonneg tval (Item_Holding h) \<longleftrightarrow> (case tval (H_Amount h) of None \<Rightarrow> True | Some x \<Rightarrow> 0 \<le> x)"
| "holding_nonneg tval _ \<longleftrightarrow> True"

lemma sum_nonzero_upd:
  fixes f :: "'a \<Rightarrow> rat"
  assumes "finite {x. f x \<noteq> 0}"
  shows "(\<Sum>x | (f(a := y)) x \<noteq> 0. (f(a := y)) x) = (\<Sum>x | f x \<noteq> 0. f x) + (y - f a)"
    "finite {x. (f(a := y)) x \<noteq> 0}"
proof -
  let ?A = "insert a {x. f x \<noteq> 0}"
  have fin: "finite ?A" using assms by simp
  have sub: "{x. (f(a := y)) x \<noteq> 0} \<subseteq> ?A" by auto
  then show "finite {x. (f(a := y)) x \<noteq> 0}" by (rule finite_subset[OF _ fin])
  have g: "(\<Sum>x | g x \<noteq> 0. g x) = sum g ?A" if "{x. g x \<noteq> 0} \<subseteq> ?A" for g :: "'a \<Rightarrow> rat"
    by (rule sum.mono_neutral_left) (use that fin in auto)
  let ?B = "{x. f x \<noteq> 0} - {a}"
  have A: "?A = insert a ?B" by blast
  have ins: "sum g (insert a ?B) = g a + sum g ?B" for g :: "'a \<Rightarrow> rat"
    by (rule sum.insert) (use assms in auto)
  have "sum (f(a := y)) ?B = sum f ?B" by (rule sum.cong) auto
  then have "sum (f(a := y)) ?A = sum f ?A + (y - f a)"
    unfolding A ins by simp
  then show "(\<Sum>x | (f(a := y)) x \<noteq> 0. (f(a := y)) x) = (\<Sum>x | f x \<noteq> 0. f x) + (y - f a)"
    using g[OF sub] g[OF subset_insertI] by linarith
qed

lemma finite_parties: "finite {k. v_bal v k \<noteq> 0} \<Longrightarrow> finite {p. v_bal v (p, i) \<noteq> 0}"
  by (rule finite_imageD[of "\<lambda>p. (p, i)"]) (auto intro: inj_onI finite_subset)

lemma spec_balance_books:
  assumes sb: "spec_balance (p, i) d v = Some v'" and fin: "finite {k. v_bal v k \<noteq> 0}"
  shows "v_supply v' = v_supply v" "v_holdings v' = v_holdings v" "v_events v' = v_events v"
    "v_transfers v' = v_transfers v" "finite {k. v_bal v' k \<noteq> 0}"
    "total_of v' j = total_of v j + (if j = i then d else 0)"
    "(\<forall>k. 0 \<le> v_bal v k) \<Longrightarrow> 0 \<le> v_bal v' k"
proof -
  have bal: "v_bal v' = (v_bal v)((p, i) := v_bal v (p, i) + d)" "0 \<le> v_bal v (p, i) + d"
    and rest: "v_supply v' = v_supply v" "v_holdings v' = v_holdings v" "v_events v' = v_events v"
      "v_transfers v' = v_transfers v"
    using sb by (auto simp: spec_balance_def Let_def split: if_splits)
  show "v_supply v' = v_supply v" "v_holdings v' = v_holdings v" "v_events v' = v_events v"
    "v_transfers v' = v_transfers v" by (fact rest)+
  show "finite {k. v_bal v' k \<noteq> 0}" unfolding bal(1) by (rule sum_nonzero_upd(2)[OF fin])
  show "(\<forall>k. 0 \<le> v_bal v k) \<Longrightarrow> 0 \<le> v_bal v' k" using bal by (simp del: split_paired_All)
  show "total_of v' j = total_of v j + (if j = i then d else 0)"
  proof (cases "j = i")
    case True
    then have "(\<lambda>q. v_bal v' (q, j)) = (\<lambda>q. v_bal v (q, j))(p := v_bal v (p, i) + d)"
      unfolding bal(1) by auto
    from arg_cong[OF this, of "\<lambda>f. \<Sum>x | f x \<noteq> 0. f x"] show ?thesis
      using True sum_nonzero_upd(1)[OF finite_parties[OF fin, of i], of p "v_bal v (p, i) + d"]
      by (simp add: total_of_def)
  next
    case False
    then show ?thesis unfolding total_of_def bal(1) by simp
  qed
qed

lemma held_of_cong: "v_holdings v' = v_holdings v \<Longrightarrow> held_of tval v' i = held_of tval v i"
  by (simp add: held_of_def held_amount_def)

lemma supply_of_cong: "v_supply v' = v_supply v \<Longrightarrow> supply_of v' i = supply_of v i"
  by (simp add: supply_of_def)

lemma held_amount_zero: "v_holdings v c = None \<Longrightarrow> held_amount tval v i c = 0"
  by (simp add: held_amount_def)

text \<open>Adding or removing one holding.\<close>

lemma held_of_upd:
  assumes fin: "finite {c. v_holdings v c \<noteq> None}" and v': "v_holdings v' = (v_holdings v)(c := o')"
  shows "held_of tval v' i = held_of tval v i - held_amount tval v i c + held_amount tval v' i c"
    "finite {c. v_holdings v' c \<noteq> None}"
proof -
  let ?A = "insert c {c. v_holdings v c \<noteq> None}"
  have A: "finite ?A" using fin by simp
  have sub: "{c. v_holdings v' c \<noteq> None} \<subseteq> ?A" using v' by (auto split: if_splits)
  then show "finite {c. v_holdings v' c \<noteq> None}" by (rule finite_subset[OF _ A])
  have h: "held_of tval u i = (\<Sum>x\<in>?A. held_amount tval u i x)" if "{c. v_holdings u c \<noteq> None} \<subseteq> ?A" for u
    unfolding held_of_def by (rule sum.mono_neutral_left) (use that A held_amount_zero in auto)
  let ?B = "?A - {c}"
  have split: "(\<Sum>x\<in>?A. g x) = g c + (\<Sum>x\<in>?B. g x)" for g :: "string \<Rightarrow> rat"
    by (rule sum.remove[OF A]) simp
  have "(\<Sum>x\<in>?B. held_amount tval v' i x) = (\<Sum>x\<in>?B. held_amount tval v i x)"
    by (rule sum.cong) (auto simp: held_amount_def v')
  with h[OF sub] h[OF subset_insertI] split[of "held_amount tval v i"] split[of "held_amount tval v' i"]
  show "held_of tval v' i = held_of tval v i - held_amount tval v i c + held_amount tval v' i c" by linarith
qed

section \<open>The books balance\<close>

text \<open>What an amount with a minus sign in front means, the only fact about texts used here.\<close>

definition minus_ok :: "(string \<Rightarrow> rat option) \<Rightarrow> bool" where
  "minus_ok tval \<longleftrightarrow> (\<forall>s x. tval (CHR ''-'' # s) = Some x \<longrightarrow> tval s = Some (- x) \<and> x \<le> 0)"

lemma books_okD:
  assumes "books_ok tval v"
  shows "finite {k. v_bal v k \<noteq> 0}" "finite {c. v_holdings v c \<noteq> None}" "0 \<le> v_bal v k"
    "supply_of v i + held_of tval v i \<le> total_of v i"
  using assms unfolding books_ok_def by blast+

lemma books_okI:
  assumes "finite {k. v_bal v k \<noteq> 0}" "finite {c. v_holdings v c \<noteq> None}" "\<And>k. 0 \<le> v_bal v k"
    "\<And>i. supply_of v i + held_of tval v i \<le> total_of v i"
  shows "books_ok tval v"
  using assms unfolding books_ok_def by blast

lemma books_balance:
  assumes "spec_balance (p, i) d v = Some v'" "books_ok tval v"
  shows "finite {k. v_bal v' k \<noteq> 0}" "0 \<le> v_bal v' k" "v_holdings v' = v_holdings v"
    "v_supply v' = v_supply v" "total_of v' j = total_of v j + (if j = i then d else 0)"
  using spec_balance_books[OF assms(1) books_okD(1)[OF assms(2)]] books_okD(3)[OF assms(2)] by auto

lemma books_grow:
  assumes "spec_balance (p, i) d v = Some v'" "books_ok tval v" "0 \<le> d"
  shows "books_ok tval v'"
proof -
  note b = books_balance[OF assms(1,2)]
  have "supply_of v' j + held_of tval v' j \<le> total_of v' j" for j
    using books_okD(4)[OF assms(2), of j] assms(3) held_of_cong[OF b(3), of tval j] supply_of_cong[OF b(4), of j] b(5)[of j]
    by auto
  with b(1-3) books_okD(2)[OF assms(2)] show ?thesis by (intro books_okI) simp_all
qed

lemma books_supply:
  assumes "spec_balance (p, i) d (spec_supply i d v) = Some v'" "books_ok tval v" "v_supply v i \<noteq> None"
  shows "books_ok tval v'"
proof -
  let ?u = "spec_supply i d v"
  have u: "v_bal ?u = v_bal v" "v_holdings ?u = v_holdings v" by (simp_all add: spec_supply_def)
  have sup: "supply_of ?u j = supply_of v j + (if j = i then d else 0)" for j
    using assms(3) by (auto simp: supply_of_def spec_supply_def)
  have fin: "finite {k. v_bal ?u k \<noteq> 0}" using books_okD(1)[OF assms(2)] u by simp
  note b = spec_balance_books[OF assms(1) fin]
  have tot: "total_of ?u j = total_of v j" for j using u by (simp add: total_of_def)
  have "supply_of v' j + held_of tval v' j \<le> total_of v' j" for j
    using books_okD(4)[OF assms(2), of j] supply_of_cong[OF b(1), of j] held_of_cong[OF b(2), of tval j]
      held_of_cong[OF u(2), of tval j] b(6)[of j] sup[of j] tot[of j] by simp
  moreover have "0 \<le> v_bal v' k" for k using b(7)[of k] books_okD(3)[OF assms(2)] u by simp
  ultimately show ?thesis using b(2,5) u books_okD(2)[OF assms(2)] by (intro books_okI) simp_all
qed

lemma books_cong:
  assumes "books_ok tval v" "v_bal v' = v_bal v" "v_holdings v' = v_holdings v" "\<And>i. supply_of v' i = supply_of v i"
  shows "books_ok tval v'"
  using assms(1,4) held_of_cong[OF assms(3)] assms(2,3) by (simp add: books_ok_def total_of_def)

lemma books_token: "books_ok tval v \<Longrightarrow> books_ok tval (spec_token i v)"
  by (erule books_cong) (auto simp: spec_token_def supply_of_def)

lemma books_other:
  "books_ok tval v \<Longrightarrow> books_ok tval (spec_insert_transfer t v)"
  "books_ok tval v \<Longrightarrow> books_ok tval (spec_finalize c st v)"
  "books_ok tval v \<Longrightarrow> books_ok tval (v\<lparr>v_events := es\<rparr>)"
  "books_ok tval v \<Longrightarrow> books_ok tval (v\<lparr>v_offset := n\<rparr>)"
  by (erule books_cong; auto simp: spec_insert_transfer_def spec_finalize_def supply_of_def split: option.splits)+

text \<open>The three ways an event or a holding changes the state.\<close>

lemma new_event_cases:
  assumes ev: "spec_new_event tval e v = Some v'"
  defines "v1 \<equiv> spec_token (event_instrument e) (v\<lparr>v_events := (v_events v)(PE_ContractID e \<mapsto> e)\<rparr>)"
  obtains (issue) p x where "spec_balance (p, event_instrument e) x (spec_supply (event_instrument e) x v1) = Some v'"
  | (pay) f t d a v3 where "tval (CHR ''-'' # PE_Amount e) = Some d" "tval (PE_Amount e) = Some a"
      "spec_balance (t, event_instrument e) a
         (case spec_balance (f, event_instrument e) d v1 of None \<Rightarrow> v1 | Some v2 \<Rightarrow> v2) = Some v3"
      "v' = spec_insert_transfer (direct_transfer e f t) v3"
proof (cases "PE_FromPartyID e")
  case None
  with ev obtain t where "PE_ToPartyID e = Some t" by (cases "PE_ToPartyID e") (simp_all add: spec_new_event_def Let_def)
  with ev None issue show thesis by (auto simp: spec_new_event_def Let_def v1_def bind_eq_Some_conv)
next
  case f: (Some f)
  show thesis
  proof (cases "PE_ToPartyID e")
    case None
    with ev f issue show thesis by (auto simp: spec_new_event_def Let_def v1_def bind_eq_Some_conv)
  next
    case (Some t)
    with ev f obtain d a v3 where "tval (CHR ''-'' # PE_Amount e) = Some d" "tval (PE_Amount e) = Some a"
      "spec_balance (t, event_instrument e) a
         (case spec_balance (f, event_instrument e) d v1 of None \<Rightarrow> v1 | Some v2 \<Rightarrow> v2) = Some v3"
      "v' = spec_insert_transfer (direct_transfer e f t) v3"
      unfolding spec_new_event_def Let_def v1_def[symmetric]
      by (simp only: prod.case option.case bind_eq_Some_conv map_option_eq_Some) blast
    then show thesis by (rule pay)
  qed
qed

lemma holding_cases:
  assumes "spec_holding tval h v = Some v'"
  obtains (skip) "v' = v"
  | (out) st d where "H_IsArchived h" "v_holdings v (H_ContractID h) = Some st" "tval (CHR ''-'' # H_Amount st) = Some d"
      "v' = (case spec_balance (holding_key st) d (v\<lparr>v_holdings := (v_holdings v)(H_ContractID h := None)\<rparr>) of
         None \<Rightarrow> v\<lparr>v_holdings := (v_holdings v)(H_ContractID h := None)\<rparr> | Some v2 \<Rightarrow> v2)"
  | (come) a where "\<not> H_IsArchived h" "\<not> H_Locked h" "H_Owner h \<noteq> ''''" "H_InstrumentID h \<noteq> ''''"
      "H_InstrumentAdmin h \<noteq> ''''" "tval (H_Amount h) = Some a"
      "spec_balance (holding_key h) a (if v_holdings v (H_ContractID h) = None
         then v\<lparr>v_holdings := (v_holdings v)(H_ContractID h \<mapsto> stored_holding h)\<rparr> else v) = Some v'"
proof (cases "H_IsArchived h")
  case True
  show thesis
  proof (cases "v_holdings v (H_ContractID h)")
    case None
    with True assms have "v' = v" by (simp add: spec_holding_def)
    then show thesis by (rule skip)
  next
    case (Some st)
    with True assms obtain d where "tval (CHR ''-'' # H_Amount st) = Some d"
      "v' = (case spec_balance (holding_key st) d (v\<lparr>v_holdings := (v_holdings v)(H_ContractID h := None)\<rparr>) of
         None \<Rightarrow> v\<lparr>v_holdings := (v_holdings v)(H_ContractID h := None)\<rparr> | Some v2 \<Rightarrow> v2)"
      unfolding spec_holding_def Let_def by (simp only: if_True option.case bind_eq_Some_conv option.inject) blast
    then show thesis by (rule out[OF True Some])
  qed
next
  case False
  show thesis
  proof (cases "H_Owner h = '''' \<or> H_InstrumentID h = '''' \<or> H_InstrumentAdmin h = '''' \<or> H_Locked h")
    case True
    with False assms have "v' = v" by (simp add: spec_holding_def)
    then show thesis by (rule skip)
  next
    case named: False
    with False assms obtain a where "tval (H_Amount h) = Some a"
      "spec_balance (holding_key h) a (if v_holdings v (H_ContractID h) = None
         then v\<lparr>v_holdings := (v_holdings v)(H_ContractID h \<mapsto> stored_holding h)\<rparr> else v) = Some v'"
      unfolding spec_holding_def Let_def by (simp only: if_False bind_eq_Some_conv) blast
    with False named show thesis by (intro come) auto
  qed
qed

lemma books_event:
  assumes "spec_event tval e v = Some v'" "books_ok tval v" "minus_ok tval"
  shows "books_ok tval v'"
proof (cases "v_events v (PE_ContractID e) = None")
  case True
  let ?i = "event_instrument e"
  let ?v1 = "spec_token ?i (v\<lparr>v_events := (v_events v)(PE_ContractID e \<mapsto> e)\<rparr>)"
  have b1: "books_ok tval ?v1" by (intro books_token books_other(3) assms(2))
  have row: "v_supply ?v1 ?i \<noteq> None" by (simp add: spec_token_def)
  have ev: "spec_new_event tval e v = Some v'" using assms(1) True by (simp add: spec_event_def)
  from ev show ?thesis
  proof (cases rule: new_event_cases)
    case (issue p x)
    from books_supply[OF this b1 row] show ?thesis .
  next
    case move: (pay f t d a v3)
    have a: "a = - d" "0 \<le> a" using move(1,2) assms(3) by (auto simp: minus_ok_def)
    show ?thesis
    proof (cases "spec_balance (f, ?i) d ?v1")
      case None
      with move(3) have "spec_balance (t, ?i) a ?v1 = Some v3" by simp
      from books_other(1)[OF books_grow[OF this b1 a(2)]] move(4) show ?thesis by simp
    next
      case (Some u)
      with move(3) have m: "spec_balance (t, ?i) a u = Some v3" by simp
      note u = books_balance[OF Some b1]
      note w = spec_balance_books[OF m u(1)]
      have "supply_of v3 j + held_of tval v3 j \<le> total_of v3 j" for j
        using books_okD(4)[OF b1, of j] held_of_cong[OF u(3), of tval j] supply_of_cong[OF u(4), of j]
          held_of_cong[OF w(2), of tval j] supply_of_cong[OF w(1), of j] u(5)[of j] w(6)[of j] a
        by (cases "j = ?i") simp_all
      moreover have "0 \<le> v_bal v3 k" for k using w(7)[of k] u(2) by blast
      moreover have "finite {c. v_holdings v3 c \<noteq> None}"
        using books_okD(2)[OF b1] u(3) w(2) by simp
      ultimately have "books_ok tval v3" using w(5) by (intro books_okI)
      then show ?thesis unfolding move(4) by (rule books_other(1))
    qed
  qed
next
  case False
  with assms show ?thesis by (simp add: spec_event_def)
qed

text \<open>A holding that comes: its row and its balance.  One that goes: both again, or the row alone.\<close>

lemma books_holding_in:
  assumes "spec_balance (holding_key h) a v1 = Some v'" "books_ok tval v" "tval (H_Amount h) = Some a" "0 \<le> a"
    and v1: "v1 = (if v_holdings v (H_ContractID h) = None
                   then v\<lparr>v_holdings := (v_holdings v)(H_ContractID h \<mapsto> stored_holding h)\<rparr> else v)"
  shows "books_ok tval v'"
proof (cases "v_holdings v (H_ContractID h) = None")
  case True
  then have v1: "v1 = v\<lparr>v_holdings := (v_holdings v)(H_ContractID h \<mapsto> stored_holding h)\<rparr>" using v1 by simp
  obtain p i where k: "holding_key h = (p, i)" by (cases "holding_key h")
  have fin: "finite {k. v_bal v1 k \<noteq> 0}" using books_okD(1)[OF assms(2)] v1 by simp
  note b = spec_balance_books[OF assms(1)[unfolded k] fin]
  have up: "v_holdings v' = (v_holdings v)(H_ContractID h \<mapsto> stored_holding h)" using b(2) v1 by simp
  note u = held_of_upd[OF books_okD(2)[OF assms(2)] up]
  have amt: "held_amount tval v' j (H_ContractID h) = (if j = i then a else 0)" "held_amount tval v j (H_ContractID h) = 0" for j
    using up True assms(3) k by (auto simp: held_amount_def stored_holding_def holding_key_def)
  have "supply_of v' j + held_of tval v' j \<le> total_of v' j" for j
    using books_okD(4)[OF assms(2), of j] u(1)[of tval j] amt[of j] supply_of_cong[OF b(1), of j] b(6)[of j] v1
    by (simp add: total_of_def supply_of_def)
  moreover have "0 \<le> v_bal v' k" for k using b(7)[of k] books_okD(3)[OF assms(2)] v1 by simp
  ultimately show ?thesis using b(5) u(2) by (intro books_okI)
next
  case False
  with assms show ?thesis by (cases "holding_key h") (auto intro: books_grow)
qed

lemma books_holding_out:
  assumes st: "v_holdings v c = Some st" and d: "tval (CHR ''-'' # H_Amount st) = Some d" and ok: "books_ok tval v" "minus_ok tval"
    and v1: "v1 = v\<lparr>v_holdings := (v_holdings v)(c := None)\<rparr>"
    and v': "v' = (case spec_balance (holding_key st) d v1 of None \<Rightarrow> v1 | Some v2 \<Rightarrow> v2)"
  shows "books_ok tval v'"
proof -
  have a: "tval (H_Amount st) = Some (- d)" "d \<le> 0" using d ok(2) by (auto simp: minus_ok_def)
  obtain p i where k: "holding_key st = (p, i)" by (cases "holding_key st")
  have up: "v_holdings v1 = (v_holdings v)(c := None)" using v1 by simp
  note u = held_of_upd[OF books_okD(2)[OF ok(1)] up]
  have amt: "held_amount tval v1 j c = 0" "held_amount tval v j c = (if j = i then - d else 0)" for j
    using up st a(1) k by (auto simp: held_amount_def)
  have v1': "v_bal v1 = v_bal v" "supply_of v1 j = supply_of v j" "total_of v1 j = total_of v j" for j
    using v1 by (simp_all add: supply_of_def total_of_def)
  have held: "held_of tval v1 j = held_of tval v j + (if j = i then d else 0)" for j
    using u(1)[of tval j] amt[of j] by simp
  have "supply_of v1 j + held_of tval v1 j \<le> total_of v1 j" for j
    using books_okD(4)[OF ok(1), of j] v1'(2,3)[of j] held[of j] a(2) by (cases "j = i") simp_all
  then have b1: "books_ok tval v1"
    using books_okD(1-3)[OF ok(1)] v1'(1) u(2) by (intro books_okI) simp_all
  show ?thesis
  proof (cases "spec_balance (holding_key st) d v1")
    case None
    with v' b1 show ?thesis by simp
  next
    case (Some v2)
    note b = books_balance[OF Some[unfolded k] b1]
    have "supply_of v2 j + held_of tval v2 j \<le> total_of v2 j" for j
      using books_okD(4)[OF ok(1), of j] held[of j] v1'(2,3)[of j] held_of_cong[OF b(3), of tval j] supply_of_cong[OF b(4), of j] b(5)[of j]
      by simp
    with b(1-3) u(2) have "books_ok tval v2" by (intro books_okI) simp_all
    with Some v' show ?thesis by simp
  qed
qed

lemma books_item:
  assumes "spec_item tval i v = Some v'" "books_ok tval v" "minus_ok tval" "holding_nonneg tval i"
  shows "books_ok tval v'"
proof (cases i)
  case (Item_Event e)
  with assms books_event show ?thesis by simp
next
  case (Item_Transfer t)
  with assms books_other(1,2) show ?thesis by (auto split: if_splits)
next
  case (Item_Holding h)
  with assms(1) have "spec_holding tval h v = Some v'" by simp
  then show ?thesis
  proof (cases rule: holding_cases)
    case skip
    with assms(2) show ?thesis by simp
  next
    case (out st d)
    from books_holding_out[OF out(2,3) assms(2,3) refl out(4)] show ?thesis .
  next
    case (come a)
    with assms(4) Item_Holding have "0 \<le> a" by simp
    from books_holding_in[OF come(7) assms(2) come(6) this refl] show ?thesis .
  qed
qed

lemma books_items:
  "spec_items tval is v = Some v' \<Longrightarrow> books_ok tval v \<Longrightarrow> minus_ok tval \<Longrightarrow> list_all (holding_nonneg tval) is \<Longrightarrow>
   books_ok tval v'"
  by (induction "is" arbitrary: v) (auto simp: bind_eq_Some_conv intro: books_item)

lemma books_batch:
  assumes "spec_batch tval b v = Some v'" "books_ok tval v" "minus_ok tval" "list_all (holding_nonneg tval) (b_Items b)"
  shows "books_ok tval v'"
  using assms books_items books_other(4) by (auto simp: spec_batch_def)

section \<open>History\<close>

text \<open>
  Events and transfers are never removed; of a transfer only the status changes, once, from pending
  to a terminal one.
\<close>

definition history_kept :: "view \<Rightarrow> view \<Rightarrow> bool" where
  "history_kept v v' \<longleftrightarrow> v_events v \<subseteq>\<^sub>m v_events v' \<and>
     (\<forall>c t. v_transfers v c = Some t \<longrightarrow> (\<exists>t'. v_transfers v' c = Some t' \<and>
        (t' = t \<or> X_Status t = StatusPending \<and>
           (\<exists>st \<in> {StatusCompleted, StatusCanceled, StatusRejected}. t' = t\<lparr>X_Status := st\<rparr>))))"

lemma history_refl [simp]: "history_kept v v"
  by (auto simp: history_kept_def)

lemma history_trans: "history_kept u v \<Longrightarrow> history_kept v w \<Longrightarrow> history_kept u w"
proof -
  assume a: "history_kept u v" "history_kept v w"
  have ne: "StatusCompleted \<noteq> StatusPending" "StatusCanceled \<noteq> StatusPending" "StatusRejected \<noteq> StatusPending"
    by (simp_all add: indexer_consts)
  have "\<exists>t'. v_transfers w c = Some t' \<and> (t' = t \<or> X_Status t = StatusPending \<and>
      (\<exists>st \<in> {StatusCompleted, StatusCanceled, StatusRejected}. t' = t\<lparr>X_Status := st\<rparr>))"
    if t: "v_transfers u c = Some t" for c t
  proof -
    obtain t1 where t1: "v_transfers v c = Some t1" "t1 = t \<or> X_Status t = StatusPending \<and>
      (\<exists>st \<in> {StatusCompleted, StatusCanceled, StatusRejected}. t1 = t\<lparr>X_Status := st\<rparr>)"
      using a(1) t unfolding history_kept_def by blast
    obtain t2 where t2: "v_transfers w c = Some t2" "t2 = t1 \<or> X_Status t1 = StatusPending \<and>
      (\<exists>st \<in> {StatusCompleted, StatusCanceled, StatusRejected}. t2 = t1\<lparr>X_Status := st\<rparr>)"
      using a(2) t1(1) unfolding history_kept_def by blast
    from t1(2) show ?thesis
    proof
      assume "t1 = t"
      with t2 show ?thesis by blast
    next
      assume s: "X_Status t = StatusPending \<and> (\<exists>st \<in> {StatusCompleted, StatusCanceled, StatusRejected}. t1 = t\<lparr>X_Status := st\<rparr>)"
      then have "X_Status t1 \<noteq> StatusPending" using ne by auto
      with t2 have "t2 = t1" by blast
      with t2(1) s show ?thesis by blast
    qed
  qed
  moreover have "v_events u \<subseteq>\<^sub>m v_events w" using a map_le_trans unfolding history_kept_def by blast
  ultimately show ?thesis unfolding history_kept_def by blast
qed

text \<open>What an item does to events, transfers and holdings.\<close>

lemma spec_balance_rest:
  "spec_balance k d v = Some v' \<Longrightarrow> v_events v' = v_events v \<and> v_transfers v' = v_transfers v \<and>
     v_holdings v' = v_holdings v \<and> v_supply v' = v_supply v"
  by (auto simp: spec_balance_def Let_def split: if_splits)

lemma event_rest:
  assumes ev: "spec_event tval e v = Some v'"
  shows "v_holdings v' = v_holdings v" "v_events v \<subseteq>\<^sub>m v_events v'" "v_events v' (PE_ContractID e) \<noteq> None"
    "c \<noteq> PE_ContractID e \<Longrightarrow> v_transfers v' c = v_transfers v c"
    "v_transfers v \<subseteq>\<^sub>m v_transfers v'"
proof -
  let ?i = "event_instrument e"
  let ?v1 = "spec_token ?i (v\<lparr>v_events := (v_events v)(PE_ContractID e \<mapsto> e)\<rparr>)"
  have v1: "v_events ?v1 = (v_events v)(PE_ContractID e \<mapsto> e)" "v_transfers ?v1 = v_transfers v"
    "v_holdings ?v1 = v_holdings v" by (simp_all add: spec_token_def)
  have tid: "X_ContractID (direct_transfer e f t) = PE_ContractID e" for f t by (simp add: direct_transfer_def)
  have "v_holdings v' = v_holdings v \<and> v_events v \<subseteq>\<^sub>m v_events v' \<and> v_events v' (PE_ContractID e) \<noteq> None \<and>
    (\<forall>c. c \<noteq> PE_ContractID e \<longrightarrow> v_transfers v' c = v_transfers v c) \<and> v_transfers v \<subseteq>\<^sub>m v_transfers v'"
  proof (cases "v_events v (PE_ContractID e) = None")
    case False
    with ev show ?thesis by (simp add: spec_event_def)
  next
    case True
    with ev have "spec_new_event tval e v = Some v'" by (simp add: spec_event_def)
    then show ?thesis
    proof (cases rule: new_event_cases)
      case (issue p x)
      from spec_balance_rest[OF this] v1 True show ?thesis
        by (simp add: spec_supply_def map_le_def dom_def)
    next
      case (pay f t d a v3)
      let ?v2 = "case spec_balance (f, ?i) d ?v1 of None \<Rightarrow> ?v1 | Some v2 \<Rightarrow> v2"
      have "v_events ?v2 = v_events ?v1 \<and> v_transfers ?v2 = v_transfers ?v1 \<and> v_holdings ?v2 = v_holdings ?v1"
        using spec_balance_rest[of "(f, ?i)" d ?v1] by (cases "spec_balance (f, ?i) d ?v1") simp_all
      with spec_balance_rest[OF pay(3)] v1 True pay(4) tid show ?thesis
        by (auto simp: spec_insert_transfer_def map_le_def dom_def)
    qed
  qed
  then show "v_holdings v' = v_holdings v" "v_events v \<subseteq>\<^sub>m v_events v'" "v_events v' (PE_ContractID e) \<noteq> None"
    "c \<noteq> PE_ContractID e \<Longrightarrow> v_transfers v' c = v_transfers v c" "v_transfers v \<subseteq>\<^sub>m v_transfers v'" by blast+
qed

lemma holding_rest:
  assumes "spec_holding tval h v = Some v'"
  shows "v_events v' = v_events v" "v_transfers v' = v_transfers v" "v_supply v' = v_supply v"
    "H_IsArchived h \<Longrightarrow> v_holdings v' = (v_holdings v)(H_ContractID h := None)"
proof -
  have "v_events v' = v_events v \<and> v_transfers v' = v_transfers v \<and> v_supply v' = v_supply v"
    using assms
  proof (cases rule: holding_cases)
    case (out st d)
    let ?v1 = "v\<lparr>v_holdings := (v_holdings v)(H_ContractID h := None)\<rparr>"
    show ?thesis
    proof (cases "spec_balance (holding_key st) d ?v1")
      case (Some u)
      with out(4) spec_balance_rest[OF Some] show ?thesis by simp
    qed (simp add: out(4))
  next
    case (come a)
    from spec_balance_rest[OF come(7)] show ?thesis
      by (cases "v_holdings v (H_ContractID h) = None") simp_all
  qed simp
  then show "v_events v' = v_events v" "v_transfers v' = v_transfers v" "v_supply v' = v_supply v" by simp_all
  assume arch: "H_IsArchived h"
  show "v_holdings v' = (v_holdings v)(H_ContractID h := None)"
  proof (cases "v_holdings v (H_ContractID h)")
    case None
    with assms arch have "v' = v" by (simp add: spec_holding_def)
    then show ?thesis by (simp add: fun_upd_idem[where f = "v_holdings v", OF None])
  next
    case (Some st)
    let ?v1 = "v\<lparr>v_holdings := (v_holdings v)(H_ContractID h := None)\<rparr>"
    from assms arch Some obtain d where "v' = (case spec_balance (holding_key st) d ?v1 of None \<Rightarrow> ?v1 | Some v2 \<Rightarrow> v2)"
      unfolding spec_holding_def Let_def by (simp only: if_True option.case bind_eq_Some_conv option.inject) blast
    then show ?thesis
    proof (cases "spec_balance (holding_key st) d ?v1")
      case (Some u)
      then show ?thesis using \<open>v' = _\<close> spec_balance_rest[OF Some] by simp
    qed simp
  qed
qed

lemma history_eq: "v_events v' = v_events v \<Longrightarrow> v_transfers v' = v_transfers v \<Longrightarrow> history_kept v v'"
  by (auto simp: history_kept_def)

lemma history_grow: "v_events v \<subseteq>\<^sub>m v_events v' \<Longrightarrow> v_transfers v \<subseteq>\<^sub>m v_transfers v' \<Longrightarrow> history_kept v v'"
  unfolding history_kept_def map_le_def dom_def by fastforce

lemma history_finalize:
  assumes "st \<in> {StatusCompleted, StatusCanceled, StatusRejected}"
  shows "history_kept v (spec_finalize c st v)"
proof (cases "\<exists>t. v_transfers v c = Some t \<and> X_Status t = StatusPending")
  case True
  then obtain t where t: "v_transfers v c = Some t" "X_Status t = StatusPending" by blast
  with assms show ?thesis
    by (auto simp: spec_finalize_def history_kept_def)
next
  case False
  then have "spec_finalize c st v = v" by (auto simp: spec_finalize_def split: option.splits)
  then show ?thesis by simp
qed

lemma archived_terminal:
  "wf_offer t \<Longrightarrow> X_Archived t \<Longrightarrow> archived_status t \<in> {StatusCompleted, StatusCanceled, StatusRejected}"
  by (auto simp: wf_offer_def archived_status_def)

lemma history_item:
  assumes "spec_item tval i v = Some v'" "wf_item i"
  shows "history_kept v v'"
proof (cases i)
  case (Item_Event e)
  with assms event_rest(2,5)[of tval e v v'] show ?thesis by (intro history_grow) simp_all
next
  case (Item_Transfer t)
  show ?thesis
  proof (cases "X_Archived t")
    case True
    with Item_Transfer assms history_finalize[OF archived_terminal] show ?thesis by auto
  next
    case False
    with Item_Transfer assms(1) have "v' = spec_insert_transfer t v" by simp
    then show ?thesis
      by (intro history_grow) (auto simp: spec_insert_transfer_def map_le_def dom_def)
  qed
next
  case (Item_Holding h)
  with assms holding_rest(1,2)[of tval h v v'] show ?thesis by (intro history_eq) simp_all
qed

lemma history_items:
  "spec_items tval is v = Some v' \<Longrightarrow> list_all wf_item is \<Longrightarrow> history_kept v v'"
proof (induction "is" arbitrary: v)
  case (Cons i "is")
  then obtain u where u: "spec_item tval i v = Some u" "spec_items tval is u = Some v'"
    by (auto simp: bind_eq_Some_conv)
  with Cons show ?case using history_trans[OF history_item[OF u(1)]] by simp
qed simp

lemma history_batch:
  assumes "spec_batch tval b v = Some v'" "list_all wf_item (b_Items b)"
  shows "history_kept v v'"
proof -
  from assms(1) obtain u where u: "spec_items tval (b_Items b) v = Some u" "v' = u\<lparr>v_offset := b_Offset b\<rparr>"
    by (auto simp: spec_batch_def)
  have "history_kept u v'" unfolding u(2) by (rule history_eq) simp_all
  with history_items[OF u(1) assms(2)] show ?thesis by (rule history_trans)
qed

end
