(* ===== verification/Indexer_Replay.thy ===== *)
theory Indexer_Replay
  imports Indexer_Books
begin

text \<open>
  Replays and holder counts on the abstract state.  A batch is processed again when the answer to
  its commit was lost or when the process stopped right after it.  It then changes nothing, as long
  as it creates no holding: an event is skipped when its row is there, an offer is inserted once and
  settled once, a holding is taken once.
\<close>

section \<open>Replays\<close>

fun replayable :: "item \<Rightarrow> bool" where
  "replayable (Item_Holding h) \<longleftrightarrow> H_IsArchived h \<or> H_Owner h = '''' \<or> H_InstrumentID h = '''' \<or>
     H_InstrumentAdmin h = '''' \<or> H_Locked h"
| "replayable _ \<longleftrightarrow> True"

fun creates_transfer :: "string \<Rightarrow> item \<Rightarrow> bool" where
  "creates_transfer c (Item_Transfer t) \<longleftrightarrow> \<not> X_Archived t \<and> X_ContractID t = c"
| "creates_transfer c (Item_Event e) \<longleftrightarrow> PE_ContractID e = c"
| "creates_transfer c (Item_Holding h) \<longleftrightarrow> False"

text \<open>No contract is created after it was archived.\<close>

fun in_order :: "item list \<Rightarrow> bool" where
  "in_order [] \<longleftrightarrow> True"
| "in_order (Item_Transfer t # is) \<longleftrightarrow>
     (X_Archived t \<longrightarrow> list_all (\<lambda>j. \<not> creates_transfer (X_ContractID t) j) is) \<and> in_order is"
| "in_order (i # is) \<longleftrightarrow> in_order is"

fun settled :: "item \<Rightarrow> view \<Rightarrow> bool" where
  "settled (Item_Event e) v \<longleftrightarrow> v_events v (PE_ContractID e) \<noteq> None"
| "settled (Item_Transfer t) v \<longleftrightarrow>
     (if X_Archived t then (\<forall>u. v_transfers v (X_ContractID t) = Some u \<longrightarrow> X_Status u \<noteq> StatusPending)
      else v_transfers v (X_ContractID t) \<noteq> None)"
| "settled (Item_Holding h) v \<longleftrightarrow> H_IsArchived h \<longrightarrow> v_holdings v (H_ContractID h) = None"

lemma settled_noop: "settled i v \<Longrightarrow> replayable i \<Longrightarrow> spec_item tval i v = Some v"
  by (cases i) (auto simp: spec_event_def spec_finalize_def spec_insert_transfer_def spec_holding_def
      split: option.splits)

lemma ignored_holding: "replayable (Item_Holding h) \<Longrightarrow> \<not> H_IsArchived h \<Longrightarrow> spec_holding tval h v = Some v"
  by (auto simp: spec_holding_def)

lemma settled_after:
  assumes "spec_item tval i v = Some v'" "wf_item i"
  shows "settled i v'"
proof (cases i)
  case (Item_Event e)
  with assms event_rest(3)[of tval e v v'] show ?thesis by simp
next
  case (Item_Transfer t)
  show ?thesis
  proof (cases "X_Archived t")
    case True
    then have "archived_status t \<noteq> StatusPending"
      using archived_terminal[of t] assms(2) Item_Transfer by (auto simp: indexer_consts)
    with True Item_Transfer assms(1) show ?thesis
      by (auto simp: spec_finalize_def split: option.splits if_splits)
  next
    case False
    with Item_Transfer assms(1) show ?thesis by (auto simp: spec_insert_transfer_def)
  qed
next
  case (Item_Holding h)
  with assms holding_rest(4)[of tval h v v'] show ?thesis by simp
qed

lemma event_present: "history_kept v v' \<Longrightarrow> v_events v c \<noteq> None \<Longrightarrow> v_events v' c \<noteq> None"
  using map_le_implies_dom_le[of "v_events v" "v_events v'"] by (auto simp: history_kept_def subset_iff dom_def)

lemma transfer_present: "history_kept v v' \<Longrightarrow> v_transfers v c \<noteq> None \<Longrightarrow> v_transfers v' c \<noteq> None"
  unfolding history_kept_def by force

lemma transfer_still_final:
  assumes "history_kept v v'" "v_transfers v c = Some t" "X_Status t \<noteq> StatusPending"
  shows "v_transfers v' c = Some t"
  using assms unfolding history_kept_def by blast

lemma transfer_still_absent:
  assumes "spec_item tval j v = Some v'" "v_transfers v c = None" "\<not> creates_transfer c j"
  shows "v_transfers v' c = None"
proof (cases j)
  case (Item_Event e)
  with assms event_rest(4)[of tval e v v' c] show ?thesis by simp
next
  case (Item_Transfer t)
  with assms show ?thesis by (auto simp: spec_finalize_def spec_insert_transfer_def split: if_splits option.splits)
next
  case (Item_Holding h)
  with assms holding_rest(2)[of tval h v v'] show ?thesis by simp
qed

lemma holding_still_absent:
  assumes "spec_item tval j v = Some v'" "v_holdings v c = None" "replayable j"
  shows "v_holdings v' c = None"
proof (cases j)
  case (Item_Event e)
  with assms event_rest(1)[of tval e v v'] show ?thesis by simp
next
  case (Item_Transfer t)
  with assms show ?thesis by (auto simp: spec_finalize_def spec_insert_transfer_def split: if_splits option.splits)
next
  case (Item_Holding h)
  show ?thesis
  proof (cases "H_IsArchived h")
    case True
    with Item_Holding assms holding_rest(4)[of tval h v v'] show ?thesis by simp
  next
    case False
    with Item_Holding assms ignored_holding[of h tval v] show ?thesis by simp
  qed
qed

lemma settled_keep:
  assumes "settled i v" "spec_item tval j v = Some v'" "wf_item j" "replayable j"
    and "\<And>t. i = Item_Transfer t \<Longrightarrow> X_Archived t \<Longrightarrow> \<not> creates_transfer (X_ContractID t) j"
  shows "settled i v'"
proof (cases i)
  case (Item_Event e)
  with assms(1) event_present[OF history_item[OF assms(2,3)]] show ?thesis by simp
next
  case (Item_Transfer t)
  note h = history_item[OF assms(2,3)]
  show ?thesis
  proof (cases "X_Archived t")
    case True
    show ?thesis
    proof (cases "v_transfers v (X_ContractID t)")
      case None
      from transfer_still_absent[OF assms(2) None] assms(5)[OF Item_Transfer True] True Item_Transfer
      show ?thesis by simp
    next
      case (Some u)
      with assms(1) True Item_Transfer have "X_Status u \<noteq> StatusPending" by simp
      with transfer_still_final[OF h Some] True Item_Transfer show ?thesis by simp
    qed
  next
    case False
    with assms(1) Item_Transfer transfer_present[OF h] show ?thesis by simp
  qed
next
  case (Item_Holding h)
  with assms(1) holding_still_absent[OF assms(2) _ assms(4)] show ?thesis by simp
qed

lemma settled_list:
  assumes "settled i v" "spec_items tval is v = Some v'" "list_all wf_item is" "list_all replayable is"
    and "\<And>t. i = Item_Transfer t \<Longrightarrow> X_Archived t \<Longrightarrow> list_all (\<lambda>j. \<not> creates_transfer (X_ContractID t) j) is"
  shows "settled i v'"
  using assms
proof (induction "is" arbitrary: v)
  case (Cons j "is")
  then obtain u where u: "spec_item tval j v = Some u" "spec_items tval is u = Some v'"
    by (auto simp: bind_eq_Some_conv)
  have "settled i u" by (rule settled_keep[OF Cons.prems(1) u(1)]) (use Cons.prems(3-5) in auto)
  then show ?case by (rule Cons.IH[OF _ u(2)]) (use Cons.prems(3-5) in auto)
qed simp

lemma all_settled:
  "spec_items tval is v = Some v' \<Longrightarrow> list_all wf_item is \<Longrightarrow> list_all replayable is \<Longrightarrow> in_order is \<Longrightarrow>
   list_all (\<lambda>i. settled i v') is"
proof (induction "is" arbitrary: v)
  case (Cons i "is")
  then obtain u where u: "spec_item tval i v = Some u" "spec_items tval is u = Some v'"
    by (auto simp: bind_eq_Some_conv)
  have ord: "in_order is" using Cons.prems(4) by (cases i) simp_all
  have "settled i u" using settled_after[OF u(1)] Cons.prems(2) by simp
  then have "settled i v'"
    by (rule settled_list[OF _ u(2)]) (use Cons.prems(2-4) in auto)
  with Cons.IH[OF u(2)] ord Cons.prems(2,3) show ?case by simp
qed simp

lemma settled_items: "list_all (\<lambda>i. settled i v) is \<Longrightarrow> list_all replayable is \<Longrightarrow> spec_items tval is v = Some v"
  by (induction "is") (simp_all add: settled_noop)

lemma settled_offset: "settled i (v\<lparr>v_offset := n\<rparr>) = settled i v"
  by (cases i) simp_all

lemma batch_replay:
  assumes "spec_batch tval b v = Some v'" "list_all wf_item (b_Items b)" "list_all replayable (b_Items b)"
    "in_order (b_Items b)"
  shows "spec_batch tval b v' = Some v'"
proof -
  from assms(1) obtain u where u: "spec_items tval (b_Items b) v = Some u" "v' = u\<lparr>v_offset := b_Offset b\<rparr>"
    by (auto simp: spec_batch_def)
  from all_settled[OF u(1) assms(2-4)] have "list_all (\<lambda>i. settled i v') (b_Items b)"
    unfolding u(2) settled_offset .
  from settled_items[OF this assms(3), of tval] show ?thesis by (simp add: spec_batch_def u(2))
qed

section \<open>Holder counts\<close>

text \<open>
  The holder count of a token row is the number of parties with a balance, as long as the balances
  come from token events: a holding changes a balance without making sure that there is a token row.
\<close>

definition holders_ok :: "instrument \<Rightarrow> view \<Rightarrow> bool" where
  "holders_ok i v \<longleftrightarrow> finite {p. v_bal v (p, i) \<noteq> 0} \<and>
     (v_supply v i = None \<longrightarrow> (\<forall>p. v_bal v (p, i) = 0)) \<and>
     (v_supply v i \<noteq> None \<longrightarrow> v_holders v i = int (card {p. v_bal v (p, i) \<noteq> 0})) \<and>
     (\<forall>c h. v_holdings v c = Some h \<longrightarrow> snd (holding_key h) \<noteq> i)"

fun no_holding_of :: "instrument \<Rightarrow> item \<Rightarrow> bool" where
  "no_holding_of i (Item_Holding h) \<longleftrightarrow> H_IsArchived h \<or> snd (holding_key h) \<noteq> i"
| "no_holding_of i _ \<longleftrightarrow> True"

lemma card_nonzero_upd:
  fixes f :: "'a \<Rightarrow> rat"
  assumes "finite {x. f x \<noteq> 0}"
  shows "int (card {x. (f(a := y)) x \<noteq> 0}) = int (card {x. f x \<noteq> 0}) + holder_step (f a) y"
proof -
  let ?A = "{x. f x \<noteq> 0}"
  have *: "{x. (f(a := y)) x \<noteq> 0} = (if y = 0 then ?A - {a} else insert a ?A)" by auto
  have "a \<in> ?A \<Longrightarrow> 0 < card ?A" using assms card_gt_0_iff by blast
  then show ?thesis
    unfolding * using assms by (auto simp: holder_step_def card_insert_if card_Diff_singleton_if of_nat_diff)
qed

lemma holders_cong:
  assumes "holders_ok i v" "\<And>p. v_bal v' (p, i) = v_bal v (p, i)" "v_supply v' i = None \<longleftrightarrow> v_supply v i = None"
    "v_holders v' i = v_holders v i" "\<And>c h. v_holdings v' c = Some h \<Longrightarrow> v_holdings v c = Some h \<or> snd (holding_key h) \<noteq> i"
  shows "holders_ok i v'"
proof -
  have bal: "{p. v_bal v' (p, i) \<noteq> 0} = {p. v_bal v (p, i) \<noteq> 0}" using assms(2) by simp
  have "snd (holding_key h) \<noteq> i" if "v_holdings v' c = Some h" for c h
    using assms(5)[OF that] assms(1) unfolding holders_ok_def by blast
  then show ?thesis
    using assms(1-4) unfolding holders_ok_def bal by auto
qed

lemma holders_balance:
  assumes sb: "spec_balance (p, j) d v = Some v'" and ok: "holders_ok i v" and row: "j = i \<Longrightarrow> v_supply v i \<noteq> None"
  shows "holders_ok i v'"
proof (cases "j = i")
  case False
  with sb have "\<And>q. v_bal v' (q, i) = v_bal v (q, i)" "v_holders v' i = v_holders v i"
    "v_supply v' = v_supply v" "v_holdings v' = v_holdings v"
    by (auto simp: spec_balance_def Let_def split: if_splits)
  then show ?thesis by (intro holders_cong[OF ok]) auto
next
  case True
  have v': "v_bal v' = (v_bal v)((p, i) := v_bal v (p, i) + d)" "v_supply v' = v_supply v" "v_holdings v' = v_holdings v"
    "v_holders v' i = v_holders v i + holder_step (v_bal v (p, i)) (v_bal v (p, i) + d)"
    using sb True row by (auto simp: spec_balance_def Let_def split: if_splits)
  let ?f = "\<lambda>q. v_bal v (q, i)"
  have f': "(\<lambda>q. v_bal v' (q, i)) = ?f(p := v_bal v (p, i) + d)" unfolding v'(1) by auto
  have fin: "finite {q. ?f q \<noteq> 0}" and cnt: "v_holders v i = int (card {q. ?f q \<noteq> 0})"
    using ok row[OF True] by (simp_all add: holders_ok_def)
  have "{q. v_bal v' (q, i) \<noteq> 0} = {q. (?f(p := v_bal v (p, i) + d)) q \<noteq> 0}"
    using fun_cong[OF f'] by simp
  then have "v_holders v' i = int (card {q. v_bal v' (q, i) \<noteq> 0})" "finite {q. v_bal v' (q, i) \<noteq> 0}"
    using card_nonzero_upd[OF fin, of p "v_bal v (p, i) + d"] sum_nonzero_upd(2)[OF fin, of p "v_bal v (p, i) + d"] cnt v'(4)
    by simp_all
  with ok row[OF True] show ?thesis unfolding holders_ok_def v'(2,3) by blast
qed

lemma holders_token: "holders_ok i v \<Longrightarrow> holders_ok i (spec_token j v)"
  by (auto simp: holders_ok_def spec_token_def)

lemma holders_other:
  "holders_ok i v \<Longrightarrow> holders_ok i (spec_insert_transfer t v)"
  "holders_ok i v \<Longrightarrow> holders_ok i (spec_finalize c st v)"
  "holders_ok i v \<Longrightarrow> holders_ok i (v\<lparr>v_events := es\<rparr>)"
  "holders_ok i v \<Longrightarrow> holders_ok i (v\<lparr>v_offset := n\<rparr>)"
  "holders_ok i v \<Longrightarrow> holders_ok i (spec_supply j x v)"
  by (erule holders_cong; auto simp: spec_insert_transfer_def spec_finalize_def spec_supply_def split: option.splits if_splits)+

lemma holders_event:
  assumes "spec_event tval e v = Some v'" "holders_ok i v"
  shows "holders_ok i v'"
proof (cases "v_events v (PE_ContractID e) = None")
  case False
  with assms show ?thesis by (simp add: spec_event_def)
next
  case True
  let ?j = "event_instrument e"
  let ?v1 = "spec_token ?j (v\<lparr>v_events := (v_events v)(PE_ContractID e \<mapsto> e)\<rparr>)"
  have ok: "holders_ok i ?v1" by (intro holders_token holders_other(3) assms(2))
  have row: "v_supply ?v1 ?j \<noteq> None" by (simp add: spec_token_def)
  from assms(1) True have "spec_new_event tval e v = Some v'" by (simp add: spec_event_def)
  then show ?thesis
  proof (cases rule: new_event_cases)
    case (issue p x)
    then show ?thesis
      by (rule holders_balance[OF _ holders_other(5)[OF ok]]) (use row in \<open>auto simp: spec_supply_def\<close>)
  next
    case (pay f t d a v3)
    let ?v2 = "case spec_balance (f, ?j) d ?v1 of None \<Rightarrow> ?v1 | Some v2 \<Rightarrow> v2"
    have "holders_ok i ?v2 \<and> v_supply ?v2 ?j \<noteq> None"
    proof (cases "spec_balance (f, ?j) d ?v1")
      case (Some u)
      then have "holders_ok i u" by (rule holders_balance[OF _ ok]) (use row in auto)
      with Some spec_balance_rest[OF Some] row show ?thesis by simp
    qed (use ok row in simp)
    with pay(3) have "holders_ok i v3" by (auto intro: holders_balance)
    then show ?thesis unfolding pay(4) by (rule holders_other(1))
  qed
qed

lemma holders_holding:
  assumes h: "spec_holding tval h v = Some v'" and ok: "holders_ok i v" and no: "no_holding_of i (Item_Holding h)"
  shows "holders_ok i v'"
  using h
proof (cases rule: holding_cases)
  case skip
  with ok show ?thesis by simp
next
  case (out st d)
  let ?v1 = "v\<lparr>v_holdings := (v_holdings v)(H_ContractID h := None)\<rparr>"
  have ok1: "holders_ok i ?v1" by (rule holders_cong[OF ok]) (auto split: if_splits)
  have other: "snd (holding_key st) \<noteq> i" using ok out(2) unfolding holders_ok_def by blast
  show ?thesis
  proof (cases "spec_balance (holding_key st) d ?v1")
    case (Some u)
    obtain p j where k: "holding_key st = (p, j)" by (cases "holding_key st")
    from holders_balance[OF Some[unfolded k] ok1] other k out(4) Some show ?thesis by simp
  qed (use out(4) ok1 in simp)
next
  case (come a)
  let ?v1 = "if v_holdings v (H_ContractID h) = None
    then v\<lparr>v_holdings := (v_holdings v)(H_ContractID h \<mapsto> stored_holding h)\<rparr> else v"
  have other: "snd (holding_key h) \<noteq> i" using no come(1) by simp
  have st: "holding_key (stored_holding h) = holding_key h" by (simp add: holding_key_def stored_holding_def)
  have ok1: "holders_ok i ?v1" by (rule holders_cong[OF ok]) (use other st in \<open>auto split: if_splits\<close>)
  obtain p j where k: "holding_key h = (p, j)" by (cases "holding_key h")
  from holders_balance[OF come(7)[unfolded k] ok1] other k show ?thesis by simp
qed

lemma holders_item:
  assumes "spec_item tval it v = Some v'" "holders_ok i v" "no_holding_of i it"
  shows "holders_ok i v'"
proof (cases it)
  case (Item_Event e)
  with assms holders_event show ?thesis by simp
next
  case (Item_Transfer t)
  with assms show ?thesis by (auto split: if_splits intro: holders_other(1,2))
next
  case (Item_Holding h)
  with assms(1) have "spec_holding tval h v = Some v'" by simp
  from holders_holding[OF this assms(2)] assms(3) Item_Holding show ?thesis by simp
qed

lemma holders_items:
  "spec_items tval is v = Some v' \<Longrightarrow> holders_ok i v \<Longrightarrow> list_all (no_holding_of i) is \<Longrightarrow> holders_ok i v'"
  by (induction "is" arbitrary: v) (auto simp: bind_eq_Some_conv intro: holders_item)

lemma holders_batch:
  assumes "spec_batch tval b v = Some v'" "holders_ok i v" "list_all (no_holding_of i) (b_Items b)"
  shows "holders_ok i v'"
  using assms by (auto simp: spec_batch_def intro!: holders_other(4) intro: holders_items)

end
