(* ===== verification/Indexer_Progress.thy ===== *)
theory Indexer_Progress
  imports Indexer_Processor
begin

text \<open>
  The other half of the store's contract: while the database answers (\<open>calm\<close>), a statement whose
  meaning is defined succeeds.  Then a batch whose meaning is defined is stored by the next attempt.
\<close>

locale healthy_store = engine_store +
  fixes calm :: "'a \<Rightarrow> bool"
  assumes calm_tx: "calm w \<Longrightarrow> inv w \<Longrightarrow>
      (\<And>w1. calm w1 \<Longrightarrow> inv w1 \<Longrightarrow> view w1 = view w \<Longrightarrow> \<exists>w2. run_state m w1 = (Inr (), w2) \<and> calm w2) \<Longrightarrow>
      \<exists>w'. run_state (S_RunInTx S m) w = (Inr (), w') \<and> calm w'"
    and calm_event: "calm w \<Longrightarrow> \<exists>b w'. run_state (S_InsertEvent S ev) w = (Inr b, w') \<and> calm w'"
    and calm_token: "calm w \<Longrightarrow> \<exists>w'. run_state (S_UpsertToken S tk) w = (Inr (), w') \<and> calm w'"
    and calm_supply: "calm w \<Longrightarrow> inv w \<Longrightarrow> v_supply (view w) (a, i) \<noteq> None \<Longrightarrow> tval d = Some x \<Longrightarrow>
      \<exists>w'. run_state (S_ApplySupplyDelta S a i d) w = (Inr (), w') \<and> calm w'"
    and calm_balance: "calm w \<Longrightarrow> inv w \<Longrightarrow> tval d = Some x \<Longrightarrow> spec_balance (p, (a, i)) x (view w) \<noteq> None \<Longrightarrow>
      \<exists>w'. run_state (S_ApplyBalanceDelta S p a i d) w = (Inr (), w') \<and> calm w'"
    and calm_negative: "calm w \<Longrightarrow> inv w \<Longrightarrow> tval d = Some x \<Longrightarrow> spec_balance (p, (a, i)) x (view w) = None \<Longrightarrow>
      \<exists>er w'. run_state (S_ApplyBalanceDelta S p a i d) w = (Inl er, w') \<and> errors_Is er ErrNegativeBalance \<and> calm w'"
    and calm_transfer: "calm w \<Longrightarrow> \<exists>w'. run_state (S_InsertTransfer S t) w = (Inr (), w') \<and> calm w'"
    and calm_finalize: "calm w \<Longrightarrow> \<exists>w'. run_state (S_FinalizeTransfer S c st) w = (Inr (), w') \<and> calm w'"
    and calm_holding: "calm w \<Longrightarrow> \<exists>w'. run_state (S_InsertHolding S h) w = (Inr (), w') \<and> calm w'"
    and calm_take: "calm w \<Longrightarrow> \<exists>o' w'. run_state (S_TakeHolding S c) w = (Inr o', w') \<and> calm w'"
    and calm_offset: "calm w \<Longrightarrow> \<exists>w'. run_state (S_SaveOffset S n) w = (Inr (), w') \<and> calm w'"
begin

lemma apply_update_calm:
  assumes "calm w" "inv w" "tval (snd u) = Some x"
    and "spec_balance (fst u, event_instrument e) x (view w) = None \<Longrightarrow>
      PE_EventType e = EventTransfer \<and> isNegativeDelta (snd u)"
  obtains w' where "run_state (apply_update S e u) w = (Inr (), w')" "calm w'"
proof (cases "spec_balance (fst u, event_instrument e) x (view w)")
  case None
  with calm_negative[OF assms(1-3), of "fst u" "PE_InstrumentAdmin e" "PE_InstrumentID e"] obtain er w' where
    "run_state (S_ApplyBalanceDelta S (fst u) (PE_InstrumentAdmin e) (PE_InstrumentID e) (snd u)) w = (Inl er, w')"
    "errors_Is er ErrNegativeBalance" "calm w'" by (auto simp: event_instrument_def)
  with assms(4)[OF None] that show thesis by (simp add: apply_update_def)
next
  case (Some v)
  with calm_balance[OF assms(1-3), of "fst u" "PE_InstrumentAdmin e" "PE_InstrumentID e"] obtain w' where
    "run_state (S_ApplyBalanceDelta S (fst u) (PE_InstrumentAdmin e) (PE_InstrumentID e) (snd u)) w = (Inr (), w')"
    "calm w'" by (auto simp: event_instrument_def)
  with that show thesis by (simp add: apply_update_def)
qed

lemma record_direct_calm:
  assumes "calm w"
  obtains w' where "run_state (record_direct S e) w = (Inr (), w')" "calm w'"
proof (cases "PE_EventType e = EventTransfer \<and> PE_FromPartyID e \<noteq> None \<and> PE_ToPartyID e \<noteq> None")
  case True
  then obtain f t where ft: "PE_FromPartyID e = Some f" "PE_ToPartyID e = Some t" by blast
  from calm_transfer[OF assms, of "direct_transfer e f t"] obtain w' where
    "run_state (S_InsertTransfer S (direct_transfer e f t)) w = (Inr (), w')" "calm w'" by blast
  with True ft that show thesis by (simp add: record_direct_def)
next
  case False
  then have "run_state (record_direct S e) w = (Inr (), w)"
    by (auto simp: record_direct_def split: option.splits)
  with assms that show thesis by blast
qed

text \<open>The steps of a new event up to the balances.\<close>

lemma event_calm_steps:
  assumes "calm w" "inv w" "v_events (view w) (PE_ContractID e) = None"
    and sup: "\<And>a i d. supplyDeltaFromEvent e = Some (a, i, d) \<Longrightarrow> tval d \<noteq> None"
  obtains w3 where "calm w3" "inv w3"
    "view w3 = (let v1 = spec_token (event_instrument e) ((view w)\<lparr>v_events := (v_events (view w))(PE_ContractID e \<mapsto> e)\<rparr>)
      in case supplyDeltaFromEvent e of None \<Rightarrow> v1 | Some (a, i, d) \<Rightarrow> spec_supply (a, i) (the (tval d)) v1)"
    "run_state (processTransferEvent S e) w = run_state (do {
       bal \<leftarrow> for_err (balanceUpdatesFromEvent e) (apply_update S e);
       (case bal of Inl err \<Rightarrow> ret (Inl err) | Inr _ \<Rightarrow> record_direct S e) }) w3"
proof -
  obtain b w1 where w1: "run_state (S_InsertEvent S e) w = (Inr b, w1)" "calm w1"
    using calm_event[OF assms(1)] by blast
  note el = event_law[OF w1(1) assms(2)]
  with assms(3) have b: b by simp
  obtain w2 where w2: "run_state (S_UpsertToken S (tokenFromEvent e)) w1 = (Inr (), w2)" "calm w2"
    using calm_token[OF w1(2)] by blast
  have inv1: "inv w1" using el by blast
  note tl = token_law[OF w2(1) inv1]
  let ?v1 = "spec_token (event_instrument e) ((view w)\<lparr>v_events := (v_events (view w))(PE_ContractID e \<mapsto> e)\<rparr>)"
  have v2: "view w2 = ?v1" using tl el b by (simp add: tokenFromEvent_def event_instrument_def)
  then have row: "v_supply (view w2) (event_instrument e) \<noteq> None" by (simp add: spec_token_def)
  show thesis
  proof (cases "supplyDeltaFromEvent e")
    case None
    with w1 w2 b v2 tl show thesis by (intro that[of w2]) (simp_all add: processTransferEvent_def)
  next
    case (Some s)
    then obtain d where s: "s = (PE_InstrumentAdmin e, PE_InstrumentID e, d)"
      by (auto simp: supplyDeltaFromEvent_def split: if_splits)
    with sup Some obtain x where x: "tval d = Some x" by blast
    have inv2: "inv w2" using tl by blast
    obtain w3 where w3: "run_state (S_ApplySupplyDelta S (PE_InstrumentAdmin e) (PE_InstrumentID e) d) w2 = (Inr (), w3)" "calm w3"
      using calm_supply[OF w2(2) inv2 row[unfolded event_instrument_def] x] by blast
    from supply_law[OF w3(1) inv2 row[unfolded event_instrument_def] x] w1 w2 w3 b v2 Some s x show thesis
      by (intro that[of w3]) (simp_all add: processTransferEvent_def)
  qed
qed

lemma processTransferEvent_calm:
  assumes calm: "calm w" and inv: "inv w" and wf: "wf_event e" and spec: "spec_event tval e (view w) \<noteq> None"
  shows "\<exists>w'. run_state (processTransferEvent S e) w = (Inr (), w') \<and> calm w'"
proof (cases "v_events (view w) (PE_ContractID e) = None")
  case False
  obtain b w1 where w1: "run_state (S_InsertEvent S e) w = (Inr b, w1)" "calm w1"
    using calm_event[OF calm] by blast
  with event_law[OF w1(1) inv] False have "\<not> b" by simp
  with w1 show ?thesis by (auto simp: processTransferEvent_def)
next
  case True
  let ?i = "event_instrument e"
  let ?v1 = "spec_token ?i ((view w)\<lparr>v_events := (v_events (view w))(PE_ContractID e \<mapsto> e)\<rparr>)"
  have types: "EventMint \<noteq> EventBurn" "EventMint \<noteq> EventTransfer" "EventBurn \<noteq> EventTransfer"
    by (simp_all add: indexer_consts)
  have new: "spec_new_event tval e (view w) \<noteq> None" using spec True by (simp add: spec_event_def)
  from wf show ?thesis
  proof (cases rule: wf_event_cases)
    case (mint p)
    with new obtain a where a: "tval (PE_Amount e) = Some a" "spec_balance (p, ?i) a (spec_supply ?i a ?v1) \<noteq> None"
      by (auto simp: spec_new_event_def Let_def bind_eq_Some_conv)
    have sd: "supplyDeltaFromEvent e = Some (PE_InstrumentAdmin e, PE_InstrumentID e, PE_Amount e)"
      using mint by (simp add: supplyDeltaFromEvent_def)
    obtain w3 where w3: "calm w3" "inv w3" "view w3 = spec_supply ?i a ?v1"
      "run_state (processTransferEvent S e) w = run_state (do {
         bal \<leftarrow> for_err (balanceUpdatesFromEvent e) (apply_update S e);
         (case bal of Inl err \<Rightarrow> ret (Inl err) | Inr _ \<Rightarrow> record_direct S e) }) w3"
      by (rule event_calm_steps[OF calm inv True]) (use sd a in \<open>auto simp: event_instrument_def\<close>)
    obtain w4 where w4: "run_state (apply_update S e (p, PE_Amount e)) w3 = (Inr (), w4)" "calm w4"
      by (rule apply_update_calm[OF w3(1,2), of "(p, PE_Amount e)" a e]) (use a w3(3) in auto)
    obtain w5 where "run_state (record_direct S e) w4 = (Inr (), w5)" "calm w5"
      by (rule record_direct_calm[OF w4(2)])
    with w3(4) w4 mint show ?thesis by (simp add: balanceUpdatesFromEvent_def)
  next
    case (burn p)
    with new obtain d where d: "tval (CHR ''-'' # PE_Amount e) = Some d" "spec_balance (p, ?i) d (spec_supply ?i d ?v1) \<noteq> None"
      by (auto simp: spec_new_event_def Let_def bind_eq_Some_conv)
    have sd: "supplyDeltaFromEvent e = Some (PE_InstrumentAdmin e, PE_InstrumentID e, CHR ''-'' # PE_Amount e)"
      using burn types by (simp add: supplyDeltaFromEvent_def)
    obtain w3 where w3: "calm w3" "inv w3" "view w3 = spec_supply ?i d ?v1"
      "run_state (processTransferEvent S e) w = run_state (do {
         bal \<leftarrow> for_err (balanceUpdatesFromEvent e) (apply_update S e);
         (case bal of Inl err \<Rightarrow> ret (Inl err) | Inr _ \<Rightarrow> record_direct S e) }) w3"
      by (rule event_calm_steps[OF calm inv True]) (use sd d in \<open>auto simp: event_instrument_def\<close>)
    obtain w4 where w4: "run_state (apply_update S e (p, CHR ''-'' # PE_Amount e)) w3 = (Inr (), w4)" "calm w4"
      by (rule apply_update_calm[OF w3(1,2), of "(p, CHR ''-'' # PE_Amount e)" d e]) (use d w3(3) in auto)
    obtain w5 where "run_state (record_direct S e) w4 = (Inr (), w5)" "calm w5"
      by (rule record_direct_calm[OF w4(2)])
    with w3(4) w4 burn types show ?thesis by (simp add: balanceUpdatesFromEvent_def)
  next
    case (transfer p q)
    then obtain d a where d: "tval (CHR ''-'' # PE_Amount e) = Some d" "tval (PE_Amount e) = Some a"
      and sb: "spec_balance (q, ?i) a (case spec_balance (p, ?i) d ?v1 of None \<Rightarrow> ?v1 | Some v2 \<Rightarrow> v2) \<noteq> None"
      using new by (auto simp: spec_new_event_def Let_def bind_eq_Some_conv)
    have sd: "supplyDeltaFromEvent e = None" using transfer types by (simp add: supplyDeltaFromEvent_def)
    obtain w3 where w3: "calm w3" "inv w3" "view w3 = ?v1"
      "run_state (processTransferEvent S e) w = run_state (do {
         bal \<leftarrow> for_err (balanceUpdatesFromEvent e) (apply_update S e);
         (case bal of Inl err \<Rightarrow> ret (Inl err) | Inr _ \<Rightarrow> record_direct S e) }) w3"
      by (rule event_calm_steps[OF calm inv True]) (use sd in auto)
    obtain w4 where w4: "run_state (apply_update S e (p, CHR ''-'' # PE_Amount e)) w3 = (Inr (), w4)" "calm w4"
      by (rule apply_update_calm[OF w3(1,2), of "(p, CHR ''-'' # PE_Amount e)" d e])
        (use d transfer in \<open>auto simp: isNegativeDelta_def\<close>)
    from apply_update_law[OF w4(1) w3(2)] d(1) w3(3) have inv4: "inv w4"
      and v4: "view w4 = (case spec_balance (p, ?i) d ?v1 of None \<Rightarrow> ?v1 | Some v2 \<Rightarrow> v2)"
      by (auto split: option.splits)
    obtain w5 where w5: "run_state (apply_update S e (q, PE_Amount e)) w4 = (Inr (), w5)" "calm w5"
      by (rule apply_update_calm[OF w4(2) inv4, of "(q, PE_Amount e)" a e]) (use d sb v4 in auto)
    obtain w6 where "run_state (record_direct S e) w5 = (Inr (), w6)" "calm w6"
      by (rule record_direct_calm[OF w5(2)])
    with w3(4) w4 w5 transfer types show ?thesis by (simp add: balanceUpdatesFromEvent_def)
  qed
qed

end

context healthy_store
begin

lemma take_calm:
  assumes calm: "calm w" and inv: "inv w" and arch: "H_IsArchived h" and spec: "spec_holding tval h (view w) \<noteq> None"
  shows "\<exists>w'. run_state (processHoldingChange S h) w = (Inr (), w') \<and> calm w'"
proof -
  obtain t w1 where t: "run_state (S_TakeHolding S (H_ContractID h)) w = (Inr t, w1)" "calm w1"
    using calm_take[OF calm] by blast
  note tl = take_law[OF t(1) inv]
  show ?thesis
  proof (cases t)
    case None
    with t arch show ?thesis by (simp add: processHoldingChange_def)
  next
    case (Some st)
    then have st: "v_holdings (view w) (H_ContractID h) = Some st" using tl by simp
    with spec arch obtain d where d: "tval (CHR ''-'' # H_Amount st) = Some d"
      by (auto simp: spec_holding_def Let_def bind_eq_Some_conv)
    have inv1: "inv w1" using tl by blast
    show ?thesis
    proof (cases "spec_balance (H_Owner st, (H_InstrumentAdmin st, H_InstrumentID st)) d (view w1)")
      case None
      from calm_negative[OF t(2) inv1 d None] t arch Some show ?thesis
        by (auto simp: processHoldingChange_def)
    next
      case b: (Some v)
      have "spec_balance (H_Owner st, (H_InstrumentAdmin st, H_InstrumentID st)) d (view w1) \<noteq> None" using b by simp
      from calm_balance[OF t(2) inv1 d this] t arch Some show ?thesis
        by (auto simp: processHoldingChange_def)
    qed
  qed
qed

lemma create_calm:
  assumes calm: "calm w" and inv: "inv w" and arch: "\<not> H_IsArchived h" and spec: "spec_holding tval h (view w) \<noteq> None"
  shows "\<exists>w'. run_state (processHoldingChange S h) w = (Inr (), w') \<and> calm w'"
proof (cases "H_Owner h = '''' \<or> H_InstrumentID h = '''' \<or> H_InstrumentAdmin h = '''' \<or> H_Locked h")
  case True
  with calm arch show ?thesis by (auto simp: processHoldingChange_def)
next
  case False
  obtain w1 where i: "run_state (S_InsertHolding S h) w = (Inr (), w1)" "calm w1"
    using calm_holding[OF calm] by blast
  note hl = holding_law[OF i(1) inv]
  then have inv1: "inv w1" by blast
  from spec False arch hl obtain a where a: "tval (H_Amount h) = Some a"
    "spec_balance (H_Owner h, (H_InstrumentAdmin h, H_InstrumentID h)) a (view w1) \<noteq> None"
    unfolding spec_holding_def Let_def holding_key_def by (auto simp: bind_eq_Some_conv)
  from calm_balance[OF i(2) inv1 a] False arch i(1) show ?thesis
    by (auto simp: processHoldingChange_def)
qed

lemma process_item_calm:
  assumes "calm w" "inv w" "wf_item i" "spec_item tval i (view w) \<noteq> None"
  shows "\<exists>w'. run_state (process_item S i) w = (Inr (), w') \<and> calm w'"
proof (cases i)
  case (Item_Event e)
  with assms processTransferEvent_calm[of w e] show ?thesis by simp
next
  case (Item_Holding h)
  with assms take_calm[of w h] create_calm[of w h] show ?thesis by (cases "H_IsArchived h") simp_all
next
  case (Item_Transfer t)
  obtain w1 where "run_state (S_InsertTransfer S t) w = (Inr (), w1)" "calm w1"
    using calm_transfer[OF assms(1)] by blast
  moreover obtain w2 where "run_state (S_FinalizeTransfer S (X_ContractID t) (archived_status t)) w = (Inr (), w2)" "calm w2"
    using calm_finalize[OF assms(1)] by blast
  ultimately show ?thesis using Item_Transfer by (cases "X_Archived t") simp_all
qed

lemma items_calm:
  "calm w \<Longrightarrow> inv w \<Longrightarrow> list_all wf_item is \<Longrightarrow> spec_items tval is (view w) \<noteq> None \<Longrightarrow>
   \<exists>w'. run_state (for_err is (process_item S)) w = (Inr (), w') \<and> calm w'"
proof (induction "is" arbitrary: w)
  case (Cons i "is")
  then obtain v where v: "spec_item tval i (view w) = Some v" "spec_items tval is v \<noteq> None"
    by (auto simp: bind_eq_Some_conv)
  then obtain w1 where w1: "run_state (process_item S i) w = (Inr (), w1)" "calm w1"
    using process_item_calm[OF Cons.prems(1,2), of i] Cons.prems(3) by auto
  have "inv w1 \<and> view w1 = v" using process_item_law[OF w1(1) Cons.prems(2)] Cons.prems(3) v(1) by simp
  with Cons.IH[OF w1(2)] Cons.prems(3) v(2) w1(1) show ?case by simp
qed simp

lemma processBatch_calm:
  assumes calm: "calm w" and inv: "inv w" and wf: "list_all wf_item (b_Items b)"
    and spec: "spec_batch tval b (view w) = Some v"
  shows "\<exists>w'. run_state (processBatch S b) w = (Inr (), w') \<and> calm w' \<and> inv w' \<and> view w' = v"
proof -
  have body: "\<exists>w2. run_state (batch_body S b) w1 = (Inr (), w2) \<and> calm w2"
    if w1: "calm w1" "inv w1" "view w1 = view w" for w1
  proof -
    have "spec_items tval (b_Items b) (view w1) \<noteq> None" using spec w1(3) by (auto simp: spec_batch_def)
    from items_calm[OF w1(1,2) wf this] obtain w2 where
      w2: "run_state (for_err (b_Items b) (process_item S)) w1 = (Inr (), w2)" "calm w2" by blast
    from calm_offset[OF w2(2), of "b_Offset b"] w2(1) show ?thesis by (auto simp: batch_body_def)
  qed
  from calm_tx[OF calm inv body] obtain w' where
    w': "run_state (S_RunInTx S (batch_body S b)) w = (Inr (), w')" "calm w'" by blast
  then have run: "run_state (processBatch S b) w = (Inr (), w')" by (simp add: processBatch_def)
  from processBatch_law[OF run inv wf] spec have "inv w'" "view w' = v" by auto
  with run w'(2) show ?thesis by blast
qed

end

end
