(* ===== verification/Indexer_Safety.thy ===== *)
theory Indexer_Safety
  imports Indexer_Store Indexer_Replay Indexer_Progress
begin

text \<open>
  The indexer as a whole: the processor on its PostgreSQL store, fed by the ledger stream.  The
  properties of the write path.
\<close>

section \<open>Failing statements\<close>

text \<open>\<open>sheds m\<close>: running \<open>m\<close> uses up entries of the fault schedule and adds none.\<close>

definition sheds :: "('a pg_scheme, 'b) state \<Rightarrow> bool" where
  "sheds m \<longleftrightarrow> (\<forall>w. \<exists>k. pg_faults (snd (run_state m w)) = drop k (pg_faults w))"

named_theorems shedding

lemma shedsI: "(\<And>w r w'. run_state m w = (r, w') \<Longrightarrow> \<exists>k. pg_faults w' = drop k (pg_faults w)) \<Longrightarrow> sheds m"
  unfolding sheds_def by (metis prod.collapse)

lemma shedsD: "sheds m \<Longrightarrow> run_state m w = (r, w') \<Longrightarrow> \<exists>k. pg_faults w' = drop k (pg_faults w)"
  unfolding sheds_def by (metis snd_conv)

lemma sheds_ret [shedding]: "sheds (ret x)"
  by (rule shedsI) (auto intro: exI[of _ 0])

lemma sheds_gets [shedding]: "sheds (gets f)"
  by (rule shedsI) (auto intro: exI[of _ 0])

lemma sheds_modify [shedding]: "(\<And>w. pg_faults (f w) = pg_faults w) \<Longrightarrow> sheds (modify f)"
  by (rule shedsI) (auto intro: exI[of _ 0])

lemma sheds_exec_one [shedding]: "sheds pg_exec"
  by (rule shedsI) (auto split: list.splits intro: exI[of _ 0] exI[of _ 1])

lemma sheds_bind [shedding]:
  assumes "sheds m" "\<And>x. sheds (f x)"
  shows "sheds (State_Monad.bind m f)"
proof (rule shedsI)
  fix w r w' assume run: "run_state (State_Monad.bind m f) w = (r, w')"
  obtain x w1 where m: "run_state m w = (x, w1)" by (rule run_obtain)
  with run have "run_state (f x) w1 = (r, w')" by simp
  from shedsD[OF assms(1) m] shedsD[OF assms(2) this] show "\<exists>k. pg_faults w' = drop k (pg_faults w)" by auto
qed

lemma sheds_exec [shedding]: "(\<And>w. pg_faults (f w) = pg_faults w) \<Longrightarrow> sheds (exec what f)"
  unfolding exec_def by (intro shedding) (auto split: fault.splits intro!: shedding)

lemma sheds_exec_rows [shedding]: "(\<And>w. pg_faults (f w) = pg_faults w) \<Longrightarrow> sheds (exec_rows what n f)"
  unfolding exec_rows_def by (intro shedding) (auto split: fault.splits intro!: shedding)

lemma sheds_query [shedding]: "sheds (query what g)"
  unfolding query_def by (intro shedding) (auto split: fault.splits intro!: shedding)

lemma sheds_for_err [shedding]: "(\<And>x. sheds (f x)) \<Longrightarrow> sheds (for_err xs f)"
  by (induction xs) (auto split: sum.splits intro!: shedding)

text \<open>A transaction always takes an entry; one that fails keeps the tables unless an answer was lost.\<close>

lemma run_in_tx_sheds:
  assumes fn: "sheds fn" and run: "run_state (run_in_tx fn) w = (r, w')"
  obtains k where "pg_faults w' = drop (Suc k) (pg_faults w)"
proof -
  obtain b w1 where b: "run_state pg_exec w = (b, w1)" by (rule run_obtain)
  then have f1: "pg_faults w1 = drop 1 (pg_faults w)" by (auto split: list.splits)
  obtain rf w2 where f: "run_state fn w1 = (rf, w2)" by (rule run_obtain)
  obtain k2 where f2: "pg_faults w2 = drop k2 (pg_faults w1)" using shedsD[OF fn f] by blast
  obtain c w3 where c: "run_state pg_exec w2 = (c, w3)" by (rule run_obtain)
  then have f3: "pg_faults w3 = drop 1 (pg_faults w2)" by (auto split: list.splits)
  have "w' = w1 \<or> w' = rollback w1 w2 \<or> w' = rollback w1 w3 \<or> w' = w3"
    using run b f c by (auto simp: run_in_tx_def State_Monad.get_def split: fault.splits sum.splits)
  then have "pg_faults w' \<in> {pg_faults w1, pg_faults w2, pg_faults w3}"
    by (auto simp: rollback_def)
  then show thesis using f1 f2 f3 that[of 0] that[of k2] that[of "Suc k2"] by auto
qed

definition lossless :: "'a pg_scheme \<Rightarrow> bool" where
  "lossless w \<longleftrightarrow> (\<forall>e. LostAck e \<notin> set (pg_faults w))"

lemma run_in_tx_lossless:
  assumes fn: "sheds fn" and run: "run_state (run_in_tx fn) w = (Inl e, w')" and "lossless w" "tables P"
  shows "P w' = P w"
proof -
  obtain b w1 where b: "run_state pg_exec w = (b, w1)" by (rule run_obtain)
  have w1: "P w1 = P w" "lossless w1" "\<And>e. b \<noteq> LostAck e"
    using pg_exec_tables[OF b assms(4)] b assms(3) by (auto simp: lossless_def split: list.splits)
  obtain rf w2 where f: "run_state fn w1 = (rf, w2)" by (rule run_obtain)
  have "lossless w2" using shedsD[OF fn f] w1(2) unfolding lossless_def by (metis in_set_dropD)
  obtain c w3 where c: "run_state pg_exec w2 = (c, w3)" by (rule run_obtain)
  have "\<And>e. c \<noteq> LostAck e" using c \<open>lossless w2\<close> by (auto simp: lossless_def split: list.splits)
  then have "w' = w1 \<or> w' = rollback w1 w2 \<or> w' = rollback w1 w3"
    using run b f c w1(3) by (auto simp: run_in_tx_def State_Monad.get_def split: fault.splits sum.splits)
  then show ?thesis using w1(1) tables_rollback[OF assms(4)] by auto
qed

section \<open>The store under faults\<close>

lemma holdings_shed [shedding]:
  "sheds (ix_InsertEvent e)" "sheds (ix_SaveOffset n)" "sheds (ix_UpsertToken t)" "sheds (ix_ApplySupplyDelta add a i d)"
  "sheds (ix_InsertHolding h)" "sheds (ix_TakeHolding c)" "sheds (ix_InsertTransfer tr)" "sheds (ix_FinalizeTransfer c st)"
  by (auto simp: ix_InsertEvent_def ix_SaveOffset_def ix_UpsertToken_def ix_ApplySupplyDelta_def ix_InsertHolding_def
      ix_TakeHolding_def ix_InsertTransfer_def ix_FinalizeTransfer_def split: sum.splits option.splits intro!: shedding)

lemma write_balance_sheds [shedding]: "sheds (ix_write_balance D p a i new old n)"
  by (auto simp: ix_write_balance_def Let_def split: sum.splits intro!: shedding)

lemma balance_sheds [shedding]: "sheds (ix_ApplyBalanceDelta D p a i d)"
  by (auto simp: ix_ApplyBalanceDelta_def Let_def split: sum.splits option.splits intro!: shedding)

lemma batch_body_sheds: "sheds (batch_body (IndexerPGStore D add) b)"
proof -
  let ?S = "IndexerPGStore D add"
  have up: "sheds (apply_update ?S e u)" "sheds (record_direct ?S e)" for e u
    by (auto simp: apply_update_def record_direct_def IndexerPGStore_def split: sum.splits option.splits intro!: shedding)
  have ev: "sheds (processTransferEvent ?S e)" for e
    unfolding processTransferEvent_def
    by (auto simp: IndexerPGStore_def split: sum.splits option.splits intro!: shedding up[unfolded IndexerPGStore_def])
  have "sheds (processHoldingChange ?S h)" for h
    by (auto simp: processHoldingChange_def IndexerPGStore_def split: sum.splits option.splits intro!: shedding)
  then have "sheds (process_item ?S i)" for i
    using ev by (cases i) (auto simp: IndexerPGStore_def split: sum.splits intro!: shedding)
  then show ?thesis
    unfolding batch_body_def by (intro shedding) (auto simp: IndexerPGStore_def split: sum.splits intro!: shedding)
qed

context indexer_numbers
begin

lemma balance_calm:
  assumes "pg_faults w = []" "ix_inv tval w" "tval d = Some x"
  shows "spec_balance (p, (a, i)) x (ix_view tval w) \<noteq> None \<Longrightarrow>
      \<exists>w'. run_state (ix_ApplyBalanceDelta D p a i d) w = (Inr (), w') \<and> pg_faults w' = []"
    "spec_balance (p, (a, i)) x (ix_view tval w) = None \<Longrightarrow>
      \<exists>er w'. run_state (ix_ApplyBalanceDelta D p a i d) w = (Inl er, w') \<and> errors_Is er ErrNegativeBalance \<and> pg_faults w' = []"
proof -
  let ?row = "row_of balance_key (p, a, i) (ix_balances w)"
  let ?old = "case ?row of None \<Rightarrow> Inr (D_Zero D) | Some r \<Rightarrow> NewFromString D (BD_Amount r)"
  have "\<exists>old. ?old = Inr old \<and> dval old = v_bal (ix_view tval w) (p, a, i)"
  proof (cases ?row)
    case None
    then show ?thesis using zero_law by (simp add: ix_view_def)
  next
    case (Some r)
    then obtain y where y: "tval (BD_Amount r) = Some y"
      using assms(2) row_of_mem by (fastforce simp: ix_inv_def list_all_iff)
    then obtain old where "NewFromString D (BD_Amount r) = Inr old" using parse_total by blast
    with parse_law[OF this] y Some show ?thesis by (simp add: ix_view_def)
  qed
  then obtain old where old: "?old = Inr old" "dval old = v_bal (ix_view tval w) (p, a, i)" by blast
  obtain dd where dd: "NewFromString D d = Inr dd" "dval dd = x"
    using parse_total[OF assms(3)] parse_law assms(3) by fastforce
  have run: "run_state (ix_ApplyBalanceDelta D p a i d) w =
      (if v_bal (ix_view tval w) (p, a, i) + x < 0
       then (Inl (Wrap '''' ErrNegativeBalance ('' for party '' @ p @ '' on '' @ a @ ''/'' @ i @
              '': current='' @ D_String D old @ '' delta='' @ d)), w)
       else run_state (ix_write_balance D p a i (?row = None) old (D_Add D old dd)) w)"
    using assms(1) old dd by (simp add: ix_ApplyBalanceDelta_def query_def neg_law add_law Let_def)
  have wr: "\<exists>w'. run_state (ix_write_balance D p a i new o' n) w = (Inr (), w') \<and> pg_faults w' = []" for new o' n
    using assms(1) by (simp add: ix_write_balance_def exec_def Let_def)
  show "spec_balance (p, (a, i)) x (ix_view tval w) \<noteq> None \<Longrightarrow>
      \<exists>w'. run_state (ix_ApplyBalanceDelta D p a i d) w = (Inr (), w') \<and> pg_faults w' = []"
    using run wr by (auto simp: spec_balance_def Let_def split: if_splits)
  show "spec_balance (p, (a, i)) x (ix_view tval w) = None \<Longrightarrow>
      \<exists>er w'. run_state (ix_ApplyBalanceDelta D p a i d) w = (Inl er, w') \<and> errors_Is er ErrNegativeBalance \<and> pg_faults w' = []"
    using run assms(1) by (auto simp: spec_balance_def ErrNegativeBalance_def Let_def split: if_splits)
qed

end

sublocale indexer_numbers \<subseteq> live: healthy_store "IndexerPGStore D numeric_add" "ix_inv tval" "ix_view tval" tval "\<lambda>w. pg_faults w = []"
proof (unfold_locales, unfold IndexerPGStore_def EngineStore.simps, goal_cases)
  case (1 w m)
  from 1(3)[OF 1(1,2) refl] obtain w2 where "run_state m w = (Inr (), w2)" "pg_faults w2 = []" by blast
  with 1(1) show ?case by (simp add: run_in_tx_def State_Monad.get_def)
next
  case (4 w a i d x)
  from 4(3) obtain r y where r: "row_of token_key (a, i) (ix_tokens w) = Some r" "tval (TD_TotalSupply r) = Some y"
    by (auto simp: ix_view_def bind_eq_Some_conv)
  with numeric_total[OF r(2) 4(4)] 4(1) show ?case by (auto simp: ix_ApplySupplyDelta_def exec_def)
next
  case (5 w d x p a i)
  from balance_calm(1)[OF 5(1-3) 5(4)] show ?case .
next
  case (6 w d x p a i)
  from balance_calm(2)[OF 6(1-3) 6(4)] show ?case .
qed (auto simp: ix_InsertEvent_def ix_SaveOffset_def ix_UpsertToken_def ix_InsertHolding_def ix_TakeHolding_def
       ix_InsertTransfer_def ix_FinalizeTransfer_def exec_def exec_rows_def query_def split: option.splits)

section \<open>Attempts and retries\<close>

definition replays :: "item Batch \<Rightarrow> bool" where
  "replays b \<longleftrightarrow> list_all replayable (b_Items b) \<and> in_order (b_Items b)"

text \<open>A batch that can be told apart from its second delivery, or a database that loses no answer.\<close>

definition once :: "'a pg_scheme \<Rightarrow> item Batch \<Rightarrow> bool" where
  "once w b \<longleftrightarrow> replays b \<or> lossless w"

lemma lossless_drop: "pg_faults w' = drop k (pg_faults w) \<Longrightarrow> lossless w \<Longrightarrow> lossless w'"
  unfolding lossless_def by (metis in_set_dropD)

lemma once_drop: "pg_faults w' = drop k (pg_faults w) \<Longrightarrow> once w b \<Longrightarrow> once w' b"
  unfolding once_def using lossless_drop by blast

lemma processBatch_faults:
  assumes "run_state (processBatch (IndexerPGStore D add) b) w = (r, w')"
  obtains k where "pg_faults w' = drop (Suc k) (pg_faults w)"
proof -
  obtain q w1 where q: "run_state (run_in_tx (batch_body (IndexerPGStore D add) b)) w = (q, w1)" by (rule run_obtain)
  with assms have "w' = w1" by (auto simp: processBatch_def IndexerPGStore_def split: sum.splits)
  with run_in_tx_sheds[OF batch_body_sheds q] that show thesis by blast
qed

context indexer_numbers
begin

lemma attempt_failed:
  assumes run: "run_state (processBatch (IndexerPGStore D numeric_add) b) w = (Inl e, w')" and "lossless w"
  shows "ix_view tval w' = ix_view tval w"
proof -
  obtain q w1 where q: "run_state (run_in_tx (batch_body (IndexerPGStore D numeric_add) b)) w = (q, w1)" by (rule run_obtain)
  with run obtain e' where "q = Inl e'" "w' = w1"
    by (cases q) (auto simp: processBatch_def IndexerPGStore_def)
  with run_in_tx_lossless[OF batch_body_sheds q[unfolded \<open>q = Inl e'\<close>] assms(2) ix_tables[of tval]] show ?thesis by simp
qed

lemma attempt:
  assumes run: "run_state (processBatch (IndexerPGStore D numeric_add) b) w = (r, w')" and inv: "ix_inv tval w"
    and wf: "list_all wf_item (b_Items b)" and once: "once w b"
  shows "ix_inv tval w'"
    "r = Inr () \<Longrightarrow> spec_batch tval b (ix_view tval w) = Some (ix_view tval w')"
    "r \<noteq> Inr () \<Longrightarrow> ix_view tval w' = ix_view tval w \<or>
       spec_batch tval b (ix_view tval w) = Some (ix_view tval w') \<and> spec_batch tval b (ix_view tval w') = Some (ix_view tval w')"
proof -
  note law = ix.processBatch_law[OF run inv wf]
  show "ix_inv tval w'" by (rule law)
  show "r = Inr () \<Longrightarrow> spec_batch tval b (ix_view tval w) = Some (ix_view tval w')" using law(2) by auto
  assume r: "r \<noteq> Inr ()"
  then obtain e where e: "r = Inl e" by (cases r) auto
  show "ix_view tval w' = ix_view tval w \<or>
       spec_batch tval b (ix_view tval w) = Some (ix_view tval w') \<and> spec_batch tval b (ix_view tval w') = Some (ix_view tval w')"
  proof (cases "lossless w")
    case True
    with attempt_failed[OF run[unfolded e]] show ?thesis by simp
  next
    case False
    with once have "replays b" by (simp add: once_def)
    with batch_replay[OF _ wf] law(2) show ?thesis by (auto simp: replays_def)
  qed
qed

text \<open>Whatever happens, the batch is stored once or not at all; stored when the loop reports so.\<close>

lemma retry_once:
  assumes "run_state (retry_loop (IndexerPGStore D numeric_add) b fuel delay) w = (r, w')" "ix_inv tval w" "once w b"
    and wf: "list_all wf_item (b_Items b)"
  shows "ix_inv tval w' \<and> (\<exists>k. pg_faults w' = drop k (pg_faults w)) \<and>
    (spec_batch tval b (ix_view tval w) = Some (ix_view tval w') \<or> ix_view tval w' = ix_view tval w \<and> r = None)"
  using assms(1-3)
proof (induction fuel arbitrary: w w' delay r)
  case 0
  then show ?case by (auto intro: exI[of _ 0])
next
  case (Suc fuel)
  let ?S = "IndexerPGStore D numeric_add"
  obtain q w1 where q: "run_state (processBatch ?S b) w = (q, w1)" by (rule run_obtain)
  obtain k where k: "pg_faults w1 = drop (Suc k) (pg_faults w)" by (rule processBatch_faults[OF q])
  note at = attempt[OF q Suc.prems(2) wf Suc.prems(3)]
  show ?case
  proof (cases q)
    case (Inr u)
    with Suc.prems(1) q have "w' = w1" by simp
    then show ?thesis using at(1,2) Inr k by auto
  next
    case (Inl e)
    obtain r2 w2 where r2: "run_state (retry_loop ?S b fuel (min (delay * 2) processorRetryMaxDelay)) w1 = (r2, w2)"
      by (rule run_obtain)
    have w': "w' = w2" "r = None \<longleftrightarrow> r2 = None" using Suc.prems(1) q Inl r2 by auto
    have at3: "ix_view tval w1 = ix_view tval w \<or> spec_batch tval b (ix_view tval w) = Some (ix_view tval w1) \<and>
        spec_batch tval b (ix_view tval w1) = Some (ix_view tval w1)" using at(3) Inl by simp
    from Suc.IH[OF r2 at(1) once_drop[OF k Suc.prems(3)]] have IH: "ix_inv tval w2" "\<exists>j. pg_faults w2 = drop j (pg_faults w1)"
      "spec_batch tval b (ix_view tval w1) = Some (ix_view tval w2) \<or> ix_view tval w2 = ix_view tval w1 \<and> r2 = None" by blast+
    have "\<exists>j. pg_faults w2 = drop j (pg_faults w)" using IH(2) k by (metis drop_drop)
    moreover have "spec_batch tval b (ix_view tval w) = Some (ix_view tval w2) \<or> ix_view tval w2 = ix_view tval w \<and> r = None"
      using at3 IH(3) w'(2) by auto
    ultimately show ?thesis using IH(1) w'(1) by blast
  qed
qed

text \<open>The loop ends with the batch stored as soon as the schedule of faults is used up.\<close>

lemma retry_stores:
  assumes "ix_inv tval w" "once w b" "spec_batch tval b (ix_view tval w) = Some v" "length (pg_faults w) < fuel"
    and wf: "list_all wf_item (b_Items b)"
  shows "\<exists>ds w'. run_state (retry_loop (IndexerPGStore D numeric_add) b fuel delay) w = (Some ds, w') \<and>
    length ds \<le> length (pg_faults w)"
  using assms(1-4)
proof (induction fuel arbitrary: w delay)
  case (Suc fuel)
  let ?S = "IndexerPGStore D numeric_add"
  obtain q w1 where q: "run_state (processBatch ?S b) w = (q, w1)" by (rule run_obtain)
  obtain k where k: "pg_faults w1 = drop (Suc k) (pg_faults w)" by (rule processBatch_faults[OF q])
  note at = attempt[OF q Suc.prems(1) wf Suc.prems(2)]
  show ?case
  proof (cases q)
    case (Inr u)
    with q show ?thesis by simp
  next
    case (Inl e)
    have ne: "pg_faults w \<noteq> []"
    proof
      assume "pg_faults w = []"
      from live.processBatch_calm[OF this Suc.prems(1) wf Suc.prems(3)] q Inl show False by simp
    qed
    have "spec_batch tval b (ix_view tval w1) = Some v" using at(3) Inl Suc.prems(3) by auto
    moreover have "length (pg_faults w1) < fuel" using k Suc.prems(4) ne by (cases "pg_faults w") auto
    ultimately obtain ds w2 where
      "run_state (retry_loop ?S b fuel (min (delay * 2) processorRetryMaxDelay)) w1 = (Some ds, w2)"
      "length ds \<le> length (pg_faults w1)"
      using Suc.IH[OF at(1) once_drop[OF k Suc.prems(2)]] by blast
    moreover have "Suc (length (pg_faults w1)) \<le> length (pg_faults w)" using k ne by (cases "pg_faults w") auto
    ultimately show ?thesis using q Inl by auto
  qed
qed simp

end

lemma doubled_delay: "0 \<le> d \<Longrightarrow> 0 \<le> m \<Longrightarrow> min (min (d * 2) m * 2 ^ k) m = min (d * 2 ^ Suc k) (m :: int)"
proof (cases "d * 2 \<le> m")
  case False
  assume "0 \<le> d" "0 \<le> m"
  have "m \<le> m * 2 ^ k" using \<open>0 \<le> m\<close> by (simp add: mult_le_cancel_left1)
  moreover have "m \<le> d * 2 * 2 ^ k"
  proof -
    have "m * 1 \<le> d * 2 * 2 ^ k" using False \<open>0 \<le> d\<close> by (intro mult_mono) auto
    then show ?thesis by simp
  qed
  ultimately show ?thesis using False by (simp add: min_def mult.assoc)
qed (simp add: mult.assoc)

lemma retry_delays:
  assumes "run_state (retry_loop S b fuel delay) w = (Some ds, w')" "0 \<le> delay" "delay \<le> processorRetryMaxDelay"
  shows "ds = map (\<lambda>k. min (delay * 2 ^ k) processorRetryMaxDelay) [0..<length ds]"
  using assms
proof (induction fuel arbitrary: w w' delay ds)
  case (Suc fuel)
  obtain q w1 where q: "run_state (processBatch S b) w = (q, w1)" by (rule run_obtain)
  show ?case
  proof (cases q)
    case (Inr u)
    with Suc.prems q show ?thesis by simp
  next
    case (Inl e)
    let ?d = "min (delay * 2) processorRetryMaxDelay"
    obtain r2 w2 where r2: "run_state (retry_loop S b fuel ?d) w1 = (r2, w2)" by (rule run_obtain)
    with Suc.prems q Inl obtain ds2 where ds: "r2 = Some ds2" "ds = delay # ds2" "w' = w2" by auto
    have "0 \<le> processorRetryMaxDelay" by (simp add: processorRetryMaxDelay_def)
    then have "ds2 = map (\<lambda>k. min (?d * 2 ^ k) processorRetryMaxDelay) [0..<length ds2]"
      using Suc.IH[OF r2[unfolded ds(1)]] Suc.prems(2) by simp
    also have "\<dots> = map (\<lambda>k. min (delay * 2 ^ Suc k) processorRetryMaxDelay) [0..<length ds2]"
      by (simp only: doubled_delay[OF Suc.prems(2) \<open>0 \<le> processorRetryMaxDelay\<close>])
    finally show ?thesis
      using Suc.prems(3) ds(2) by (simp add: upt_conv_Cons map_Suc_upt[symmetric] comp_def del: upt_Suc)
  qed
qed simp

section \<open>From the ledger to the tables\<close>

text \<open>\<open>Fetcher.Start\<close> and \<open>Events\<close>: the decoded batches of the stream from an offset.\<close>

definition Fetcher_Start ::
  "(goerr \<Rightarrow> nat option) \<Rightarrow> connection list \<Rightarrow> (LedgerTransaction \<Rightarrow> LedgerEvent \<Rightarrow> item option) \<Rightarrow> int \<Rightarrow> item Batch list" where
  "Fetcher_Start FE conns decode offset =
     map (stream_batch decode) (fst (Subscribe FE conns offset offset reconnectBaseDelay))"

definition ledger_batches :: "IxConfig \<Rightarrow> ledger \<Rightarrow> int \<Rightarrow> int \<Rightarrow> item Batch list" where
  "ledger_batches cfg L a b =
     map (\<lambda>t. stream_batch (indexer_decoder cfg) (decodeLedgerTransaction t)) (txs_between L a b)"

fun spec_stream :: "(string \<Rightarrow> rat option) \<Rightarrow> item Batch list \<Rightarrow> view \<Rightarrow> view option" where
  "spec_stream tval [] v = Some v"
| "spec_stream tval (b # bs) v = Option.bind (spec_batch tval b v) (spec_stream tval bs)"

lemma ledger_batches_wf: "b \<in> set (ledger_batches cfg L x y) \<Longrightarrow> list_all wf_item (b_Items b)"
  using decoder_wf by (fastforce simp: ledger_batches_def stream_batch_def list_all_iff List.map_filter_def)

lemma fetched_batches:
  assumes "valid_ledger L" "\<forall>c \<in> set conns. conforms L c"
  obtains l where "off \<le> l" "l = fst (snd (Subscribe FE conns off off reconnectBaseDelay))"
    "Fetcher_Start FE conns (indexer_decoder cfg) off = ledger_batches cfg L off l"
  using Subscribe_prefix[OF assms, of off FE reconnectBaseDelay]
  by (auto simp: Fetcher_Start_def ledger_batches_def)

context indexer_numbers
begin

lemma run_batches_prefix:
  assumes "run_state (run_batches (IndexerPGStore D numeric_add) bs fuel) w = (n, w')" "ix_inv tval w"
    "\<forall>b \<in> set bs. list_all wf_item (b_Items b) \<and> once w b"
  shows "ix_inv tval w' \<and> (\<exists>k \<le> length bs. n \<le> k \<and> k \<le> Suc n \<and>
    spec_stream tval (take k bs) (ix_view tval w) = Some (ix_view tval w'))"
  using assms
proof (induction bs arbitrary: w w' n)
  case (Cons b bs)
  let ?S = "IndexerPGStore D numeric_add"
  obtain q w1 where q: "run_state (processBatchWithRetry ?S b fuel) w = (q, w1)" by (rule run_obtain)
  have ob: "once w b" and wf: "list_all wf_item (b_Items b)" using Cons.prems(3) by auto
  from retry_once[OF q[unfolded processBatchWithRetry_def] Cons.prems(2) ob wf]
  have r: "ix_inv tval w1" "\<exists>j. pg_faults w1 = drop j (pg_faults w)"
    "spec_batch tval b (ix_view tval w) = Some (ix_view tval w1) \<or> ix_view tval w1 = ix_view tval w \<and> q = None" by blast+
  show ?case
  proof (cases q)
    case None
    with Cons.prems(1) q have w': "w' = w1" "n = 0" by simp_all
    from r(3) show ?thesis
    proof
      assume "spec_batch tval b (ix_view tval w) = Some (ix_view tval w1)"
      with w' r(1) show ?thesis by (intro conjI exI[of _ "1 :: nat"]) simp_all
    next
      assume "ix_view tval w1 = ix_view tval w \<and> q = None"
      with w' r(1) show ?thesis by (intro conjI exI[of _ "0 :: nat"]) simp_all
    qed
  next
    case (Some ds)
    obtain m w2 where m: "run_state (run_batches ?S bs fuel) w1 = (m, w2)" by (rule run_obtain)
    with Cons.prems(1) q Some have w': "w' = w2" "n = Suc m" by simp_all
    obtain j where j: "pg_faults w1 = drop j (pg_faults w)" using r(2) by blast
    have "\<forall>b \<in> set bs. list_all wf_item (b_Items b) \<and> once w1 b"
      using Cons.prems(3) once_drop[OF j] by auto
    from Cons.IH[OF m r(1) this] obtain k where "ix_inv tval w2" "k \<le> length bs" "m \<le> k" "k \<le> Suc m"
      "spec_stream tval (take k bs) (ix_view tval w1) = Some (ix_view tval w2)" by blast
    with w' r(3) Some show ?thesis by (intro conjI exI[of _ "Suc k"]) simp_all
  qed
qed simp

lemma run_batches_all:
  assumes "ix_inv tval w" "\<forall>b \<in> set bs. list_all wf_item (b_Items b) \<and> once w b"
    "spec_stream tval bs (ix_view tval w) = Some v" "length (pg_faults w) < fuel"
  shows "\<exists>w'. run_state (run_batches (IndexerPGStore D numeric_add) bs fuel) w = (length bs, w') \<and> ix_view tval w' = v"
  using assms
proof (induction bs arbitrary: w)
  case (Cons b bs)
  let ?S = "IndexerPGStore D numeric_add"
  obtain u where u: "spec_batch tval b (ix_view tval w) = Some u" "spec_stream tval bs u = Some v"
    using Cons.prems(3) by (auto simp: bind_eq_Some_conv)
  have ob: "once w b" and wf: "list_all wf_item (b_Items b)" using Cons.prems(2) by auto
  obtain ds w1 where q: "run_state (retry_loop ?S b fuel processorRetryBaseDelay) w = (Some ds, w1)"
    using retry_stores[OF Cons.prems(1) ob u(1) Cons.prems(4) wf] by blast
  from retry_once[OF q Cons.prems(1) ob wf] u(1)
  have r: "ix_inv tval w1" "\<exists>j. pg_faults w1 = drop j (pg_faults w)" "ix_view tval w1 = u" by auto
  then obtain j where j: "pg_faults w1 = drop j (pg_faults w)" by blast
  have "\<forall>b \<in> set bs. list_all wf_item (b_Items b) \<and> once w1 b" "length (pg_faults w1) < fuel"
    using Cons.prems(2,4) once_drop[OF j] j by auto
  from Cons.IH[OF r(1) this(1) _ this(2)] u(2) r(3) q show ?case
    by (auto simp: processBatchWithRetry_def)
qed simp

end

text \<open>An initial part of the batches between two offsets is the batches up to the last one's offset.\<close>

lemma sorted_take:
  assumes "sorted_wrt (<) (map f xs)" "k < length xs"
  shows "filter (\<lambda>x. f x \<le> (f (xs ! k) :: int)) xs = take (Suc k) xs"
proof -
  have before: "f (xs ! i) \<le> f (xs ! k)" if "i \<le> k" for i
    using sorted_wrt_nth_less[OF assms(1), of i k] assms(2) that by (cases "i = k") auto
  have after: "f (xs ! k) < f (xs ! i)" if "k < i" "i < length xs" for i
    using sorted_wrt_nth_less[OF assms(1), of k i] that by simp
  have "filter (\<lambda>x. f x \<le> f (xs ! k)) (take (Suc k) xs @ drop (Suc k) xs) = take (Suc k) xs"
    unfolding filter_append
  proof (subst filter_True)
    show "\<forall>x \<in> set (take (Suc k) xs). f x \<le> f (xs ! k)"
      using before by (auto simp: in_set_conv_nth)
    show "take (Suc k) xs @ filter (\<lambda>x. f x \<le> f (xs ! k)) (drop (Suc k) xs) = take (Suc k) xs"
      using after by (auto simp: filter_empty_conv in_set_conv_nth not_le)
  qed
  then show ?thesis by simp
qed

lemma txs_between_sub:
  "valid_ledger L \<Longrightarrow> c \<le> b \<Longrightarrow> txs_between L a c = filter (\<lambda>t. tx_Offset t \<le> c) (txs_between L a b)"
  by (induction L) (auto simp: valid_ledger_def split: option.splits)

lemma txs_between_bounds:
  "valid_ledger L \<Longrightarrow> t \<in> set (txs_between L a b) \<Longrightarrow> a < tx_Offset t \<and> tx_Offset t \<le> b"
  by (induction L) (auto simp: valid_ledger_def split: option.splits if_splits)

lemma txs_between_offset: "valid_ledger L \<Longrightarrow> t \<in> set (txs_between L a b) \<Longrightarrow> \<exists>u \<in> set L. tx_Offset t = fst u"
  by (induction L) (auto simp: valid_ledger_def split: option.splits if_splits)

lemma txs_between_sorted: "valid_ledger L \<Longrightarrow> sorted_wrt (<) (map tx_Offset (txs_between L a b))"
proof (induction L)
  case (Cons u L)
  then have L: "valid_ledger L" by (simp add: valid_ledger_def)
  have "fst u < tx_Offset t" if "t \<in> set (txs_between L a b)" for t
    using txs_between_offset[OF L that] Cons.prems by (auto simp: valid_ledger_def)
  with Cons L show ?case by (auto simp: valid_ledger_def split: option.splits)
qed simp

lemma ledger_batches_take:
  assumes L: "valid_ledger L" and k: "k < length (ledger_batches cfg L a b)"
  defines "c \<equiv> b_Offset (ledger_batches cfg L a b ! k)"
  shows "take (Suc k) (ledger_batches cfg L a b) = ledger_batches cfg L a c" "a < c" "c \<le> b"
proof -
  let ?xs = "txs_between L a b"
  have k': "k < length ?xs" using k by (simp add: ledger_batches_def)
  have c: "c = tx_Offset (?xs ! k)"
    using k' by (simp add: c_def ledger_batches_def stream_batch_def decodeLedgerTransaction_def)
  with txs_between_bounds[OF L nth_mem[OF k']] show b: "a < c" "c \<le> b" by simp_all
  show "take (Suc k) (ledger_batches cfg L a b) = ledger_batches cfg L a c"
    unfolding ledger_batches_def take_map txs_between_sub[OF L b(2)]
    using sorted_take[OF txs_between_sorted[OF L] k'] c by simp
qed

lemma spec_stream_append:
  "spec_stream tval (bs @ cs) v = Option.bind (spec_stream tval bs v) (spec_stream tval cs)"
proof (induction bs arbitrary: v)
  case (Cons b bs)
  then show ?case by (cases "spec_batch tval b v") simp_all
qed simp

lemma spec_stream_offset:
  "spec_stream tval bs v = Some v' \<Longrightarrow> v_offset v' = (if bs = [] then v_offset v else b_Offset (last bs))"
proof (induction bs arbitrary: v)
  case (Cons b bs)
  then obtain u where u: "spec_batch tval b v = Some u" "spec_stream tval bs u = Some v'"
    by (auto simp: bind_eq_Some_conv)
  then have "v_offset u = b_Offset b" by (auto simp: spec_batch_def)
  with Cons.IH[OF u(2)] show ?case by simp
qed simp

text \<open>\<open>follows\<close>: the state is what the ledger up to the saved offset means.\<close>

definition follows :: "(string \<Rightarrow> rat option) \<Rightarrow> IxConfig \<Rightarrow> ledger \<Rightarrow> view \<Rightarrow> view \<Rightarrow> bool" where
  "follows tval cfg L v0 v \<longleftrightarrow> v_offset v0 \<le> v_offset v \<and>
     spec_stream tval (ledger_batches cfg L (v_offset v0) (v_offset v)) v0 = Some v"

lemma follows_step:
  assumes L: "valid_ledger L" and f: "follows tval cfg L v0 v" and k: "k \<le> length (ledger_batches cfg L (v_offset v) l)"
    and v': "spec_stream tval (take k (ledger_batches cfg L (v_offset v) l)) v = Some v'"
  shows "follows tval cfg L v0 v' \<and> v_offset v \<le> v_offset v'"
proof (cases k)
  case 0
  with v' f show ?thesis by simp
next
  case (Suc j)
  let ?bs = "ledger_batches cfg L (v_offset v) l"
  have j: "j < length ?bs" using k Suc by simp
  note t = ledger_batches_take[OF L j]
  have "take k ?bs \<noteq> []" "last (take k ?bs) = ?bs ! j" using j Suc by (auto simp: take_Suc_conv_app_nth)
  then have off: "v_offset v' = b_Offset (?bs ! j)" using spec_stream_offset[OF v'] by simp
  have le: "v_offset v0 \<le> v_offset v" "spec_stream tval (ledger_batches cfg L (v_offset v0) (v_offset v)) v0 = Some v"
    using f by (auto simp: follows_def)
  have step: "spec_stream tval (ledger_batches cfg L (v_offset v) (v_offset v')) v = Some v'"
    using v' t(1) Suc off by simp
  have lt: "v_offset v < v_offset v'" using t(2) off by simp
  have "ledger_batches cfg L (v_offset v0) (v_offset v) @ ledger_batches cfg L (v_offset v) (v_offset v') =
      ledger_batches cfg L (v_offset v0) (v_offset v')"
    using L le(1) lt unfolding ledger_batches_def map_append[symmetric]
    by (subst txs_between_split) (auto simp: valid_ledger_def)
  from spec_stream_append[of tval "ledger_batches cfg L (v_offset v0) (v_offset v)"
      "ledger_batches cfg L (v_offset v) (v_offset v')" v0, unfolded this]
  show ?thesis using le step lt by (simp add: follows_def)
qed

lemma fetched_wf: "b \<in> set (Fetcher_Start FE conns (indexer_decoder cfg) off) \<Longrightarrow> list_all wf_item (b_Items b)"
  using decoder_wf by (fastforce simp: Fetcher_Start_def stream_batch_def list_all_iff List.map_filter_def)

context indexer_numbers
begin

abbreviation store :: "'z indexer_db_scheme EngineStore" where
  "store \<equiv> IndexerPGStore D numeric_add"

lemma minus_sign: "minus_ok tval"
  using minus_text by (auto simp: minus_ok_def)

lemma Run_follows:
  assumes run: "run_state (Run store (Fetcher_Start FE conns (indexer_decoder cfg)) fuel) w = (r, w')"
    and L: "valid_ledger L" and conns: "\<forall>c \<in> set conns. conforms L c" and inv: "ix_inv tval w"
    and f: "follows tval cfg L v0 (ix_view tval w)"
    and once: "\<forall>b \<in> set (Fetcher_Start FE conns (indexer_decoder cfg) (v_offset (ix_view tval w))). once w b"
  shows "ix_inv tval w' \<and> follows tval cfg L v0 (ix_view tval w') \<and> v_offset (ix_view tval w) \<le> v_offset (ix_view tval w')"
proof -
  obtain q w1 where q: "run_state (ix_LatestOffset) w = (q, w1)" by (rule run_obtain)
  note ll = latest_offset_law[OF q, of tval]
  show ?thesis
  proof (cases q)
    case (Inl e)
    with run q have "w' = w1" by (simp add: Run_def IndexerPGStore_def)
    with ll inv f show ?thesis by simp
  next
    case (Inr n)
    with ll(3) have n: "n = v_offset (ix_view tval w)" by simp
    let ?bs = "Fetcher_Start FE conns (indexer_decoder cfg) n"
    obtain m w2 where m: "run_state (run_batches store ?bs fuel) w1 = (m, w2)" by (rule run_obtain)
    with run q Inr have w': "w' = w2" by (simp add: Run_def) (simp add: IndexerPGStore_def)
    have "\<exists>j. pg_faults w1 = drop j (pg_faults w)"
      by (rule shedsD[OF _ q]) (auto simp: ix_LatestOffset_def split: sum.splits option.splits intro!: shedding)
    then obtain j where j: "pg_faults w1 = drop j (pg_faults w)" ..
    have pre: "\<forall>b \<in> set ?bs. list_all wf_item (b_Items b) \<and> once w1 b"
      using fetched_wf once n once_drop[OF j] by blast
    have inv1: "ix_inv tval w1" using ll inv by simp
    from run_batches_prefix[OF m inv1 pre] obtain k where k: "ix_inv tval w2" "k \<le> length ?bs"
      "spec_stream tval (take k ?bs) (ix_view tval w) = Some (ix_view tval w2)" using ll(2) by auto
    obtain l where "?bs = ledger_batches cfg L n l"
      by (rule fetched_batches[OF L conns, of n FE cfg])
    with follows_step[OF L f, of k l] k n w' show ?thesis by simp
  qed
qed

lemma Run_catches_up:
  assumes L: "valid_ledger L" and conns: "\<forall>c \<in> set conns. conforms L c" and inv: "ix_inv tval w"
    and once: "\<forall>b \<in> set (Fetcher_Start FE conns (indexer_decoder cfg) (v_offset (ix_view tval w))). once w b"
    and l: "l = fst (snd (Subscribe FE conns (v_offset (ix_view tval w)) (v_offset (ix_view tval w)) reconnectBaseDelay))"
    and v: "spec_stream tval (ledger_batches cfg L (v_offset (ix_view tval w)) l) (ix_view tval w) = Some v"
    and fuel: "length (pg_faults w) < fuel" and first: "pg_faults w = [] \<or> hd (pg_faults w) = Works"
  shows "\<exists>n w'. run_state (Run store (Fetcher_Start FE conns (indexer_decoder cfg)) fuel) w = (Inr n, w') \<and> ix_view tval w' = v"
proof -
  let ?o = "v_offset (ix_view tval w)"
  let ?bs = "Fetcher_Start FE conns (indexer_decoder cfg) ?o"
  let ?w1 = "w\<lparr>pg_faults := tl (pg_faults w)\<rparr>"
  have q: "run_state ix_LatestOffset w = (Inr ?o, ?w1)"
    using first by (cases "pg_faults w") (auto simp: ix_LatestOffset_def query_def ix_view_def split: option.splits)
  note ll = latest_offset_law[OF q, of tval]
  have bs: "?bs = ledger_batches cfg L ?o l"
    by (rule fetched_batches[OF L conns, of ?o FE cfg]) (simp add: l)
  have "pg_faults ?w1 = drop 1 (pg_faults w)" by (simp add: drop_Suc)
  then have pre: "\<forall>b \<in> set ?bs. list_all wf_item (b_Items b) \<and> once ?w1 b"
    using fetched_wf once once_drop by blast
  have "\<exists>w'. run_state (run_batches store ?bs fuel) ?w1 = (length ?bs, w') \<and> ix_view tval w' = v"
    by (rule run_batches_all[OF _ pre]) (use ll inv v bs fuel in auto)
  then obtain w' where "run_state (run_batches store ?bs fuel) ?w1 = (length ?bs, w')" "ix_view tval w' = v" by blast
  with q show ?thesis by (simp add: Run_def) (simp add: IndexerPGStore_def)
qed

lemma Run_keeps:
  assumes "run_state (Run store (Fetcher_Start FE conns (indexer_decoder cfg)) fuel) w = (r, w')" "ix_inv tval w"
    and "I (ix_view tval w)"
    and "\<And>b v v'. b \<in> set (Fetcher_Start FE conns (indexer_decoder cfg) (v_offset (ix_view tval w))) \<Longrightarrow>
      list_all wf_item (b_Items b) \<Longrightarrow> I v \<Longrightarrow> spec_batch tval b v = Some v' \<Longrightarrow> I v'"
  shows "I (ix_view tval w')"
  using ix.Run_preserves[OF assms(1,2), of I] assms(3,4) fetched_wf by blast

lemma batch_law:
  assumes "run_state (processBatch store b) w = (Inr (), w')" "ix_inv tval w" "list_all wf_item (b_Items b)"
  shows "ix_inv tval w' \<and> spec_batch tval b (ix_view tval w) = Some (ix_view tval w')"
  using ix.processBatch_law[OF assms] by simp

lemma retry_blocked:
  assumes "ix_inv tval w" "spec_batch tval b (ix_view tval w) = None" and wf: "list_all wf_item (b_Items b)"
  shows "fst (run_state (retry_loop store b fuel delay) w) = None \<and>
    ix_view tval (snd (run_state (retry_loop store b fuel delay) w)) = ix_view tval w"
  using assms(1,2)
proof (induction fuel arbitrary: w delay)
  case (Suc fuel)
  obtain q w1 where q: "run_state (processBatch store b) w = (q, w1)" by (rule run_obtain)
  from ix.processBatch_law[OF q Suc.prems(1) wf] Suc.prems(2) obtain e where
    e: "ix_inv tval w1" "ix_view tval w1 = ix_view tval w" "q = Inl e" by auto
  with Suc.IH[OF e(1), of "min (delay * 2) processorRetryMaxDelay"] Suc.prems(2) q show ?case
    by (auto split: prod.splits)
qed simp

lemma replay_noop:
  assumes run1: "run_state (processBatch store b) w = (Inr (), w1)" and run2: "run_state (processBatch store b) w1 = (r, w2)"
    and inv: "ix_inv tval w" and wf: "list_all wf_item (b_Items b)" and rep: "replays b"
  shows "ix_view tval w2 = ix_view tval w1"
proof -
  note p1 = ix.processBatch_law[OF run1 inv wf]
  then have s1: "spec_batch tval b (ix_view tval w) = Some (ix_view tval w1)" by simp
  from batch_replay[OF s1 wf] rep have "spec_batch tval b (ix_view tval w1) = Some (ix_view tval w1)"
    by (simp add: replays_def)
  with ix.processBatch_law(2)[OF run2 p1(1) wf] show ?thesis by auto
qed

end

end
