(* ===== verification/Indexer_Properties.thy ===== *)
theory Indexer_Properties
  imports Indexer_Safety
begin

text \<open>
  The properties of the indexer's write path, over the processor on the PostgreSQL store, and their
  witnesses on a small ledger.
\<close>

section \<open>A small ledger\<close>

definition demo_mint_event :: LapiEvent where
  "demo_mint_event = Ev_Created \<lparr>ce_Offset = 3, ce_NodeId = 0, ce_ContractId = ''m1'',
     ce_TemplateId = Some \<lparr>id_PackageId = ''#cip56'', id_ModuleName = ''CIP56.Events'', id_EntityName = ''TokenTransferEvent''\<rparr>,
     ce_CreateArguments = Some
       [(''issuer'', Some (V_Party ''issuer'')),
        (''instrumentId'', Some (V_Record (Some [(''admin'', Some (V_Party ''issuer'')), (''id'', Some (V_Text ''DEMO''))]))),
        (''fromParty'', Some (V_Optional None)),
        (''toParty'', Some (V_Optional (Some (Some (V_Party ''alice''))))),
        (''amount'', Some (V_Numeric ''10.0''))],
     ce_AcsDelta = True, ce_CreatedAt = 1\<rparr>"

definition demo_ix_ledger :: ledger where
  "demo_ix_ledger =
     [(3, Some \<lparr>tx_UpdateId = ''u3'', tx_Offset = 3, tx_EffectiveAt = 30, tx_Events = [demo_mint_event]\<rparr>),
      (5, None)]"

definition demo_mint :: ParsedEvent where
  "demo_mint = \<lparr>PE_InstrumentID = ''DEMO'', PE_InstrumentAdmin = ''issuer'', PE_Issuer = ''issuer'',
     PE_EventType = ''MINT'', PE_Amount = ''10.0'', PE_FromPartyID = None, PE_ToPartyID = Some ''alice'',
     PE_ExternalTxID = None, PE_ExternalAddress = None, PE_Fingerprint = None, PE_ContractID = ''m1'',
     PE_TxID = ''u3'', PE_LedgerOffset = 3, PE_Timestamp = zero_time, PE_EffectiveTime = 30\<rparr>"

definition demo_batch :: "item Batch" where
  "demo_batch = \<lparr>b_Offset = 3, b_UpdateID = ''u3'', b_Items = [Item_Event demo_mint]\<rparr>"

text \<open>An empty database whose first two transactions go wrong; in the second only the answer is lost.\<close>

definition demo_db :: "fault list \<Rightarrow> indexer_db" where
  "demo_db fs = \<lparr>pg_now = 0, pg_faults = fs, ix_events = [], ix_tokens = [], ix_balances = [], ix_offsets = [],
     ix_holdings = [], ix_transfers = []\<rparr>"

lemma demo_batches: "ledger_batches demo_ix_config demo_ix_ledger 0 3 = [demo_batch]"
  by code_simp

lemma demo_amount: "dec_text ''10.0'' = Some 10"
  by code_simp

definition demo_conn :: connection where
  "demo_conn = breaks_after 1 demo_ix_ledger"

lemma demo_conn_conforms [simp]: "conforms demo_ix_ledger demo_conn"
  by (simp add: demo_conn_def)

lemma demo_fetch:
  "Fetcher_Start (\<lambda>_. None) [demo_conn] (indexer_decoder demo_ix_config) 0 = [demo_batch]"
  by code_simp

lemma demo_reached:
  "fst (snd (Subscribe (\<lambda>_. None) [demo_conn] 0 0 reconnectBaseDelay)) = 3"
  by code_simp

lemma demo_db_simps [simp]:
  "ix_inv tval (demo_db fs)" "v_offset (ix_view tval (demo_db fs)) = 0" "pg_faults (demo_db fs) = fs"
  "v_bal (ix_view tval (demo_db fs)) k = 0" "v_supply (ix_view tval (demo_db fs)) i = None"
  "v_holdings (ix_view tval (demo_db fs)) c = None" "v_events (ix_view tval (demo_db fs)) c = None"
  "v_transfers (ix_view tval (demo_db fs)) c = None" "v_holders (ix_view tval (demo_db fs)) i = 0"
  by (simp_all add: demo_db_def ix_inv_def ix_view_def)

lemma demo_ledger_valid [simp]: "valid_ledger demo_ix_ledger"
  by (simp add: valid_ledger_def demo_ix_ledger_def)

lemma demo_batch_simps [simp]:
  "replays demo_batch" "once w demo_batch" "list_all wf_item (b_Items demo_batch)"
  "list_all (holding_nonneg tval) (b_Items demo_batch)" "list_all (no_holding_of i) (b_Items demo_batch)"
  by (simp_all add: replays_def once_def demo_batch_def demo_mint_def wf_event_def event_type_of_def indexer_consts)

lemma demo_follows: "follows tval cfg demo_ix_ledger (ix_view tval (demo_db fs)) (ix_view tval (demo_db fs'))"
proof -
  have "ix_view tval (demo_db fs) = ix_view tval (demo_db fs')" by (simp add: demo_db_def ix_view_def)
  then show ?thesis by (simp add: follows_def ledger_batches_def)
qed

definition demo_view :: view where
  "demo_view = \<lparr>v_events = [''m1'' \<mapsto> demo_mint], v_supply = [(''issuer'', ''DEMO'') \<mapsto> 10],
     v_holders = (\<lambda>_. 0)((''issuer'', ''DEMO'') := 1), v_bal = (\<lambda>_. 0)((''alice'', (''issuer'', ''DEMO'')) := 10),
     v_holdings = Map.empty, v_transfers = Map.empty, v_offset = 3\<rparr>"

lemma demo_spec: "spec_batch dec_text demo_batch (ix_view dec_text (demo_db fs)) = Some demo_view"
proof -
  have "ix_view dec_text (demo_db fs) = \<lparr>v_events = Map.empty, v_supply = Map.empty, v_holders = (\<lambda>_. 0),
      v_bal = (\<lambda>_. 0), v_holdings = Map.empty, v_transfers = Map.empty, v_offset = 0\<rparr>"
    by (simp add: demo_db_def ix_view_def)
  then show ?thesis
    by (simp add: spec_batch_def demo_batch_def spec_event_def spec_new_event_def demo_mint_def demo_amount
        event_instrument_def spec_token_def spec_supply_def spec_balance_def holder_step_def demo_view_def Let_def)
qed

section \<open>Properties\<close>

text \<open>
  C2: The tables follow the ledger, exactly once and in order.  If the tables are what the ledger's
  transactions up to the saved offset mean, they are so again after any run of the indexer: through
  broken streams, failed statements, rolled back and retried transactions, and wherever it stops;
  and the saved offset has not gone back.  A batch that creates holdings needs a database that loses
  no answer.
\<close>

theorem tables_follow_ledger:
  assumes "indexer_numbers D dval tval add" "valid_ledger L" "\<forall>c \<in> set conns. conforms L c"
    and "ix_inv tval w" "follows tval cfg L v0 (ix_view tval w)"
    and "\<forall>b \<in> set (Fetcher_Start FE conns (indexer_decoder cfg) (v_offset (ix_view tval w))). once w b"
    and "run_state (Run (IndexerPGStore D add) (Fetcher_Start FE conns (indexer_decoder cfg)) fuel) w = (r, w')"
  shows "ix_inv tval w' \<and> follows tval cfg L v0 (ix_view tval w') \<and>
    v_offset (ix_view tval w) \<le> v_offset (ix_view tval w')"
  by (rule indexer_numbers.Run_follows[OF assms(1,7,2-6)])

theorem tables_follow_ledger_witness:
  "follows dec_text demo_ix_config demo_ix_ledger (ix_view dec_text (demo_db []))
     (ix_view dec_text (snd (run_state (Run (IndexerPGStore dec_lib dec_numeric_add)
       (Fetcher_Start (\<lambda>_. None) [demo_conn] (indexer_decoder demo_ix_config)) 2)
       (demo_db [Works, Works, Fails ''timeout'']))))"
proof -
  let ?R = "run_state (Run (IndexerPGStore dec_lib dec_numeric_add)
       (Fetcher_Start (\<lambda>_. None) [demo_conn] (indexer_decoder demo_ix_config)) 2)
       (demo_db [Works, Works, Fails ''timeout''])"
  have "?R = (fst ?R, snd ?R)" by simp
  from tables_follow_ledger[OF dec_ix.indexer_numbers_axioms demo_ledger_valid _ _ demo_follows _ this]
  show ?thesis by (simp add: demo_fetch del: Subscribe.simps)
qed

text \<open>
  C33: The indexer catches up.  When the transactions the stream delivers have a meaning, one run
  stores them all: it returns normally, after as many retries as there are failing statements, and
  the tables are what those transactions make of the tables before.
\<close>

theorem indexer_catches_up:
  assumes "indexer_numbers D dval tval add" "valid_ledger L" "\<forall>c \<in> set conns. conforms L c" "ix_inv tval w"
    and "\<forall>b \<in> set (Fetcher_Start FE conns (indexer_decoder cfg) (v_offset (ix_view tval w))). once w b"
    and "l = fst (snd (Subscribe FE conns (v_offset (ix_view tval w)) (v_offset (ix_view tval w)) reconnectBaseDelay))"
    and "spec_stream tval (ledger_batches cfg L (v_offset (ix_view tval w)) l) (ix_view tval w) = Some v"
    and "length (pg_faults w) < fuel" "pg_faults w = [] \<or> hd (pg_faults w) = Works"
  shows "\<exists>n w'. run_state (Run (IndexerPGStore D add) (Fetcher_Start FE conns (indexer_decoder cfg)) fuel) w = (Inr n, w') \<and>
    ix_view tval w' = v"
  by (rule indexer_numbers.Run_catches_up[OF assms])

theorem indexer_catches_up_witness:
  "\<exists>n w'. run_state (Run (IndexerPGStore dec_lib dec_numeric_add)
       (Fetcher_Start (\<lambda>_. None) [demo_conn] (indexer_decoder demo_ix_config)) 3)
       (demo_db [Works, LostAck ''reset'']) = (Inr n, w') \<and> ix_view dec_text w' = demo_view"
  by (rule indexer_catches_up[OF dec_ix.indexer_numbers_axioms demo_ledger_valid _ _ _ refl])
    (simp_all add: demo_fetch demo_reached demo_batches demo_spec del: Subscribe.simps)



text \<open>
  C37: A batch is never skipped.  When a batch has no meaning on the tables, for example a burn that
  the recorded balance does not cover, no attempt stores it: the loop keeps retrying until the context
  ends, and the tables, the saved offset among them, stay as they were.
\<close>

theorem undefined_batch_blocks:
  assumes "indexer_numbers D dval tval add" "ix_inv tval w" "list_all wf_item (b_Items b)"
    and "spec_batch tval b (ix_view tval w) = None"
  shows "fst (run_state (processBatchWithRetry (IndexerPGStore D add) b fuel) w) = None \<and>
    ix_view tval (snd (run_state (processBatchWithRetry (IndexerPGStore D add) b fuel) w)) = ix_view tval w"
  unfolding processBatchWithRetry_def by (rule indexer_numbers.retry_blocked[OF assms(1,2,4,3)])

definition demo_burn :: ParsedEvent where
  "demo_burn = demo_mint\<lparr>PE_EventType := ''BURN'', PE_FromPartyID := Some ''alice'', PE_ToPartyID := None,
     PE_ContractID := ''m2''\<rparr>"

definition demo_burn_batch :: "item Batch" where
  "demo_burn_batch = \<lparr>b_Offset = 4, b_UpdateID = ''u4'', b_Items = [Item_Event demo_burn]\<rparr>"

lemma demo_minus: "dec_text ''-10.0'' = Some (- 10)"
  by code_simp

lemma demo_burn_undefined: "spec_batch dec_text demo_burn_batch (ix_view dec_text (demo_db fs)) = None"
  by (simp add: spec_batch_def demo_burn_batch_def spec_event_def spec_new_event_def demo_burn_def demo_mint_def
      demo_minus event_instrument_def spec_token_def spec_supply_def spec_balance_def Let_def)

theorem undefined_batch_blocks_witness:
  "fst (run_state (processBatchWithRetry (IndexerPGStore dec_lib dec_numeric_add) demo_burn_batch 7) (demo_db [])) = None"
  using undefined_batch_blocks[OF dec_ix.indexer_numbers_axioms _ _ demo_burn_undefined, of "[]" 7]
  by (simp add: demo_burn_batch_def demo_burn_def demo_mint_def wf_event_def event_type_of_def indexer_consts)

text \<open>
  C11: Replaying a stored batch changes nothing.  A batch that creates no holding can be processed
  again after it was stored, whether the second attempt succeeds or fails: events, supplies, holder
  counts, balances, transfers, holdings and the offset stay as they are.
\<close>

theorem replayed_batch_is_noop:
  assumes "indexer_numbers D dval tval add" "ix_inv tval w" "list_all wf_item (b_Items b)" "replays b"
    and "run_state (processBatch (IndexerPGStore D add) b) w = (Inr (), w1)"
    and "run_state (processBatch (IndexerPGStore D add) b) w1 = (r, w2)"
  shows "ix_view tval w2 = ix_view tval w1"
  by (rule indexer_numbers.replay_noop[OF assms(1,5,6,2-4)])

lemma demo_stored:
  obtains w1 where "run_state (processBatch (IndexerPGStore dec_lib dec_numeric_add) demo_batch) (demo_db []) = (Inr (), w1)"
    "ix_inv dec_text w1" "ix_view dec_text w1 = demo_view"
  using dec_ix.live.processBatch_calm[of "demo_db []" demo_batch, OF _ _ _ demo_spec] by auto

theorem replayed_batch_is_noop_witness:
  "\<exists>w1 w2. run_state (processBatch (IndexerPGStore dec_lib dec_numeric_add) demo_batch) (demo_db []) = (Inr (), w1) \<and>
     run_state (processBatch (IndexerPGStore dec_lib dec_numeric_add) demo_batch) w1 = (Inr (), w2) \<and>
     ix_view dec_text w2 = demo_view"
proof -
  obtain w1 where w1: "run_state (processBatch (IndexerPGStore dec_lib dec_numeric_add) demo_batch) (demo_db []) = (Inr (), w1)"
    "ix_view dec_text w1 = demo_view" by (rule demo_stored)
  have "pg_faults w1 = []"
    by (rule processBatch_faults[OF w1(1)]) simp
  moreover have "ix_inv dec_text w1" using dec_ix.ix.processBatch_law(1)[OF w1(1)] by simp
  moreover have "spec_batch dec_text demo_batch demo_view = Some demo_view"
    using batch_replay[OF demo_spec[of "[]"]] demo_batch_simps(1,3) by (simp add: replays_def)
  ultimately obtain w2 where w2: "run_state (processBatch (IndexerPGStore dec_lib dec_numeric_add) demo_batch) w1 = (Inr (), w2)"
    using dec_ix.live.processBatch_calm[of w1 demo_batch demo_view] w1(2) by auto
  from replayed_batch_is_noop[OF dec_ix.indexer_numbers_axioms _ _ _ w1(1) w2] w1 w2 show ?thesis by auto
qed

text \<open>
  C4: The books balance.  Whatever the indexer goes through, no balance becomes negative, and for
  every instrument the balances together cover the recorded supply plus the active holdings.  It is
  only assumed that a holding has no negative amount.
\<close>

theorem balances_cover_supply:
  assumes "indexer_numbers D dval tval add" "ix_inv tval w" "books_ok tval (ix_view tval w)"
    and "\<forall>b \<in> set (Fetcher_Start FE conns (indexer_decoder cfg) (v_offset (ix_view tval w))).
      list_all (holding_nonneg tval) (b_Items b)"
    and "run_state (Run (IndexerPGStore D add) (Fetcher_Start FE conns (indexer_decoder cfg)) fuel) w = (r, w')"
  shows "0 \<le> v_bal (ix_view tval w') k \<and>
    supply_of (ix_view tval w') i + held_of tval (ix_view tval w') i \<le> total_of (ix_view tval w') i"
proof -
  have "books_ok tval (ix_view tval w')"
    by (rule indexer_numbers.Run_keeps[OF assms(1,5,2), where I = "books_ok tval"])
      (use assms(3,4) books_batch indexer_numbers.minus_sign[OF assms(1)] in blast)+
  from books_okD(3,4)[OF this] show ?thesis by blast
qed

lemma demo_books: "books_ok dec_text (ix_view dec_text (demo_db fs))"
  by (rule books_okI) (simp_all add: supply_of_def held_of_def total_of_def)

theorem balances_cover_supply_witness:
  "0 \<le> v_bal (ix_view dec_text (snd (run_state (Run (IndexerPGStore dec_lib dec_numeric_add)
       (Fetcher_Start (\<lambda>_. None) [demo_conn] (indexer_decoder demo_ix_config)) 3)
       (demo_db [Works, LostAck ''reset''])))) (''alice'', (''issuer'', ''DEMO''))"
proof -
  let ?R = "run_state (Run (IndexerPGStore dec_lib dec_numeric_add)
       (Fetcher_Start (\<lambda>_. None) [demo_conn] (indexer_decoder demo_ix_config)) 3) (demo_db [Works, LostAck ''reset''])"
  have R: "?R = (fst ?R, snd ?R)" by simp
  show ?thesis
    using balances_cover_supply[OF dec_ix.indexer_numbers_axioms _ demo_books _ R]
    by (simp add: demo_fetch del: Subscribe.simps)
qed

text \<open>
  C35: History is never rewritten.  No event and no transfer is ever removed, an event never changes,
  and of a transfer only the status changes: once, from pending to completed, canceled or rejected.
\<close>

theorem transfers_settle_once:
  assumes "indexer_numbers D dval tval add" "ix_inv tval w"
    and "run_state (Run (IndexerPGStore D add) (Fetcher_Start FE conns (indexer_decoder cfg)) fuel) w = (r, w')"
  shows "v_events (ix_view tval w) \<subseteq>\<^sub>m v_events (ix_view tval w') \<and>
    (\<forall>c t. v_transfers (ix_view tval w) c = Some t \<longrightarrow> (\<exists>t'. v_transfers (ix_view tval w') c = Some t' \<and>
       (t' = t \<or> X_Status t = StatusPending \<and>
          (\<exists>st \<in> {StatusCompleted, StatusCanceled, StatusRejected}. t' = t\<lparr>X_Status := st\<rparr>))))"
proof -
  have "history_kept (ix_view tval w) (ix_view tval w')"
    by (rule indexer_numbers.Run_keeps[OF assms(1,3,2), where I = "history_kept (ix_view tval w)"])
      (auto intro: history_trans history_batch)
  then show ?thesis unfolding history_kept_def by blast
qed

definition demo_offer :: IxTransferDao where
  "demo_offer = \<lparr>RD_ContractID = ''o1'', RD_Kind = ''offer'', RD_Status = ''canceled'', RD_FromPartyID = ''alice'',
     RD_ToPartyID = ''bob'', RD_InstrumentAdmin = ''issuer'', RD_InstrumentID = ''DEMO'', RD_Amount = ''1.0'',
     RD_ExpiresAt = None, RD_TxID = ''u1'', RD_LedgerOffset = 1, RD_CreatedAt = 10\<rparr>"

theorem transfers_settle_once_witness:
  "v_transfers (ix_view dec_text (snd (run_state (Run (IndexerPGStore dec_lib dec_numeric_add)
       (Fetcher_Start (\<lambda>_. None) [demo_conn] (indexer_decoder demo_ix_config)) 3)
       ((demo_db [Fails ''refused''])\<lparr>ix_transfers := [demo_offer]\<rparr>)))) ''o1'' = Some (fromIxTransferDao demo_offer)"
proof -
  let ?w = "(demo_db [Fails ''refused''])\<lparr>ix_transfers := [demo_offer]\<rparr>"
  let ?R = "run_state (Run (IndexerPGStore dec_lib dec_numeric_add)
       (Fetcher_Start (\<lambda>_. None) [demo_conn] (indexer_decoder demo_ix_config)) 3) ?w"
  have R: "?R = (fst ?R, snd ?R)" by simp
  have inv: "ix_inv dec_text ?w" by (simp add: ix_inv_def demo_db_def unique_rows_def)
  have row: "v_transfers (ix_view dec_text ?w) ''o1'' = Some (fromIxTransferDao demo_offer)"
    by (simp add: ix_view_def demo_offer_def)
  from transfers_settle_once[OF dec_ix.indexer_numbers_axioms inv R] row show ?thesis
    by (fastforce simp: demo_offer_def fromIxTransferDao_def StatusPending_def)
qed

text \<open>
  C36: Holder counts are exact.  For an instrument whose balances come from token events only, the
  holder count of its row is at any time the number of parties with a balance; before its first
  event there is no row and no balance.
\<close>

theorem holder_count_exact:
  assumes "indexer_numbers D dval tval add" "ix_inv tval w" "holders_ok i (ix_view tval w)"
    and "\<forall>b \<in> set (Fetcher_Start FE conns (indexer_decoder cfg) (v_offset (ix_view tval w))).
      list_all (no_holding_of i) (b_Items b)"
    and "run_state (Run (IndexerPGStore D add) (Fetcher_Start FE conns (indexer_decoder cfg)) fuel) w = (r, w')"
  shows "if v_supply (ix_view tval w') i = None then (\<forall>p. v_bal (ix_view tval w') (p, i) = 0)
    else v_holders (ix_view tval w') i = int (card {p. v_bal (ix_view tval w') (p, i) \<noteq> 0})"
proof -
  have "holders_ok i (ix_view tval w')"
    by (rule indexer_numbers.Run_keeps[OF assms(1,5,2), where I = "holders_ok i"])
      (use assms(3,4) holders_batch in blast)+
  then show ?thesis by (simp add: holders_ok_def)
qed

theorem holder_count_exact_witness:
  "v_holders (ix_view dec_text (snd (run_state (Run (IndexerPGStore dec_lib dec_numeric_add)
       (Fetcher_Start (\<lambda>_. None) [demo_conn] (indexer_decoder demo_ix_config)) 3) (demo_db [])))) (''issuer'', ''DEMO'') = 1"
proof -
  let ?R = "run_state (Run (IndexerPGStore dec_lib dec_numeric_add)
       (Fetcher_Start (\<lambda>_. None) [demo_conn] (indexer_decoder demo_ix_config)) 3) (demo_db [])"
  have "\<exists>n w'. ?R = (Inr n, w') \<and> ix_view dec_text w' = demo_view"
    by (rule dec_ix.Run_catches_up[OF demo_ledger_valid _ _ _ refl])
      (simp_all add: demo_fetch demo_reached demo_batches demo_spec del: Subscribe.simps)
  then have v: "ix_view dec_text (snd ?R) = demo_view" by auto
  have R: "?R = (fst ?R, snd ?R)" by simp
  have ok: "holders_ok (''issuer'', ''DEMO'') (ix_view dec_text (demo_db []))" by (simp add: holders_ok_def)
  from holder_count_exact[OF dec_ix.indexer_numbers_axioms _ ok _ R] show ?thesis
    by (simp add: v demo_fetch demo_view_def del: Subscribe.simps)
qed

lemma holding_added:
  assumes "spec_batch tval b v = Some v'" "b_Items b = [Item_Holding h]"
    and "\<not> H_IsArchived h" "\<not> H_Locked h" "H_Owner h \<noteq> ''''" "H_InstrumentID h \<noteq> ''''" "H_InstrumentAdmin h \<noteq> ''''"
    and "tval (H_Amount h) = Some a"
  shows "v_bal v' (holding_key h) = v_bal v (holding_key h) + a \<and> v_holdings v' (H_ContractID h) \<noteq> None \<and>
    (v_holdings v (H_ContractID h) \<noteq> None \<longrightarrow> v_holdings v' = v_holdings v)"
  using assms by (auto simp: spec_batch_def spec_holding_def spec_balance_def Let_def split: if_splits)

text \<open>
  C38: A holding is counted as often as its creation is delivered.  The row of a holding is inserted
  once, but its amount is added to the owner's balance each time: after a batch that creates a
  holding was stored twice, because the answer to the first commit was lost, the balance is too high
  by the amount.
\<close>

theorem replayed_holding_counts_twice:
  assumes "indexer_numbers D dval tval add" "ix_inv tval w" "b_Items b = [Item_Holding h]"
    and "\<not> H_IsArchived h" "\<not> H_Locked h" "H_Owner h \<noteq> ''''" "H_InstrumentID h \<noteq> ''''" "H_InstrumentAdmin h \<noteq> ''''"
    and "tval (H_Amount h) = Some a"
    and "run_state (processBatch (IndexerPGStore D add) b) w = (Inr (), w1)"
    and "run_state (processBatch (IndexerPGStore D add) b) w1 = (Inr (), w2)"
  shows "v_bal (ix_view tval w2) (holding_key h) = v_bal (ix_view tval w) (holding_key h) + 2 * a \<and>
    v_holdings (ix_view tval w2) = v_holdings (ix_view tval w1)"
proof -
  have wf: "list_all wf_item (b_Items b)" using assms(3) by simp
  have step: "v_bal (ix_view tval u') (holding_key h) = v_bal (ix_view tval u) (holding_key h) + a \<and>
      v_holdings (ix_view tval u') (H_ContractID h) \<noteq> None \<and>
      (v_holdings (ix_view tval u) (H_ContractID h) \<noteq> None \<longrightarrow> v_holdings (ix_view tval u') = v_holdings (ix_view tval u)) \<and> ix_inv tval u'"
    if run: "run_state (processBatch (IndexerPGStore D add) b) u = (Inr (), u')" and inv: "ix_inv tval u" for u u'
  proof -
    from indexer_numbers.batch_law[OF assms(1) run inv wf] have "ix_inv tval u'"
      and sb: "spec_batch tval b (ix_view tval u) = Some (ix_view tval u')" by blast+
    with holding_added[OF sb assms(3-9)] show ?thesis by blast
  qed
  from step[OF assms(10,2)] step[OF assms(11)] show ?thesis by simp
qed

definition demo_holding :: HoldingChange where
  "demo_holding = \<lparr>H_ContractID = ''h1'', H_IsArchived = False, H_LedgerOffset = 6, H_Owner = ''bob'',
     H_InstrumentAdmin = ''issuer'', H_InstrumentID = ''DEMO'', H_Amount = ''10.0'', H_Locked = False\<rparr>"

definition demo_holding_batch :: "item Batch" where
  "demo_holding_batch = \<lparr>b_Offset = 6, b_UpdateID = ''u6'', b_Items = [Item_Holding demo_holding]\<rparr>"

lemma demo_holding_spec: "v_bal v (''bob'', (''issuer'', ''DEMO'')) \<ge> 0 \<Longrightarrow> spec_batch dec_text demo_holding_batch v \<noteq> None"
  by (simp add: spec_batch_def demo_holding_batch_def demo_holding_def spec_holding_def demo_amount spec_balance_def
      holding_key_def Let_def)

lemma demo_holding_stored:
  assumes "pg_faults w = []" "ix_inv dec_text w" "v_bal (ix_view dec_text w) (''bob'', (''issuer'', ''DEMO'')) \<ge> 0"
  obtains w1 where "run_state (processBatch (IndexerPGStore dec_lib dec_numeric_add) demo_holding_batch) w = (Inr (), w1)"
    "pg_faults w1 = []" "ix_inv dec_text w1"
proof -
  obtain v where v: "spec_batch dec_text demo_holding_batch (ix_view dec_text w) = Some v"
    using demo_holding_spec[OF assms(3)] by blast
  from dec_ix.live.processBatch_calm[OF assms(1,2) _ v] that show thesis by (auto simp: demo_holding_batch_def)
qed

theorem replayed_holding_counts_twice_witness:
  "\<exists>w1 w2. run_state (processBatch (IndexerPGStore dec_lib dec_numeric_add) demo_holding_batch) (demo_db []) = (Inr (), w1) \<and>
     run_state (processBatch (IndexerPGStore dec_lib dec_numeric_add) demo_holding_batch) w1 = (Inr (), w2) \<and>
     v_bal (ix_view dec_text w2) (''bob'', (''issuer'', ''DEMO'')) = 20"
proof -
  let ?k = "(''bob'', (''issuer'', ''DEMO''))"
  obtain w1 where w1: "run_state (processBatch (IndexerPGStore dec_lib dec_numeric_add) demo_holding_batch) (demo_db []) = (Inr (), w1)"
    "pg_faults w1 = []" "ix_inv dec_text w1" by (rule demo_holding_stored[of "demo_db []"]) simp_all
  have h: "b_Items demo_holding_batch = [Item_Holding demo_holding]" "\<not> H_IsArchived demo_holding" "\<not> H_Locked demo_holding"
    "H_Owner demo_holding \<noteq> ''''" "H_InstrumentID demo_holding \<noteq> ''''" "H_InstrumentAdmin demo_holding \<noteq> ''''"
    "dec_text (H_Amount demo_holding) = Some 10" "holding_key demo_holding = ?k"
    by (simp_all add: demo_holding_batch_def demo_holding_def demo_amount holding_key_def)
  have "list_all wf_item (b_Items demo_holding_batch)" using h(1) by simp
  with dec_ix.batch_law[OF w1(1)] have "spec_batch dec_text demo_holding_batch (ix_view dec_text (demo_db [])) = Some (ix_view dec_text w1)"
    by simp
  from holding_added[OF this h(1-7)] h(8) have "v_bal (ix_view dec_text w1) ?k \<ge> 0" by simp
  then obtain w2 where w2: "run_state (processBatch (IndexerPGStore dec_lib dec_numeric_add) demo_holding_batch) w1 = (Inr (), w2)"
    by (rule demo_holding_stored[OF w1(2,3)])
  from replayed_holding_counts_twice[OF dec_ix.indexer_numbers_axioms _ h(1-7) w1(1) w2] h(8) w1(1) w2
  show ?thesis by auto
qed

end
