(* ===== verification/Canton_Token.thy ===== *)
theory Canton_Token
  imports Canton_Bridge Encodings
begin

text \<open>
  \<open>pkg/cantonsdk/token\<close>: the CIP-56 token client.  The ledger, the identity client and the key
  resolver are the record \<open>TokenLedger\<close> of operations over a world; the HTTP client of the external
  token registry, with the parsing of its answers, is the operation \<open>TK_Registry\<close> (and
  \<open>TK_ChoiceContext\<close> for accept and withdraw), which gives the factory, the choice context and the
  disclosed contracts.  Raw JSON of an \<open>AnyValue\<close> is kept as far as its tag can decode it.
\<close>

section \<open>Types\<close>

definition ErrInsufficientBalance :: goerr where "ErrInsufficientBalance = Sentinel ''insufficient balance''"
definition ErrTransferFactoryNotFound :: goerr where
  "ErrTransferFactoryNotFound = Sentinel ''no active CIP56TransferFactory found''"

record Holding =
  Ho_ContractID :: string
  Ho_Issuer :: string
  Ho_Owner :: string
  Ho_Amount :: string
  Ho_Symbol :: string
  Ho_InstrumentAdmin :: string
  Ho_InstrumentID :: string
  Ho_Locked :: bool
  Ho_Metadata :: "string \<rightharpoonup> string"

record MintRequest =
  Mi_RecipientParty :: string
  Mi_Amount :: string
  Mi_TokenSymbol :: string
  Mi_ConfigCID :: string
  Mi_EventMeta :: "(string \<times> string) list"

record BurnRequest =
  Bu_HoldingCID :: string
  Bu_Amount :: string
  Bu_TokenSymbol :: string
  Bu_EventMeta :: "(string \<times> string) list"

definition mint_validate :: "MintRequest \<Rightarrow> goerr + unit" where
  "mint_validate m =
     (if Mi_RecipientParty m = '''' then Inl (Err ''recipient_party is required'')
      else if Mi_Amount m = '''' then Inl (Err ''amount is required'')
      else if Mi_TokenSymbol m = '''' then Inl (Err ''token_symbol is required'')
      else Inr ())"

definition burn_validate :: "BurnRequest \<Rightarrow> goerr + unit" where
  "burn_validate b =
     (if Bu_HoldingCID b = '''' then Inl (Err ''holding_cid is required'')
      else if Bu_Amount b = '''' then Inl (Err ''amount is required'')
      else if Bu_TokenSymbol b = '''' then Inl (Err ''token_symbol is required'')
      else Inr ())"

record PrepareTransferRequest =
  PR_FromPartyID :: string
  PR_ToPartyID :: string
  PR_Amount :: string
  PR_TokenSymbol :: string
  PR_Validity :: int

definition prepare_validate :: "PrepareTransferRequest \<Rightarrow> goerr + unit" where
  "prepare_validate r =
     (if PR_FromPartyID r = '''' \<or> PR_ToPartyID r = '''' then Inl (Err ''from/to party is required'')
      else if PR_Amount r = '''' then Inl (Err ''amount is required'')
      else if PR_TokenSymbol r = '''' then Inl (Err ''token symbol is required'')
      else if PR_Validity r \<le> 0 then Inl (Err ''transfer validity must be positive'')
      else Inr ())"

text \<open>\<open>PreparedTransaction\<close> is an opaque message of the ledger.\<close>

record PreparedTransfer =
  PT_TransferID :: string
  PT_TransactionHash :: "octet list"
  PT_PreparedTransaction :: "octet list"
  PT_HashingSchemeVersion :: int
  PT_PartyID :: string
  PT_ExpiresAt :: time

record ExecuteTransferRequest =
  XR_PreparedTransfer :: "PreparedTransfer option"
  XR_Signature :: "octet list"
  XR_SignedBy :: string

definition execute_validate :: "ExecuteTransferRequest \<Rightarrow> goerr + PreparedTransfer" where
  "execute_validate r =
     (case XR_PreparedTransfer r of
        None \<Rightarrow> Inl (Err ''prepared transfer is required'')
      | Some pt \<Rightarrow>
          if length (XR_Signature r) = 0 then Inl (Err ''signature is required'')
          else if XR_SignedBy r = '''' then Inl (Err ''signed by is required'')
          else Inr pt)"

record TokenConfig =
  tc_DomainID :: string
  tc_IssuerParty :: string
  tc_UserID :: string
  tc_CIP56PackageID :: string
  tc_SpliceTransferPackageID :: string
  tc_SpliceHoldingPackageID :: string
  tc_ExternalTokens :: "string \<rightharpoonup> string"

definition token_config_validate :: "TokenConfig \<Rightarrow> goerr + unit" where
  "token_config_validate c =
     (if tc_DomainID c = '''' then Inl (Err ''domain_id is required'')
      else if tc_IssuerParty c = '''' then Inl (Err ''issuer_party is required'')
      else if tc_UserID c = '''' then Inl (Err ''user_id is required'')
      else if tc_CIP56PackageID c = '''' then Inl (Err ''cip56_package_id is required'')
      else if tc_SpliceTransferPackageID c = '''' then Inl (Err ''splice_transfer_package_id is required'')
      else if tc_SpliceHoldingPackageID c = '''' then Inl (Err ''splice_holding_package_id is required'')
      else Inr ())"

section \<open>Any values\<close>

datatype AnyValue = AnyValue (av_Tag: string) (av_Value: RawJson)
and RawJson = J_Null | J_String string | J_Bool bool | J_Number string | J_List "AnyValue list"
  | J_Map "(string \<times> AnyValue) list" | J_Other

definition json_error :: "string \<Rightarrow> goerr" where
  "json_error tag = Err (tag @ '': json: cannot unmarshal'')"

text \<open>\<open>json.Unmarshal\<close> into a string, a bool and a \<open>json.Number\<close>; null leaves the zero value.\<close>

fun json_string :: "RawJson \<Rightarrow> string option" where
  "json_string (J_String s) = Some s"
| "json_string J_Null = Some ''''"
| "json_string _ = None"

fun json_bool :: "RawJson \<Rightarrow> bool option" where
  "json_bool (J_Bool b) = Some b"
| "json_bool J_Null = Some False"
| "json_bool _ = None"

fun json_number :: "RawJson \<Rightarrow> string option" where
  "json_number (J_Number n) = Some n"
| "json_number J_Null = Some ''''"
| "json_number _ = None"

definition with_string :: "string \<Rightarrow> RawJson \<Rightarrow> (string \<Rightarrow> Value option) \<Rightarrow> goerr + Value option" where
  "with_string tag v f = (case json_string v of None \<Rightarrow> Inl (json_error tag) | Some s \<Rightarrow> Inr (f s))"

definition encode_int :: "RawJson \<Rightarrow> goerr + Value option" where
  "encode_int v =
     (case json_number v of
        None \<Rightarrow> Inl (json_error ''AV_Int'')
      | Some n \<Rightarrow> (case ParseInt n of Inl e \<Rightarrow> Inl (Errorf ''AV_Int'' e) | Inr i \<Rightarrow> Inr (Int64Value i)))"

fun encodeAnyValue :: "AnyValue \<Rightarrow> goerr + Value option"
and encodeAnyValueList :: "AnyValue list \<Rightarrow> goerr + Value option list"
and encodeAnyValueMap :: "(string \<times> AnyValue) list \<Rightarrow> goerr + Value option list" where
  "encodeAnyValue (AnyValue tag v) =
     (case (if tag = ''AV_ContractId'' then with_string tag v ContractIDValue
            else if tag = ''AV_Text'' then with_string tag v TextValue
            else if tag = ''AV_Party'' then with_string tag v PartyValue
            else if tag = ''AV_Bool'' then
              (case json_bool v of None \<Rightarrow> Inl (json_error tag) | Some b \<Rightarrow> Inr (Some (V_Bool b)))
            else if tag = ''AV_Int'' then encode_int v
            else if tag = ''AV_Decimal'' then with_string tag v NumericValue
            else if tag = ''AV_List'' then
              (case v of
                 J_List items \<Rightarrow> (case encodeAnyValueList items of Inl e \<Rightarrow> Inl e | Inr elems \<Rightarrow> Inr (ListValue elems))
               | J_Null \<Rightarrow> Inr (ListValue [])
               | _ \<Rightarrow> Inl (json_error tag))
            else if tag = ''AV_Map'' then
              (case v of
                 J_Map items \<Rightarrow> (case encodeAnyValueMap items of Inl e \<Rightarrow> Inl e | Inr elems \<Rightarrow> Inr (ListValue elems))
               | J_Null \<Rightarrow> Inr (ListValue [])
               | _ \<Rightarrow> Inl (json_error tag))
            else Inl (Err (''unsupported AnyValue tag '' @ tag))) of
        Inl e \<Rightarrow> Inl e
      | Inr inner \<Rightarrow> Inr (Some (V_Variant tag inner)))"
| "encodeAnyValueList [] = Inr []"
| "encodeAnyValueList (it # items) =
     (case encodeAnyValue it of
        Inl e \<Rightarrow> Inl e
      | Inr v \<Rightarrow> (case encodeAnyValueList items of Inl e \<Rightarrow> Inl e | Inr vs \<Rightarrow> Inr (v # vs)))"
| "encodeAnyValueMap [] = Inr []"
| "encodeAnyValueMap ((k, it) # items) =
     (case encodeAnyValue it of
        Inl e \<Rightarrow> Inl e
      | Inr v \<Rightarrow>
          (case encodeAnyValueMap items of
             Inl e \<Rightarrow> Inl e
           | Inr vs \<Rightarrow> Inr (Some (V_Record (Some [(''_1'', TextValue k), (''_2'', v)])) # vs)))"

type_synonym choice_context = "(string \<times> AnyValue) list"

text \<open>The entries of the map in the order of the sorted keys; the first error ends the loop.\<close>

fun encode_entries :: "choice_context \<Rightarrow> string list \<Rightarrow> goerr + (string \<times> Value option) list" where
  "encode_entries ctx [] = Inr []"
| "encode_entries ctx (k # ks) =
     (case map_of ctx k of
        None \<Rightarrow> encode_entries ctx ks
      | Some av \<Rightarrow>
          (case encodeAnyValue av of
             Inl e \<Rightarrow> Inl (Errorf (''encode key '' @ k) e)
           | Inr v \<Rightarrow> (case encode_entries ctx ks of Inl e \<Rightarrow> Inl e | Inr es \<Rightarrow> Inr ((k, v) # es))))"

definition encodeChoiceContextRecord :: "choice_context \<Rightarrow> goerr + Value option" where
  "encodeChoiceContextRecord ctx =
     (case encode_entries ctx (sort (map fst ctx)) of
        Inl e \<Rightarrow> Inl e
      | Inr entries \<Rightarrow> Inr (Some (V_Record (Some [(''values'', Some (V_TextMap (Some entries)))]))))"

section \<open>The clients the token client calls\<close>

record DisclosedContract =
  dc_ContractId :: string
  dc_CreatedEventBlob :: "octet list"
  dc_SynchronizerId :: string
  dc_TemplateId :: "Identifier option"

record TokenCommands = Commands +
  cmd_ReadAs :: "string list"
  cmd_DisclosedContracts :: "DisclosedContract list"

record PrepareSubmissionResponse =
  PS_PreparedTransactionHash :: "octet list"
  PS_PreparedTransaction :: "octet list"
  PS_HashingSchemeVersion :: int

record ExecuteSubmissionRequest =
  EX_PreparedTransaction :: "octet list"
  EX_Party :: string
  EX_Signature :: "octet list"
  EX_SignedBy :: string
  EX_SubmissionId :: string
  EX_UserId :: string
  EX_HashingSchemeVersion :: int

record transferFactoryRequest =
  tf_CommandID :: string
  tf_FromPartyID :: string
  tf_ToPartyID :: string
  tf_Amount :: string
  tf_InstrumentAdmin :: string
  tf_InstrumentID :: string
  tf_InputHoldingCIDs :: "string list"
  tf_FactoryCID :: string
  tf_ChoiceContext :: "(string \<times> string) list"
  tf_AnyValueContext :: choice_context
  tf_DisclosedContracts :: "DisclosedContract list"
  tf_IsExternal :: bool
  tf_RequestedAt :: time
  tf_ExecuteBefore :: time
  tf_Validity :: int

text \<open>The registry's answer with the results of the three conversions of its raw parts.\<close>

record RegistryAnswer =
  RA_FactoryID :: string
  RA_AnyValueContext :: "goerr + choice_context"
  RA_ChoiceContext :: "goerr + (string \<times> string) list"
  RA_DisclosedContracts :: "goerr + DisclosedContract list"

record Signer =
  SignDER :: "octet list \<Rightarrow> goerr + octet list"
  SignerFingerprint :: "goerr + string"

record 'w TokenLedger =
  TK_GetLedgerEnd :: "('w, goerr + int) state"
  TK_ByTemplate :: "int \<Rightarrow> string list \<Rightarrow> Identifier \<Rightarrow> ('w, goerr + CreatedEvent list) state"
  TK_ByInterface :: "int \<Rightarrow> string list \<Rightarrow> Identifier \<Rightarrow> ('w, goerr + CreatedEvent list) state"
  TK_ActiveContracts :: "int \<Rightarrow> string \<Rightarrow> Identifier \<Rightarrow> ('w, goerr + CreatedEvent list \<times> goerr option) state"
  TK_SubmitAndWaitForTransaction :: "Commands \<Rightarrow> ('w, goerr + LapiTransaction option) state"
  TK_SubmitAndWait :: "Commands \<Rightarrow> ('w, goerr + unit) state"
  TK_PrepareSubmission :: "TokenCommands \<Rightarrow> ('w, goerr + PrepareSubmissionResponse) state"
  TK_ExecuteSubmissionAndWait :: "ExecuteSubmissionRequest \<Rightarrow> ('w, goerr + unit) state"
  TK_GetFingerprintMapping :: "string \<Rightarrow> ('w, goerr + string) state"
  TK_KeyResolver :: "(string \<Rightarrow> goerr + Signer) option"
  TK_Registry :: "(string \<Rightarrow> transferFactoryRequest \<Rightarrow> ('w, goerr + RegistryAnswer) state) option"
  TK_ChoiceContext ::
    "(string \<Rightarrow> string \<Rightarrow> string \<Rightarrow> string \<Rightarrow> ('w, goerr + choice_context \<times> (goerr + DisclosedContract list)) state) option"
  TK_NewUUID :: "('w, string) state"
  TK_Now :: "('w, time) state"

section \<open>Holdings\<close>

definition decodeHolding :: "CreatedEvent \<Rightarrow> Holding" where
  "decodeHolding ce =
     (let fields = RecordToMap (ce_CreateArguments ce);
          (admin, i, issuer, symbol, meta) =
            (if mget fields ''instrumentId'' \<noteq> None then
               let (a, i) = DecodeInstrumentId (mget fields ''instrumentId'');
                   meta = DecodeMetadata (mget fields ''meta'')
               in (a, i, Party (mget fields ''issuer''),
                   (case meta MetaKeySymbol of None \<Rightarrow> '''' | Some s \<Rightarrow> s), meta)
             else if mget fields ''instrument'' \<noteq> None then
               let i = NestedTextField (mget fields ''instrument'') ''id''
               in (NestedPartyField (mget fields ''instrument'') ''source'', i,
                   Party (mget fields ''registrar''), i, Map.empty)
             else ('''', '''', '''', '''', Map.empty))
      in \<lparr>Ho_ContractID = ce_ContractId ce, Ho_Issuer = issuer, Ho_Owner = Party (mget fields ''owner''),
          Ho_Amount = Numeric (mget fields ''amount''), Ho_Symbol = symbol, Ho_InstrumentAdmin = admin,
          Ho_InstrumentID = i, Ho_Locked = (\<not> IsNone (mget fields ''lock'')), Ho_Metadata = meta\<rparr>)"

definition holding_interface :: "TokenConfig \<Rightarrow> Identifier" where
  "holding_interface cfg =
     \<lparr>id_PackageId = tc_SpliceHoldingPackageID cfg, id_ModuleName = ''Splice.Api.Token.HoldingV1'', id_EntityName = ''Holding''\<rparr>"

definition cip56_template :: "TokenConfig \<Rightarrow> string \<Rightarrow> string \<Rightarrow> Identifier" where
  "cip56_template cfg modname entity =
     \<lparr>id_PackageId = tc_CIP56PackageID cfg, id_ModuleName = modname, id_EntityName = entity\<rparr>"

definition GetHoldingsByParty ::
  "TokenConfig \<Rightarrow> 'w TokenLedger \<Rightarrow> string \<Rightarrow> string \<Rightarrow> ('w, goerr + Holding list) state" where
  "GetHoldingsByParty cfg L ownerParty instrumentID =
     (if ownerParty = '''' then ret (Inl (Err ''owner party is required''))
      else do {
        en \<leftarrow> TK_GetLedgerEnd L;
        case en of
          Inl e \<Rightarrow> ret (Inl e)
        | Inr end' \<Rightarrow>
            if end' = 0 then ret (Inr [])
            else do {
              evs \<leftarrow> TK_ByInterface L end' [ownerParty] (holding_interface cfg);
              (case evs of
                 Inl e \<Rightarrow> ret (Inl (Errorf ''query holdings by party'' e))
               | Inr events \<Rightarrow> ret (Inr (filter (\<lambda>h. Ho_Owner h = ownerParty \<and>
                   (instrumentID = '''' \<or> Ho_InstrumentID h = instrumentID)) (map decodeHolding events)))) } })"

definition GetHoldings ::
  "TokenConfig \<Rightarrow> 'w TokenLedger \<Rightarrow> string \<Rightarrow> string \<Rightarrow> ('w, goerr + Holding list) state" where
  "GetHoldings cfg L ownerParty tokenSymbol =
     (if ownerParty = '''' then ret (Inl (Err ''owner party is required''))
      else if tokenSymbol = '''' then ret (Inl (Err ''token symbol is required''))
      else GetHoldingsByParty cfg L ownerParty tokenSymbol)"

definition GetAllHoldings :: "TokenConfig \<Rightarrow> 'w TokenLedger \<Rightarrow> ('w, goerr + Holding list) state" where
  "GetAllHoldings cfg L = do {
     en \<leftarrow> TK_GetLedgerEnd L;
     case en of
       Inl e \<Rightarrow> ret (Inl e)
     | Inr end' \<Rightarrow>
         if end' = 0 then ret (Inr [])
         else do {
           evs \<leftarrow> TK_ByTemplate L end' [tc_IssuerParty cfg] (cip56_template cfg ''CIP56.Token'' ''CIP56Holding'');
           (case evs of
              Inl e \<Rightarrow> ret (Inl (Errorf ''query holdings'' e))
            | Inr events \<Rightarrow> ret (Inr (map decodeHolding events))) } }"

definition addDecimalStrings :: "'d DecimalLib \<Rightarrow> string \<Rightarrow> string \<Rightarrow> goerr + string" where
  "addDecimalStrings D a b =
     (case NewFromString D a of
        Inl e \<Rightarrow> Inl (Errorf ''parse decimal'' e)
      | Inr da \<Rightarrow>
          (case NewFromString D b of
             Inl e \<Rightarrow> Inl (Errorf ''parse decimal'' e)
           | Inr db \<Rightarrow> Inr (D_String D (D_Add D da db))))"

definition compareDecimalStrings :: "'d DecimalLib \<Rightarrow> string \<Rightarrow> string \<Rightarrow> goerr + int" where
  "compareDecimalStrings D a b =
     (case NewFromString D a of
        Inl e \<Rightarrow> Inl (Errorf ''parse decimal'' e)
      | Inr da \<Rightarrow>
          (case NewFromString D b of
             Inl e \<Rightarrow> Inl (Errorf ''parse decimal'' e)
           | Inr db \<Rightarrow> Inr (D_Cmp D da db)))"

text \<open>The loop that adds up amounts, starting at \<open>tot\<close>.\<close>

fun sum_amounts :: "'d DecimalLib \<Rightarrow> string \<Rightarrow> string list \<Rightarrow> goerr + string" where
  "sum_amounts D tot [] = Inr tot"
| "sum_amounts D tot (a # as) =
     (case addDecimalStrings D tot a of Inl e \<Rightarrow> Inl e | Inr next \<Rightarrow> sum_amounts D next as)"

definition GetBalanceByPartyID ::
  "'d DecimalLib \<Rightarrow> TokenConfig \<Rightarrow> 'w TokenLedger \<Rightarrow> string \<Rightarrow> string \<Rightarrow> ('w, goerr + string) state" where
  "GetBalanceByPartyID D cfg L partyID tokenSymbol = do {
     hs \<leftarrow> GetHoldings cfg L partyID tokenSymbol;
     case hs of
       Inl e \<Rightarrow> ret (Inl e)
     | Inr holdings \<Rightarrow> ret (sum_amounts D ''0'' (map Ho_Amount holdings)) }"

definition GetBalanceByFingerprint ::
  "'d DecimalLib \<Rightarrow> TokenConfig \<Rightarrow> 'w TokenLedger \<Rightarrow> string \<Rightarrow> string \<Rightarrow> ('w, goerr + string) state" where
  "GetBalanceByFingerprint D cfg L fingerprint tokenSymbol = do {
     m \<leftarrow> TK_GetFingerprintMapping L fingerprint;
     case m of
       Inl e \<Rightarrow> ret (Inl e)
     | Inr userParty \<Rightarrow> GetBalanceByPartyID D cfg L userParty tokenSymbol }"

definition GetTotalSupply ::
  "'d DecimalLib \<Rightarrow> TokenConfig \<Rightarrow> 'w TokenLedger \<Rightarrow> string \<Rightarrow> ('w, goerr + string) state" where
  "GetTotalSupply D cfg L tokenSymbol =
     (if tokenSymbol = '''' then ret (Inl (Err ''token symbol is required''))
      else do {
        en \<leftarrow> TK_GetLedgerEnd L;
        case en of
          Inl e \<Rightarrow> ret (Inl e)
        | Inr end' \<Rightarrow>
            if end' = 0 then ret (Inr ''0'')
            else do {
              evs \<leftarrow> TK_ByTemplate L end' [tc_IssuerParty cfg] (cip56_template cfg ''CIP56.Token'' ''CIP56Holding'');
              (case evs of
                 Inl e \<Rightarrow> ret (Inl (Errorf ''query holdings'' e))
               | Inr events \<Rightarrow> ret (sum_amounts D ''0'' (List.map_filter (\<lambda>ce.
                   let fields = RecordToMap (ce_CreateArguments ce)
                   in if MetaSymbol (mget fields ''meta'') \<noteq> tokenSymbol then None
                      else Some (Numeric (mget fields ''amount''))) events))) } })"

section \<open>Minting and burning\<close>

definition GetTokenConfigCID :: "TokenConfig \<Rightarrow> 'w TokenLedger \<Rightarrow> string \<Rightarrow> ('w, goerr + string) state" where
  "GetTokenConfigCID cfg L tokenSymbol = do {
     en \<leftarrow> TK_GetLedgerEnd L;
     case en of
       Inl e \<Rightarrow> ret (Inl e)
     | Inr end' \<Rightarrow>
         if end' = 0 then ret (Inl (Err ''ledger is empty, no contracts exist''))
         else do {
           evs \<leftarrow> TK_ByTemplate L end' [tc_IssuerParty cfg] (cip56_template cfg ''CIP56.Config'' ''TokenConfig'');
           (case evs of
              Inl e \<Rightarrow> ret (Inl (Errorf ''error getting contracts'' e))
            | Inr events \<Rightarrow>
                (case find (\<lambda>ce. MetaSymbol (mget (RecordToMap (ce_CreateArguments ce)) ''meta'') = tokenSymbol) events of
                   Some ce \<Rightarrow> ret (Inr (ce_ContractId ce))
                 | None \<Rightarrow> ret (Inl (Err (''no active TokenConfig found for symbol '' @ tokenSymbol))))) } }"

definition encodeIssuerMintArgs :: "time \<Rightarrow> MintRequest \<Rightarrow> Record" where
  "encodeIssuerMintArgs now req =
     [(''recipient'', PartyValue (Mi_RecipientParty req)), (''amount'', NumericValue (Mi_Amount req)),
      (''eventTime'', TimestampValue now), (''eventMeta'', EncodeOptionalMetadata (Mi_EventMeta req))]"

definition encodeIssuerBurnArgs :: "time \<Rightarrow> BurnRequest \<Rightarrow> Record" where
  "encodeIssuerBurnArgs now req =
     [(''holdingCid'', ContractIDValue (Bu_HoldingCID req)), (''amount'', NumericValue (Bu_Amount req)),
      (''eventTime'', TimestampValue now), (''eventMeta'', EncodeOptionalMetadata (Bu_EventMeta req))]"

definition issuer_commands :: "TokenConfig \<Rightarrow> string \<Rightarrow> string \<Rightarrow> string \<Rightarrow> Record \<Rightarrow> Commands" where
  "issuer_commands cfg uuid cid choice arg =
     \<lparr>cmd_SynchronizerId = tc_DomainID cfg, cmd_CommandId = uuid, cmd_UserId = tc_UserID cfg,
      cmd_ActAs = [tc_IssuerParty cfg],
      cmd_Commands = [\<lparr>ex_TemplateId = cip56_template cfg ''CIP56.Config'' ''TokenConfig'', ex_ContractId = cid,
        ex_Choice = choice, ex_ChoiceArgument = arg\<rparr>]\<rparr>"

definition Mint :: "TokenConfig \<Rightarrow> 'w TokenLedger \<Rightarrow> MintRequest \<Rightarrow> ('w, goerr + string) state" where
  "Mint cfg L req =
     (case mint_validate req of
        Inl e \<Rightarrow> ret (Inl (Errorf ''invalid request'' e))
      | Inr _ \<Rightarrow> do {
          c \<leftarrow> (if Mi_ConfigCID req = '''' then GetTokenConfigCID cfg L (Mi_TokenSymbol req) else ret (Inr (Mi_ConfigCID req)));
          case c of
            Inl e \<Rightarrow> ret (Inl e)
          | Inr cid \<Rightarrow> do {
              now \<leftarrow> TK_Now L;
              uuid \<leftarrow> TK_NewUUID L;
              resp \<leftarrow> TK_SubmitAndWaitForTransaction L (issuer_commands cfg uuid cid ''IssuerMint'' (encodeIssuerMintArgs now req));
              (case resp of
                 Inl e \<Rightarrow> ret (Inl (Errorf ''mint tokens'' e))
               | Inr None \<Rightarrow> ret (Inl (Err ''mint tokens: missing transaction in response''))
               | Inr (Some tx) \<Rightarrow>
                   (case find (is_template ''CIP56.Token'' ''CIP56Holding'') (List.map_filter created_with_template (tx_Events tx)) of
                      Some (created, _) \<Rightarrow> ret (Inr (ce_ContractId created))
                    | None \<Rightarrow> ret (Inl (Err ''CIP56Holding contract not found in mint response'')))) } })"

definition Burn :: "TokenConfig \<Rightarrow> 'w TokenLedger \<Rightarrow> BurnRequest \<Rightarrow> ('w, goerr + unit) state" where
  "Burn cfg L req =
     (case burn_validate req of
        Inl e \<Rightarrow> ret (Inl (Errorf ''invalid request'' e))
      | Inr _ \<Rightarrow> do {
          c \<leftarrow> GetTokenConfigCID cfg L (Bu_TokenSymbol req);
          case c of
            Inl e \<Rightarrow> ret (Inl e)
          | Inr configCID \<Rightarrow> do {
              now \<leftarrow> TK_Now L;
              uuid \<leftarrow> TK_NewUUID L;
              r \<leftarrow> TK_SubmitAndWait L (issuer_commands cfg uuid configCID ''IssuerBurn'' (encodeIssuerBurnArgs now req));
              (case r of
                 Inl e \<Rightarrow> ret (Inl (Errorf ''burn tokens'' e))
               | Inr _ \<Rightarrow> ret (Inr ())) } })"

section \<open>Selecting holdings\<close>

record selectedHoldings =
  sh_CIDs :: "string list"
  sh_InstrumentAdmin :: string
  sh_InstrumentID :: string

fun select_loop ::
  "'d DecimalLib \<Rightarrow> string \<Rightarrow> selectedHoldings \<Rightarrow> string \<Rightarrow> Holding list \<Rightarrow> goerr + selectedHoldings" where
  "select_loop D required result tot [] =
     Inl (Wrap '''' ErrInsufficientBalance ('': total unlocked balance '' @ tot @ '', need '' @ required))"
| "select_loop D required result tot (h # hs) =
     (if Ho_Locked h then select_loop D required result tot hs
      else if sh_CIDs result \<noteq> [] \<and>
              (Ho_InstrumentAdmin h \<noteq> sh_InstrumentAdmin result \<or> Ho_InstrumentID h \<noteq> sh_InstrumentID result)
      then select_loop D required result tot hs
      else
        let result' = (if sh_CIDs result = []
                       then \<lparr>sh_CIDs = [Ho_ContractID h], sh_InstrumentAdmin = Ho_InstrumentAdmin h, sh_InstrumentID = Ho_InstrumentID h\<rparr>
                       else result\<lparr>sh_CIDs := sh_CIDs result @ [Ho_ContractID h]\<rparr>)
        in case addDecimalStrings D tot (Ho_Amount h) of
             Inl e \<Rightarrow> Inl e
           | Inr next \<Rightarrow>
               (case compareDecimalStrings D next required of
                  Inl e \<Rightarrow> Inl e
                | Inr cmp \<Rightarrow> if cmp \<ge> 0 then Inr result' else select_loop D required result' next hs))"

definition selectHoldingsForTransfer :: "'d DecimalLib \<Rightarrow> Holding list \<Rightarrow> string \<Rightarrow> goerr + selectedHoldings" where
  "selectHoldingsForTransfer D holdings requiredAmount =
     (if holdings = [] then Inl (Wrap '''' ErrInsufficientBalance '': no holdings found'')
      else select_loop D requiredAmount \<lparr>sh_CIDs = [], sh_InstrumentAdmin = '''', sh_InstrumentID = ''''\<rparr> ''0'' holdings)"

section \<open>Transfer factories\<close>

definition queryFactoryContracts ::
  "TokenConfig \<Rightarrow> 'w TokenLedger \<Rightarrow> Identifier \<Rightarrow> string \<Rightarrow> ('w, goerr + CreatedEvent list) state" where
  "queryFactoryContracts cfg L ident label = do {
     en \<leftarrow> TK_GetLedgerEnd L;
     case en of
       Inl e \<Rightarrow> ret (Inl e)
     | Inr end' \<Rightarrow>
         if end' = 0 then ret (Inl (Err ''ledger is empty, no contracts exist''))
         else do {
           s \<leftarrow> TK_ActiveContracts L end' (tc_IssuerParty cfg) ident;
           (case s of
              Inl e \<Rightarrow> ret (Inl (Errorf (''query '' @ label) e))
            | Inr (events, Some e) \<Rightarrow> ret (Inl (Errorf (''receive '' @ label @ '' contract'') e))
            | Inr (events, None) \<Rightarrow>
                if events = [] then ret (Inl ErrTransferFactoryNotFound) else ret (Inr events)) } }"

definition GetTransferFactory :: "TokenConfig \<Rightarrow> 'w TokenLedger \<Rightarrow> ('w, goerr + string) state" where
  "GetTransferFactory cfg L = do {
     evs \<leftarrow> queryFactoryContracts cfg L (cip56_template cfg ''CIP56.TransferFactory'' ''CIP56TransferFactory'') ''CIP56TransferFactory'';
     case evs of Inl e \<Rightarrow> ret (Inl e) | Inr events \<Rightarrow> ret (Inr (ce_ContractId (hd events))) }"

definition splice_transfer :: "TokenConfig \<Rightarrow> string \<Rightarrow> Identifier" where
  "splice_transfer cfg entity =
     \<lparr>id_PackageId = tc_SpliceTransferPackageID cfg, id_ModuleName = ''Splice.Api.Token.TransferInstructionV1'', id_EntityName = entity\<rparr>"

definition GetAllocationFactory :: "TokenConfig \<Rightarrow> 'w TokenLedger \<Rightarrow> ('w, goerr + string) state" where
  "GetAllocationFactory cfg L = do {
     evs \<leftarrow> queryFactoryContracts cfg L (splice_transfer cfg ''TransferFactory'') ''TransferFactory interface'';
     case evs of Inl e \<Rightarrow> ret (Inl e) | Inr events \<Rightarrow> ret (Inr (ce_ContractId (hd events))) }"

definition getTransferFactoryCID :: "TokenConfig \<Rightarrow> 'w TokenLedger \<Rightarrow> ('w, goerr + string) state" where
  "getTransferFactoryCID cfg L = do {
     info \<leftarrow> GetTransferFactory cfg L;
     case info of
       Inr cid \<Rightarrow> ret (Inr cid)
     | Inl e \<Rightarrow> if \<not> errors_Is e ErrTransferFactoryNotFound then ret (Inl e) else GetAllocationFactory cfg L }"

text \<open>\<open>requestedAt\<close> is five seconds in the past; the ledger's clock may lag.\<close>

definition resolveTransferFactory ::
  "TokenConfig \<Rightarrow> 'w TokenLedger \<Rightarrow> transferFactoryRequest \<Rightarrow> ('w, goerr + transferFactoryRequest) state" where
  "resolveTransferFactory cfg L req0 = do {
     now \<leftarrow> TK_Now L;
     let requestedAt = now - 5 * 10 ^ 9;
     let req = req0\<lparr>tf_RequestedAt := requestedAt, tf_ExecuteBefore := requestedAt + tf_Validity req0\<rparr>;
     if tf_InstrumentAdmin req = tc_IssuerParty cfg then do {
       c \<leftarrow> getTransferFactoryCID cfg L;
       case c of
         Inl e \<Rightarrow> ret (Inl e)
       | Inr cid \<Rightarrow> ret (Inr (req\<lparr>tf_FactoryCID := cid\<rparr>)) }
     else
       case TK_Registry L of
         None \<Rightarrow> ret (Inl (Err ''no registry client configured for external token transfers''))
       | Some registry \<Rightarrow>
           (case tc_ExternalTokens cfg (tf_InstrumentAdmin req) of
              None \<Rightarrow> ret (Inl (Err (''unsupported external token issuer: '' @ tf_InstrumentAdmin req)))
            | Some url \<Rightarrow> do {
                r \<leftarrow> registry url req;
                case r of
                  Inl e \<Rightarrow> ret (Inl (Errorf (''registry lookup for '' @ tf_InstrumentAdmin req) e))
                | Inr a \<Rightarrow>
                    (case RA_AnyValueContext a of
                       Inl e \<Rightarrow> ret (Inl (Errorf ''convert anyvalue choice context'' e))
                     | Inr anyCtx \<Rightarrow>
                         (case (if anyCtx \<noteq> [] then Inr [] else RA_ChoiceContext a) of
                            Inl e \<Rightarrow> ret (Inl (Errorf ''convert choice context'' e))
                          | Inr textCtx \<Rightarrow>
                              (case RA_DisclosedContracts a of
                                 Inl e \<Rightarrow> ret (Inl (Errorf ''convert disclosed contracts'' e))
                               | Inr disclosed \<Rightarrow> ret (Inr (req\<lparr>tf_FactoryCID := RA_FactoryID a, tf_IsExternal := True,
                                   tf_AnyValueContext := anyCtx, tf_ChoiceContext := textCtx,
                                   tf_DisclosedContracts := disclosed\<rparr>))))) }) }"

definition encodeTransferFactoryTransferArgs ::
  "string \<Rightarrow> string \<Rightarrow> string \<Rightarrow> string \<Rightarrow> string \<Rightarrow> string \<Rightarrow> time \<Rightarrow> time \<Rightarrow> string list \<Rightarrow> Value option \<Rightarrow> Record" where
  "encodeTransferFactoryTransferArgs expectedAdmin sender receiver amount instrumentAdmin instrumentID
     requestedAt executeBefore inputHoldingCIDs extraArgs =
     [(''expectedAdmin'', PartyValue expectedAdmin),
      (''transfer'', Some (V_Record (Some
        [(''sender'', PartyValue sender), (''receiver'', PartyValue receiver), (''amount'', NumericValue amount),
         (''instrumentId'', EncodeInstrumentId instrumentAdmin instrumentID),
         (''requestedAt'', TimestampValue requestedAt), (''executeBefore'', TimestampValue executeBefore),
         (''inputHoldingCids'', ListValue (map ContractIDValue inputHoldingCIDs)), (''meta'', EmptyMetadata)]))),
      (''extraArgs'', extraArgs)]"

definition context_args :: "Value option \<Rightarrow> Value option" where
  "context_args ctxValue = Some (V_Record (Some [(''context'', ctxValue), (''meta'', EmptyMetadata)]))"

definition buildTransferCommand :: "TokenConfig \<Rightarrow> time \<Rightarrow> transferFactoryRequest \<Rightarrow> goerr + ExerciseCommand" where
  "buildTransferCommand cfg now req =
     (let requestedAt = (if tf_RequestedAt req = zero_time then now - 5 * 10 ^ 9 else tf_RequestedAt req);
          executeBefore = (if tf_ExecuteBefore req = zero_time then requestedAt + tf_Validity req else tf_ExecuteBefore req)
      in case (if tf_AnyValueContext req \<noteq> [] then
                 (case encodeChoiceContextRecord (tf_AnyValueContext req) of
                    Inl e \<Rightarrow> Inl (Errorf ''encode choice context'' e)
                  | Inr ctxValue \<Rightarrow> Inr (context_args ctxValue))
               else Inr (EncodeExtraArgs (tf_ChoiceContext req))) of
           Inl e \<Rightarrow> Inl e
         | Inr extraArgs \<Rightarrow> Inr
             \<lparr>ex_TemplateId = splice_transfer cfg ''TransferFactory'', ex_ContractId = tf_FactoryCID req,
              ex_Choice = ''TransferFactory_Transfer'',
              ex_ChoiceArgument = encodeTransferFactoryTransferArgs (tf_InstrumentAdmin req) (tf_FromPartyID req)
                (tf_ToPartyID req) (tf_Amount req) (tf_InstrumentAdmin req) (tf_InstrumentID req)
                requestedAt executeBefore (tf_InputHoldingCIDs req) extraArgs\<rparr>)"

section \<open>Interactive submission\<close>

definition prepareAndExecuteAsUser ::
  "'w TokenLedger \<Rightarrow> TokenCommands \<Rightarrow> Signer \<Rightarrow> string \<Rightarrow> ('w, goerr + unit) state" where
  "prepareAndExecuteAsUser L commands signerKey partyID = do {
     p \<leftarrow> TK_PrepareSubmission L commands;
     case p of
       Inl e \<Rightarrow> ret (Inl (Errorf ''prepare submission'' e))
     | Inr prep \<Rightarrow>
         (case SignDER signerKey (PS_PreparedTransactionHash prep) of
            Inl e \<Rightarrow> ret (Inl (Errorf ''sign prepared transaction'' e))
          | Inr derSig \<Rightarrow>
              (case SignerFingerprint signerKey of
                 Inl e \<Rightarrow> ret (Inl (Errorf ''get signer fingerprint'' e))
               | Inr fingerprint \<Rightarrow> do {
                   uuid \<leftarrow> TK_NewUUID L;
                   r \<leftarrow> TK_ExecuteSubmissionAndWait L
                     \<lparr>EX_PreparedTransaction = PS_PreparedTransaction prep, EX_Party = partyID, EX_Signature = derSig,
                      EX_SignedBy = fingerprint, EX_SubmissionId = uuid, EX_UserId = cmd_UserId commands,
                      EX_HashingSchemeVersion = PS_HashingSchemeVersion prep\<rparr>;
                   (case r of
                      Inl e \<Rightarrow> ret (Inl (Errorf ''execute submission'' e))
                    | Inr _ \<Rightarrow> ret (Inr ())) })) }"

definition user_commands ::
  "TokenConfig \<Rightarrow> string \<Rightarrow> string \<Rightarrow> string list \<Rightarrow> ExerciseCommand \<Rightarrow> DisclosedContract list \<Rightarrow> TokenCommands" where
  "user_commands cfg commandID actAs readAs cmd disclosed =
     \<lparr>cmd_SynchronizerId = tc_DomainID cfg, cmd_CommandId = commandID, cmd_UserId = tc_UserID cfg,
      cmd_ActAs = [actAs], cmd_Commands = [cmd], cmd_ReadAs = readAs, cmd_DisclosedContracts = disclosed\<rparr>"

definition read_as :: "TokenConfig \<Rightarrow> transferFactoryRequest \<Rightarrow> string list" where
  "read_as cfg req = (if tf_IsExternal req then [] else [tc_IssuerParty cfg])"

definition transferViaFactory ::
  "TokenConfig \<Rightarrow> 'w TokenLedger \<Rightarrow> transferFactoryRequest \<Rightarrow> ('w, goerr + unit) state" where
  "transferViaFactory cfg L req =
     (case TK_KeyResolver L of
        None \<Rightarrow> ret (Inl (Err ''transfer failed: no key resolver configured (required for Interactive Submission)''))
      | Some keyResolver \<Rightarrow>
          (case keyResolver (tf_FromPartyID req) of
             Inl e \<Rightarrow> ret (Inl (Errorf (''transfer failed: cannot resolve signing key for party '' @ tf_FromPartyID req) e))
           | Inr signerKey \<Rightarrow> do {
               now \<leftarrow> TK_Now L;
               case buildTransferCommand cfg now req of
                 Inl e \<Rightarrow> ret (Inl e)
               | Inr cmd \<Rightarrow> prepareAndExecuteAsUser L
                   (user_commands cfg (tf_CommandID req) (tf_FromPartyID req) (read_as cfg req) cmd (tf_DisclosedContracts req))
                   signerKey (tf_FromPartyID req) }))"

definition factory_request ::
  "string \<Rightarrow> string \<Rightarrow> string \<Rightarrow> string \<Rightarrow> int \<Rightarrow> selectedHoldings \<Rightarrow> transferFactoryRequest" where
  "factory_request commandID fromParty toParty amount validity selected =
     \<lparr>tf_CommandID = commandID, tf_FromPartyID = fromParty, tf_ToPartyID = toParty, tf_Amount = amount,
      tf_InstrumentAdmin = sh_InstrumentAdmin selected, tf_InstrumentID = sh_InstrumentID selected,
      tf_InputHoldingCIDs = sh_CIDs selected, tf_FactoryCID = '''', tf_ChoiceContext = [], tf_AnyValueContext = [],
      tf_DisclosedContracts = [], tf_IsExternal = False, tf_RequestedAt = zero_time, tf_ExecuteBefore = zero_time,
      tf_Validity = validity\<rparr>"

definition TransferByPartyID ::
  "'d DecimalLib \<Rightarrow> TokenConfig \<Rightarrow> 'w TokenLedger \<Rightarrow> string \<Rightarrow> string \<Rightarrow> string \<Rightarrow> string \<Rightarrow> string \<Rightarrow> int
     \<Rightarrow> ('w, goerr + unit) state" where
  "TransferByPartyID D cfg L idempotencyKey fromParty toParty amount tokenSymbol validity =
     (if idempotencyKey = '''' then ret (Inl (Err ''idempotencyKey is required''))
      else if fromParty = '''' \<or> toParty = '''' then ret (Inl (Err ''from/to party is required''))
      else if amount = '''' then ret (Inl (Err ''amount is required''))
      else if tokenSymbol = '''' then ret (Inl (Err ''token symbol is required''))
      else if validity \<le> 0 then ret (Inl (Err ''transfer validity must be positive''))
      else do {
        hs \<leftarrow> GetHoldings cfg L fromParty tokenSymbol;
        case hs of
          Inl e \<Rightarrow> ret (Inl e)
        | Inr holdings \<Rightarrow>
            (case selectHoldingsForTransfer D holdings amount of
               Inl e \<Rightarrow> ret (Inl (Errorf ''select holdings for transfer'' e))
             | Inr selected \<Rightarrow> do {
                 r \<leftarrow> resolveTransferFactory cfg L (factory_request idempotencyKey fromParty toParty amount validity selected);
                 (case r of
                    Inl e \<Rightarrow> ret (Inl e)
                  | Inr req \<Rightarrow> transferViaFactory cfg L req) }) })"

definition TransferByFingerprint ::
  "'d DecimalLib \<Rightarrow> TokenConfig \<Rightarrow> 'w TokenLedger \<Rightarrow> string \<Rightarrow> string \<Rightarrow> string \<Rightarrow> string \<Rightarrow> string \<Rightarrow> int
     \<Rightarrow> ('w, goerr + unit) state" where
  "TransferByFingerprint D cfg L idempotencyKey fromFingerprint toFingerprint amount tokenSymbol validity =
     (if validity \<le> 0 then ret (Inl (Err ''transfer validity must be positive''))
      else do {
        f \<leftarrow> TK_GetFingerprintMapping L fromFingerprint;
        case f of
          Inl e \<Rightarrow> ret (Inl (Errorf ''sender not found'' e))
        | Inr fromParty \<Rightarrow> do {
            t \<leftarrow> TK_GetFingerprintMapping L toFingerprint;
            (case t of
               Inl e \<Rightarrow> ret (Inl (Errorf ''recipient not found'' e))
             | Inr toParty \<Rightarrow> TransferByPartyID D cfg L idempotencyKey fromParty toParty amount tokenSymbol validity) } })"

section \<open>Non-custodial transfers\<close>

definition prepared_transfer :: "string \<Rightarrow> PrepareSubmissionResponse \<Rightarrow> string \<Rightarrow> time \<Rightarrow> PreparedTransfer" where
  "prepared_transfer uuid prep partyID expiresAt =
     \<lparr>PT_TransferID = uuid, PT_TransactionHash = PS_PreparedTransactionHash prep,
      PT_PreparedTransaction = PS_PreparedTransaction prep,
      PT_HashingSchemeVersion = PS_HashingSchemeVersion prep, PT_PartyID = partyID, PT_ExpiresAt = expiresAt\<rparr>"

definition PrepareTransfer ::
  "'d DecimalLib \<Rightarrow> TokenConfig \<Rightarrow> 'w TokenLedger \<Rightarrow> PrepareTransferRequest \<Rightarrow> ('w, goerr + PreparedTransfer) state" where
  "PrepareTransfer D cfg L req =
     (case prepare_validate req of
        Inl e \<Rightarrow> ret (Inl (Errorf ''invalid request'' e))
      | Inr _ \<Rightarrow> do {
          hs \<leftarrow> GetHoldings cfg L (PR_FromPartyID req) (PR_TokenSymbol req);
          case hs of
            Inl e \<Rightarrow> ret (Inl e)
          | Inr holdings \<Rightarrow>
              (case selectHoldingsForTransfer D holdings (PR_Amount req) of
                 Inl e \<Rightarrow> ret (Inl (Errorf ''select holdings for transfer'' e))
               | Inr selected \<Rightarrow> do {
                   r \<leftarrow> resolveTransferFactory cfg L (factory_request '''' (PR_FromPartyID req) (PR_ToPartyID req)
                          (PR_Amount req) (PR_Validity req) selected);
                   (case r of
                      Inl e \<Rightarrow> ret (Inl e)
                    | Inr freq \<Rightarrow> do {
                        now \<leftarrow> TK_Now L;
                        (case buildTransferCommand cfg now freq of
                           Inl e \<Rightarrow> ret (Inl e)
                         | Inr cmd \<Rightarrow> do {
                             commandID \<leftarrow> TK_NewUUID L;
                             p \<leftarrow> TK_PrepareSubmission L (user_commands cfg commandID (PR_FromPartyID req) (read_as cfg freq) cmd
                                    (tf_DisclosedContracts freq));
                             (case p of
                                Inl e \<Rightarrow> ret (Inl (Errorf ''prepare submission'' e))
                              | Inr prep \<Rightarrow> do {
                                  uuid \<leftarrow> TK_NewUUID L;
                                  ret (Inr (prepared_transfer uuid prep (PR_FromPartyID req) zero_time)) }) }) }) }) })"

definition ExecuteTransfer ::
  "TokenConfig \<Rightarrow> 'w TokenLedger \<Rightarrow> ExecuteTransferRequest \<Rightarrow> ('w, goerr + unit) state" where
  "ExecuteTransfer cfg L req =
     (case execute_validate req of
        Inl e \<Rightarrow> ret (Inl (Errorf ''invalid request'' e))
      | Inr pt \<Rightarrow> do {
          uuid \<leftarrow> TK_NewUUID L;
          r \<leftarrow> TK_ExecuteSubmissionAndWait L
            \<lparr>EX_PreparedTransaction = PT_PreparedTransaction pt, EX_Party = PT_PartyID pt, EX_Signature = XR_Signature req,
             EX_SignedBy = XR_SignedBy req, EX_SubmissionId = uuid, EX_UserId = tc_UserID cfg,
             EX_HashingSchemeVersion = PT_HashingSchemeVersion pt\<rparr>;
          (case r of
             Inl e \<Rightarrow> ret (Inl (Errorf ''execute submission'' e))
           | Inr _ \<Rightarrow> ret (Inr ())) })"

section \<open>Transfer instructions\<close>

definition buildInstructionChoiceCommand ::
  "TokenConfig \<Rightarrow> 'w TokenLedger \<Rightarrow> string \<Rightarrow> string \<Rightarrow> string \<Rightarrow> string
     \<Rightarrow> ('w, goerr + ExerciseCommand \<times> DisclosedContract list) state" where
  "buildInstructionChoiceCommand cfg L instructionCID instrumentAdmin action choice =
     (case TK_ChoiceContext L of
        None \<Rightarrow> ret (Inl (Err (''no registry client configured for '' @ action)))
      | Some registry \<Rightarrow>
          (case tc_ExternalTokens cfg instrumentAdmin of
             None \<Rightarrow> ret (Inl (Err (''unsupported external token issuer: '' @ instrumentAdmin)))
           | Some url \<Rightarrow>
               if action \<notin> {''accept'', ''withdraw''} then ret (Inl (Err (''unsupported instruction action: '' @ action)))
               else do {
                 r \<leftarrow> registry action url instrumentAdmin instructionCID;
                 case r of
                   Inl e \<Rightarrow> ret (Inl (Errorf (''get '' @ action @ '' choice context'') e))
                 | Inr (ctx, disclosed) \<Rightarrow>
                     (case encodeChoiceContextRecord ctx of
                        Inl e \<Rightarrow> ret (Inl (Errorf ''encode choice context'' e))
                      | Inr ctxValue \<Rightarrow>
                          (case disclosed of
                             Inl e \<Rightarrow> ret (Inl (Errorf ''convert disclosed contracts'' e))
                           | Inr ds \<Rightarrow> ret (Inr
                               (\<lparr>ex_TemplateId = splice_transfer cfg ''TransferInstruction'', ex_ContractId = instructionCID,
                                 ex_Choice = choice, ex_ChoiceArgument = [(''extraArgs'', context_args ctxValue)]\<rparr>, ds)))) }))"

definition exerciseInstructionAsCustodial ::
  "TokenConfig \<Rightarrow> 'w TokenLedger \<Rightarrow> string \<Rightarrow> ExerciseCommand \<Rightarrow> DisclosedContract list \<Rightarrow> ('w, goerr + unit) state" where
  "exerciseInstructionAsCustodial cfg L partyID cmd disclosed =
     (case TK_KeyResolver L of
        None \<Rightarrow> ret (Inl (Err (''no key resolver configured '' @
          ''(custodial instruction exercise requires the api-server to hold the user's signing key)'')))
      | Some keyResolver \<Rightarrow>
          (case keyResolver partyID of
             Inl e \<Rightarrow> ret (Inl (Errorf (''resolve signing key for '' @ partyID) e))
           | Inr signerKey \<Rightarrow> do {
               uuid \<leftarrow> TK_NewUUID L;
               prepareAndExecuteAsUser L (user_commands cfg uuid partyID [] cmd disclosed) signerKey partyID }))"

definition instruction_args_missing :: goerr where
  "instruction_args_missing = Err ''partyID, instructionCID, and instrumentAdmin are required''"

definition AcceptTransferInstruction ::
  "TokenConfig \<Rightarrow> 'w TokenLedger \<Rightarrow> string \<Rightarrow> string \<Rightarrow> string \<Rightarrow> ('w, goerr + unit) state" where
  "AcceptTransferInstruction cfg L partyID instructionCID instrumentAdmin =
     (if partyID = '''' \<or> instructionCID = '''' \<or> instrumentAdmin = '''' then ret (Inl instruction_args_missing)
      else do {
        b \<leftarrow> buildInstructionChoiceCommand cfg L instructionCID instrumentAdmin ''accept'' ''TransferInstruction_Accept'';
        case b of
          Inl e \<Rightarrow> ret (Inl e)
        | Inr (cmd, disclosed) \<Rightarrow> do {
            r \<leftarrow> exerciseInstructionAsCustodial cfg L partyID cmd disclosed;
            (case r of
               Inl e \<Rightarrow> ret (Inl (Errorf ''accept transfer instruction'' e))
             | Inr _ \<Rightarrow> ret (Inr ())) } })"

definition WithdrawTransferInstruction ::
  "TokenConfig \<Rightarrow> 'w TokenLedger \<Rightarrow> string \<Rightarrow> string \<Rightarrow> string \<Rightarrow> ('w, goerr + unit) state" where
  "WithdrawTransferInstruction cfg L partyID instructionCID instrumentAdmin =
     (if partyID = '''' \<or> instructionCID = '''' \<or> instrumentAdmin = '''' then ret (Inl instruction_args_missing)
      else do {
        b \<leftarrow> buildInstructionChoiceCommand cfg L instructionCID instrumentAdmin ''withdraw'' ''TransferInstruction_Withdraw'';
        case b of
          Inl e \<Rightarrow> ret (Inl e)
        | Inr (cmd, disclosed) \<Rightarrow> do {
            r \<leftarrow> exerciseInstructionAsCustodial cfg L partyID cmd disclosed;
            (case r of
               Inl e \<Rightarrow> ret (Inl (Errorf ''withdraw transfer instruction'' e))
             | Inr _ \<Rightarrow> ret (Inr ())) } })"

definition preparedTxCacheTTL :: int where "preparedTxCacheTTL = 3600 * 10 ^ 9"

definition prepareInstructionTx ::
  "TokenConfig \<Rightarrow> 'w TokenLedger \<Rightarrow> string \<Rightarrow> ExerciseCommand \<Rightarrow> DisclosedContract list \<Rightarrow> ('w, goerr + PreparedTransfer) state" where
  "prepareInstructionTx cfg L partyID cmd disclosed = do {
     commandID \<leftarrow> TK_NewUUID L;
     p \<leftarrow> TK_PrepareSubmission L (user_commands cfg commandID partyID [] cmd disclosed);
     case p of
       Inl e \<Rightarrow> ret (Inl (Errorf ''prepare submission'' e))
     | Inr prep \<Rightarrow> do {
         uuid \<leftarrow> TK_NewUUID L;
         now \<leftarrow> TK_Now L;
         ret (Inr (prepared_transfer uuid prep partyID (now + preparedTxCacheTTL))) } }"

definition PrepareAcceptTransfer ::
  "TokenConfig \<Rightarrow> 'w TokenLedger \<Rightarrow> string \<Rightarrow> string \<Rightarrow> string \<Rightarrow> ('w, goerr + PreparedTransfer) state" where
  "PrepareAcceptTransfer cfg L partyID instructionCID instrumentAdmin =
     (if partyID = '''' \<or> instructionCID = '''' \<or> instrumentAdmin = '''' then ret (Inl instruction_args_missing)
      else do {
        b \<leftarrow> buildInstructionChoiceCommand cfg L instructionCID instrumentAdmin ''accept'' ''TransferInstruction_Accept'';
        case b of
          Inl e \<Rightarrow> ret (Inl e)
        | Inr (cmd, disclosed) \<Rightarrow> prepareInstructionTx cfg L partyID cmd disclosed })"

definition PrepareWithdrawTransfer ::
  "TokenConfig \<Rightarrow> 'w TokenLedger \<Rightarrow> string \<Rightarrow> string \<Rightarrow> string \<Rightarrow> ('w, goerr + PreparedTransfer) state" where
  "PrepareWithdrawTransfer cfg L partyID instructionCID instrumentAdmin =
     (if partyID = '''' \<or> instructionCID = '''' \<or> instrumentAdmin = '''' then ret (Inl instruction_args_missing)
      else do {
        b \<leftarrow> buildInstructionChoiceCommand cfg L instructionCID instrumentAdmin ''withdraw'' ''TransferInstruction_Withdraw'';
        case b of
          Inl e \<Rightarrow> ret (Inl e)
        | Inr (cmd, disclosed) \<Rightarrow> prepareInstructionTx cfg L partyID cmd disclosed })"

section \<open>What the client's operations keep\<close>

text \<open>
  When every call the client makes stays within a preorder on the world (some tables are kept, a
  record only grows), so does every operation of the client.
\<close>

locale token_frame = preorder_rel R for R :: "'w \<Rightarrow> 'w \<Rightarrow> bool" +
  fixes L :: "'w TokenLedger"
  assumes frame_end: "stays R (TK_GetLedgerEnd L)"
    and frame_interface: "stays R (TK_ByInterface L off parties i)"
    and frame_active: "stays R (TK_ActiveContracts L off party i)"
    and frame_prepare: "stays R (TK_PrepareSubmission L c)"
    and frame_execute: "stays R (TK_ExecuteSubmissionAndWait L x)"
    and frame_mapping: "stays R (TK_GetFingerprintMapping L fp)"
    and frame_registry: "TK_Registry L = Some reg \<Longrightarrow> stays R (reg url req)"
    and frame_context: "TK_ChoiceContext L = Some ctx \<Longrightarrow> stays R (ctx action url admin cid)"
    and frame_uuid: "stays R (TK_NewUUID L)"
    and frame_now: "stays R (TK_Now L)"
begin

lemmas frame = stays_intros frame_end frame_interface frame_active frame_prepare frame_execute frame_mapping
  frame_registry frame_context frame_uuid frame_now

lemma frame_holdings: "stays R (GetHoldings cfg L p s)"
  unfolding GetHoldings_def GetHoldingsByParty_def by (auto intro!: frame split: sum.splits)

lemma frame_execute_as_user: "stays R (prepareAndExecuteAsUser L c key p)"
  unfolding prepareAndExecuteAsUser_def by (auto intro!: frame split: sum.splits)

lemma frame_factory: "stays R (getTransferFactoryCID cfg L)"
  unfolding getTransferFactoryCID_def GetTransferFactory_def GetAllocationFactory_def queryFactoryContracts_def
  by (auto intro!: frame split: sum.splits option.splits prod.splits)

lemma frame_resolve: "stays R (resolveTransferFactory cfg L req)"
  unfolding resolveTransferFactory_def Let_def
  by (auto intro!: frame frame_factory split: sum.splits option.splits)

lemma frame_via_factory: "stays R (transferViaFactory cfg L req)"
  unfolding transferViaFactory_def by (auto intro!: frame frame_execute_as_user split: sum.splits option.splits)

lemma frame_by_party: "stays R (TransferByPartyID D cfg L k f t a s v)"
  unfolding TransferByPartyID_def by (auto intro!: frame frame_holdings frame_resolve frame_via_factory split: sum.splits)

lemma frame_by_fingerprint: "stays R (TransferByFingerprint D cfg L k f t a s v)"
  unfolding TransferByFingerprint_def by (auto intro!: frame frame_by_party split: sum.splits)

lemma frame_PrepareTransfer: "stays R (PrepareTransfer D cfg L req)"
  unfolding PrepareTransfer_def by (auto intro!: frame frame_holdings frame_resolve split: sum.splits)

lemma frame_ExecuteTransfer: "stays R (ExecuteTransfer cfg L req)"
  unfolding ExecuteTransfer_def by (auto intro!: frame split: sum.splits)

lemma frame_instruction: "stays R (buildInstructionChoiceCommand cfg L cid admin action choice)"
  unfolding buildInstructionChoiceCommand_def by (auto intro!: frame split: sum.splits option.splits prod.splits)

lemma frame_custodial: "stays R (exerciseInstructionAsCustodial cfg L p cmd d)"
  unfolding exerciseInstructionAsCustodial_def by (auto intro!: frame frame_execute_as_user split: sum.splits option.splits)

lemma frame_Accept: "stays R (AcceptTransferInstruction cfg L p cid admin)"
  and frame_Withdraw: "stays R (WithdrawTransferInstruction cfg L p cid admin)"
  unfolding AcceptTransferInstruction_def WithdrawTransferInstruction_def
  by (auto intro!: frame frame_instruction frame_custodial split: sum.splits prod.splits)

lemma frame_PrepareAccept: "stays R (PrepareAcceptTransfer cfg L p cid admin)"
  and frame_PrepareWithdraw: "stays R (PrepareWithdrawTransfer cfg L p cid admin)"
  unfolding PrepareAcceptTransfer_def PrepareWithdrawTransfer_def prepareInstructionTx_def
  by (auto intro!: frame frame_instruction split: sum.splits prod.splits)

end

section \<open>What is selected\<close>

definition holding_total :: "(string \<Rightarrow> rat option) \<Rightarrow> Holding list \<Rightarrow> rat" where
  "holding_total tval hs = (\<Sum>h\<leftarrow>hs. case tval (Ho_Amount h) of None \<Rightarrow> 0 | Some x \<Rightarrow> x)"

text \<open>The unlocked holdings of the instrument that the first unlocked holding has.\<close>

definition spendable :: "Holding list \<Rightarrow> Holding list" where
  "spendable hs =
     (case filter (\<lambda>h. \<not> Ho_Locked h) hs of
        [] \<Rightarrow> []
      | h # _ \<Rightarrow> filter (\<lambda>x. \<not> Ho_Locked x \<and> Ho_InstrumentAdmin x = Ho_InstrumentAdmin h \<and> Ho_InstrumentID x = Ho_InstrumentID h) hs)"

definition covers :: "(string \<Rightarrow> rat option) \<Rightarrow> rat \<Rightarrow> Holding list \<Rightarrow> nat \<Rightarrow> bool" where
  "covers tval a hs n \<longleftrightarrow>
     0 < n \<and> n \<le> length hs \<and> a \<le> holding_total tval (take n hs) \<and>
     (\<forall>k. 0 < k \<and> k < n \<longrightarrow> holding_total tval (take k hs) < a)"

lemma holding_total_snoc: "tval (Ho_Amount h) = Some x \<Longrightarrow> holding_total tval (hs @ [h]) = holding_total tval hs + x"
  by (simp add: holding_total_def)

context decimal_lib
begin

lemma add_decimal: "tval a = Some x \<Longrightarrow> tval b = Some y \<Longrightarrow> \<exists>t. addDecimalStrings D a b = Inr t \<and> tval t = Some (x + y)"
proof -
  assume a: "tval a = Some x" and b: "tval b = Some y"
  from parse_total[OF a] parse_total[OF b] obtain da db where d: "NewFromString D a = Inr da" "NewFromString D b = Inr db" by blast
  with a b parse_law[OF d(1)] parse_law[OF d(2)] show ?thesis
    by (simp add: addDecimalStrings_def string_law add_law)
qed

lemma compare_decimal:
  assumes "tval a = Some x" "tval b = Some y"
  shows "\<exists>c. compareDecimalStrings D a b = Inr c \<and> (0 \<le> c \<longleftrightarrow> y \<le> x)"
proof -
  from parse_total[OF assms(1)] parse_total[OF assms(2)] obtain da db where d: "NewFromString D a = Inr da" "NewFromString D b = Inr db" by blast
  with assms parse_law[OF d(1)] parse_law[OF d(2)] show ?thesis
    by (auto simp: compareDecimalStrings_def cmp_law)
qed

text \<open>
  The loop once the instrument is fixed: \<open>pre\<close> are the holdings chosen so far and \<open>rest\<close> those of
  the instrument among the ones still to come.
\<close>

lemma select_loop_law:
  assumes "tval required = Some a" "tval tot = Some (holding_total tval pre)" "\<forall>h \<in> set hs. tval (Ho_Amount h) \<noteq> None"
    and "pre \<noteq> []" "sh_CIDs result = map Ho_ContractID pre" "\<forall>k. 0 < k \<and> k \<le> length pre \<longrightarrow> holding_total tval (take k pre) < a"
    and "rest = filter (\<lambda>x. \<not> Ho_Locked x \<and> Ho_InstrumentAdmin x = sh_InstrumentAdmin result \<and> Ho_InstrumentID x = sh_InstrumentID result) hs"
  shows "case select_loop D required result tot hs of
    Inl e \<Rightarrow> errors_Is e ErrInsufficientBalance \<and> (\<forall>k. 0 < k \<and> k \<le> length (pre @ rest) \<longrightarrow> holding_total tval (take k (pre @ rest)) < a)
  | Inr sel \<Rightarrow> (\<exists>n. covers tval a (pre @ rest) n \<and> sel = result\<lparr>sh_CIDs := map Ho_ContractID (take n (pre @ rest))\<rparr>)"
  using assms
proof (induction hs arbitrary: result tot pre rest)
  case Nil
  then show ?case by (simp add: ErrInsufficientBalance_def)
next
  case (Cons h hs)
  let ?keep = "\<not> Ho_Locked h \<and> Ho_InstrumentAdmin h = sh_InstrumentAdmin result \<and> Ho_InstrumentID h = sh_InstrumentID result"
  show ?case
  proof (cases ?keep)
    case False
    then have "select_loop D required result tot (h # hs) = select_loop D required result tot hs"
      using Cons.prems(4,5) by auto
    moreover have "rest = filter (\<lambda>x. \<not> Ho_Locked x \<and> Ho_InstrumentAdmin x = sh_InstrumentAdmin result \<and> Ho_InstrumentID x = sh_InstrumentID result) hs"
      using Cons.prems(7) False by auto
    moreover have "\<forall>x \<in> set hs. tval (Ho_Amount x) \<noteq> None" using Cons.prems(3) by simp
    ultimately show ?thesis
      using Cons.IH[OF Cons.prems(1,2) _ Cons.prems(4-6)] by metis
  next
    case True
    define rest' where "rest' = filter (\<lambda>x. \<not> Ho_Locked x \<and> Ho_InstrumentAdmin x = sh_InstrumentAdmin result \<and> Ho_InstrumentID x = sh_InstrumentID result) hs"
    have rest: "pre @ rest = (pre @ [h]) @ rest'" using Cons.prems(7) True by (simp add: rest'_def)
    let ?r = "result\<lparr>sh_CIDs := sh_CIDs result @ [Ho_ContractID h]\<rparr>"
    from Cons.prems(3) obtain x where x: "tval (Ho_Amount h) = Some x" by auto
    with add_decimal[OF Cons.prems(2)] obtain t where t: "addDecimalStrings D tot (Ho_Amount h) = Inr t" "tval t = Some (holding_total tval (pre @ [h]))"
      by (auto simp: holding_total_snoc)
    from compare_decimal[OF t(2) Cons.prems(1)] obtain c where c: "compareDecimalStrings D t required = Inr c" "0 \<le> c \<longleftrightarrow> a \<le> holding_total tval (pre @ [h])"
      by blast
    have loop: "select_loop D required result tot (h # hs) = (if 0 \<le> c then Inr ?r else select_loop D required ?r t hs)"
      using True Cons.prems(4,5) t(1) c(1) by (simp add: Let_def)
    show ?thesis
    proof (cases "0 \<le> c")
      case True
      have "holding_total tval (take k ((pre @ [h]) @ rest')) < a" if "0 < k" "k < Suc (length pre)" for k
        using that Cons.prems(6) by simp
      with True c(2) have "covers tval a ((pre @ [h]) @ rest') (Suc (length pre))"
        by (simp add: covers_def)
      moreover have "?r = result\<lparr>sh_CIDs := map Ho_ContractID (take (Suc (length pre)) ((pre @ [h]) @ rest'))\<rparr>"
        using Cons.prems(5) by simp
      ultimately show ?thesis unfolding loop rest using True by auto
    next
      case False
      have less: "\<forall>k. 0 < k \<and> k \<le> length (pre @ [h]) \<longrightarrow> holding_total tval (take k (pre @ [h])) < a"
        using Cons.prems(6) False c(2) by (auto simp: le_Suc_eq)
      have "\<forall>x \<in> set hs. tval (Ho_Amount x) \<noteq> None" "sh_CIDs ?r = map Ho_ContractID (pre @ [h])" "pre @ [h] \<noteq> []"
        using Cons.prems(3,5) by auto
      from Cons.IH[OF Cons.prems(1) t(2) this(1,3,2) less, of rest'] False show ?thesis
        unfolding loop rest by (simp add: rest'_def split: sum.splits)
    qed
  qed
qed

lemma select_law:
  assumes "tval ''0'' = Some 0" "tval required = Some a" "\<forall>h \<in> set hs. tval (Ho_Amount h) \<noteq> None"
  shows "case selectHoldingsForTransfer D hs required of
    Inl e \<Rightarrow> errors_Is e ErrInsufficientBalance \<and>
      (\<forall>k. 0 < k \<and> k \<le> length (spendable hs) \<longrightarrow> holding_total tval (take k (spendable hs)) < a)
  | Inr sel \<Rightarrow> \<exists>n. covers tval a (spendable hs) n \<and> sh_CIDs sel = map Ho_ContractID (take n (spendable hs)) \<and>
      sh_InstrumentAdmin sel = Ho_InstrumentAdmin (hd (spendable hs)) \<and> sh_InstrumentID sel = Ho_InstrumentID (hd (spendable hs))"
proof -
  let ?init = "\<lparr>sh_CIDs = [], sh_InstrumentAdmin = '''', sh_InstrumentID = ''''\<rparr>"
  have start: "case select_loop D required ?init ''0'' hs of
    Inl e \<Rightarrow> errors_Is e ErrInsufficientBalance \<and>
      (\<forall>k. 0 < k \<and> k \<le> length (spendable hs) \<longrightarrow> holding_total tval (take k (spendable hs)) < a)
  | Inr sel \<Rightarrow> \<exists>n. covers tval a (spendable hs) n \<and> sh_CIDs sel = map Ho_ContractID (take n (spendable hs)) \<and>
      sh_InstrumentAdmin sel = Ho_InstrumentAdmin (hd (spendable hs)) \<and> sh_InstrumentID sel = Ho_InstrumentID (hd (spendable hs))"
    using assms(3)
  proof (induction hs)
    case Nil
    then show ?case by (simp add: spendable_def ErrInsufficientBalance_def)
  next
    case (Cons h hs)
    show ?case
    proof (cases "Ho_Locked h")
      case True
      then have sp: "spendable (h # hs) = spendable hs" by (simp add: spendable_def cong: list.case_cong)
      have loop: "select_loop D required ?init ''0'' (h # hs) = select_loop D required ?init ''0'' hs" using True by simp
      show ?thesis unfolding sp loop by (rule Cons.IH) (use Cons.prems in simp)
    next
      case False
      let ?r = "\<lparr>sh_CIDs = [Ho_ContractID h], sh_InstrumentAdmin = Ho_InstrumentAdmin h, sh_InstrumentID = Ho_InstrumentID h\<rparr>"
      define rest where "rest = filter (\<lambda>x. \<not> Ho_Locked x \<and> Ho_InstrumentAdmin x = sh_InstrumentAdmin ?r \<and> Ho_InstrumentID x = sh_InstrumentID ?r) hs"
      have sp: "spendable (h # hs) = [h] @ rest" using False by (simp add: spendable_def rest_def)
      from Cons.prems obtain x where x: "tval (Ho_Amount h) = Some x" by auto
      then have tot: "holding_total tval [h] = x" by (simp add: holding_total_def)
      from add_decimal[OF assms(1) x] obtain t where t: "addDecimalStrings D ''0'' (Ho_Amount h) = Inr t" "tval t = Some (holding_total tval [h])"
        by (auto simp: tot)
      from compare_decimal[OF t(2) assms(2)] obtain c where c: "compareDecimalStrings D t required = Inr c" "0 \<le> c \<longleftrightarrow> a \<le> holding_total tval [h]" by blast
      have loop: "select_loop D required ?init ''0'' (h # hs) = (if 0 \<le> c then Inr ?r else select_loop D required ?r t hs)"
        using False t(1) c(1) by (simp add: Let_def)
      show ?thesis
      proof (cases "0 \<le> c")
        case True
        with c(2) have "covers tval a ([h] @ rest) 1" by (simp add: covers_def)
        with True show ?thesis unfolding loop sp by (auto intro!: exI[of _ 1])
      next
        case False
        with c(2) have less: "\<forall>k. 0 < k \<and> k \<le> length [h] \<longrightarrow> holding_total tval (take k [h]) < a" by auto
        have "\<forall>x \<in> set hs. tval (Ho_Amount x) \<noteq> None" using Cons.prems by simp
        from select_loop_law[OF assms(2) t(2) this _ _ less rest_def] False show ?thesis
          unfolding loop sp by (auto split: sum.splits)
      qed
    qed
  qed
  show ?thesis
  proof (cases "hs = []")
    case True
    then show ?thesis by (simp add: selectHoldingsForTransfer_def spendable_def ErrInsufficientBalance_def)
  next
    case False
    with start show ?thesis by (simp add: selectHoldingsForTransfer_def)
  qed
qed

end

text \<open>
  C13: the selection of input holdings for a transfer is sound and minimal.  If it succeeds, the chosen
  contracts are a prefix of the sender's unlocked holdings of one instrument, their amounts cover the
  requested amount, and no shorter prefix does; if it fails, the error is the insufficient-balance
  sentinel and no prefix covers the amount.  Locked holdings and other instruments are never used.
\<close>

theorem selection_covers:
  assumes "decimal_lib D dval tval" "tval ''0'' = Some 0" "tval required = Some a" "\<forall>h \<in> set hs. tval (Ho_Amount h) \<noteq> None"
  shows "case selectHoldingsForTransfer D hs required of
    Inl e \<Rightarrow> errors_Is e ErrInsufficientBalance \<and>
      (\<forall>k. 0 < k \<and> k \<le> length (spendable hs) \<longrightarrow> holding_total tval (take k (spendable hs)) < a)
  | Inr sel \<Rightarrow> \<exists>n. covers tval a (spendable hs) n \<and> sh_CIDs sel = map Ho_ContractID (take n (spendable hs)) \<and>
      sh_InstrumentAdmin sel = Ho_InstrumentAdmin (hd (spendable hs)) \<and> sh_InstrumentID sel = Ho_InstrumentID (hd (spendable hs))"
  by (rule decimal_lib.select_law[OF assms])

definition sample_holding :: "string \<Rightarrow> string \<Rightarrow> bool \<Rightarrow> Holding" where
  "sample_holding cid amount locked =
     \<lparr>Ho_ContractID = cid, Ho_Issuer = ''issuer'', Ho_Owner = ''alice'', Ho_Amount = amount, Ho_Symbol = ''DEMO'',
      Ho_InstrumentAdmin = ''issuer'', Ho_InstrumentID = ''DEMO'', Ho_Locked = locked, Ho_Metadata = Map.empty\<rparr>"

theorem selection_covers_witness:
  "case selectHoldingsForTransfer dec_lib [sample_holding ''a'' ''2'' True, sample_holding ''b'' ''1.5'' False, sample_holding ''c'' ''3'' False] ''4'' of
    Inl e \<Rightarrow> False
  | Inr sel \<Rightarrow> sh_CIDs sel = [''b'', ''c'']"
proof -
  let ?hs = "[sample_holding ''a'' ''2'' True, sample_holding ''b'' ''1.5'' False, sample_holding ''c'' ''3'' False]"
  have v: "dec_text ''0'' = Some 0" "dec_text ''4'' = Some 4" "dec_text ''2'' = Some 2" "dec_text ''1.5'' = Some (3 / 2)" "dec_text ''3'' = Some 3"
    by code_simp+
  then have "\<forall>h \<in> set ?hs. dec_text (Ho_Amount h) \<noteq> None" by (simp add: sample_holding_def del: not_None_eq)
  note law = selection_covers[OF dec.decimal_lib_axioms v(1,2) this]
  have sp: "spendable ?hs = [sample_holding ''b'' ''1.5'' False, sample_holding ''c'' ''3'' False]" by (simp add: spendable_def sample_holding_def)
  have tot: "holding_total dec_text [sample_holding ''b'' ''1.5'' False] = 3 / 2"
    "holding_total dec_text [sample_holding ''b'' ''1.5'' False, sample_holding ''c'' ''3'' False] = 9 / 2"
    using v by (simp_all add: holding_total_def sample_holding_def)
  have two: "n = 2" if "covers dec_text 4 [sample_holding ''b'' ''1.5'' False, sample_holding ''c'' ''3'' False] n" for n
  proof -
    from that have "n = 1 \<or> n = 2" by (auto simp: covers_def)
    with that tot show ?thesis by (auto simp: covers_def)
  qed
  have cid: "Ho_ContractID (sample_holding c x l) = c" for c x l by (simp add: sample_holding_def)
  show ?thesis
  proof (cases "selectHoldingsForTransfer dec_lib ?hs ''4''")
    case (Inl e)
    with law have "\<forall>k. 0 < k \<and> k \<le> length (spendable ?hs) \<longrightarrow> holding_total dec_text (take k (spendable ?hs)) < 4" by simp
    from this[rule_format, of 2] tot show ?thesis by (simp add: sp)
  next
    case (Inr sel)
    with law obtain n where n: "covers dec_text 4 (spendable ?hs) n" "sh_CIDs sel = map Ho_ContractID (take n (spendable ?hs))" by auto
    with two[of n] have "n = 2" by (simp add: sp)
    with Inr n(2) show ?thesis by (simp add: sp cid)
  qed
qed

end
