(* ===== verification/App_Errors.thy ===== *)
theory App_Errors
  imports Go_Prelude
begin

text \<open>
  \<open>pkg/app/errors\<close>: the constructors of categorised errors, the tests on categories, and the codes
  the HTTP and JSON-RPC servers answer with.  An absent cause (a nil \<open>err\<close> argument) is \<^const>\<open>None\<close>.
\<close>

definition service_error :: "Category \<Rightarrow> string \<Rightarrow> goerr option \<Rightarrow> string \<Rightarrow> goerr" where
  "service_error c message err def =
     ServiceError c message (case err of None \<Rightarrow> Err def | Some e \<Rightarrow> e)"

definition GeneralError :: "goerr option \<Rightarrow> goerr" where
  "GeneralError err = service_error CategoryGeneralError ''Internal Server Error'' err ''internal server error''"

definition ResourceNotFoundError :: "goerr option \<Rightarrow> string \<Rightarrow> goerr" where
  "ResourceNotFoundError err message =
     service_error CategoryResourceNotFound message err (''resource not found:'' @ message)"

definition BadRequestError :: "goerr option \<Rightarrow> string \<Rightarrow> goerr" where
  "BadRequestError err message = service_error CategoryDataError message err (''bad request:'' @ message)"

definition NotSupportedError :: "goerr option \<Rightarrow> string \<Rightarrow> goerr" where
  "NotSupportedError err message = service_error CategoryNotSupported message err (''not supported:'' @ message)"

definition ForbiddenError :: "goerr option \<Rightarrow> string \<Rightarrow> goerr" where
  "ForbiddenError err message = service_error CategoryForbidden message err ''request forbidden''"

definition UnAuthorizedError :: "goerr option \<Rightarrow> string \<Rightarrow> goerr" where
  "UnAuthorizedError err message = service_error CategoryUnauthorized message err ''unauthorized''"

definition DependencyError :: "goerr option \<Rightarrow> string \<Rightarrow> goerr" where
  "DependencyError err message =
     service_error CategoryDependencyFailure message err (''dependency failure: '' @ message)"

definition GoneError :: "goerr option \<Rightarrow> string \<Rightarrow> goerr" where
  "GoneError err message = service_error CategoryGone message err (''gone: '' @ message)"

definition ConflictError :: "goerr option \<Rightarrow> string \<Rightarrow> goerr" where
  "ConflictError err message = service_error CategoryDataConflict message err ''conflict''"

lemmas app_errors = service_error_def GeneralError_def ResourceNotFoundError_def BadRequestError_def
  NotSupportedError_def ForbiddenError_def UnAuthorizedError_def DependencyError_def GoneError_def
  ConflictError_def

definition apperr_Is :: "goerr \<Rightarrow> Category \<Rightarrow> bool" where
  "apperr_Is err cat \<longleftrightarrow> errors_As_ServiceError err = Some cat"

text \<open>The categories in the order of their \<open>iota\<close> constants.\<close>

primrec category_rank :: "Category \<Rightarrow> nat" where
  "category_rank CategoryNoError = 0"
| "category_rank CategoryDataError = 1"
| "category_rank CategoryUnauthorized = 2"
| "category_rank CategoryForbidden = 3"
| "category_rank CategoryResourceNotFound = 4"
| "category_rank CategoryNotSupported = 5"
| "category_rank CategoryDataConflict = 6"
| "category_rank CategoryLocked = 7"
| "category_rank CategoryGone = 8"
| "category_rank CategoryDependencyFailure = 9"
| "category_rank CategoryGeneralError = 10"
| "category_rank CategoryRecovering = 11"
| "category_rank CategoryConnectionTimeout = 12"

definition IsInternalError :: "goerr \<Rightarrow> bool" where
  "IsInternalError err =
     (case errors_As_ServiceError err of
        Some c \<Rightarrow> \<not> category_rank c < category_rank CategoryDependencyFailure
      | None \<Rightarrow> True)"

fun ErrorCode :: "Category \<Rightarrow> int" where
  "ErrorCode CategoryDataError = - 32602"
| "ErrorCode CategoryNotSupported = - 32601"
| "ErrorCode _ = - 32000"

fun StatusCode :: "Category \<Rightarrow> nat" where
  "StatusCode CategoryDataError = 400"
| "StatusCode CategoryUnauthorized = 401"
| "StatusCode CategoryForbidden = 403"
| "StatusCode CategoryResourceNotFound = 404"
| "StatusCode CategoryNotSupported = 405"
| "StatusCode CategoryDataConflict = 409"
| "StatusCode CategoryLocked = 423"
| "StatusCode CategoryGone = 410"
| "StatusCode CategoryDependencyFailure = 502"
| "StatusCode CategoryGeneralError = 500"
| "StatusCode CategoryRecovering = 503"
| "StatusCode CategoryConnectionTimeout = 504"
| "StatusCode _ = 500"

text \<open>
  An error is internal exactly when the server answers it with a status of the 500 range, up to the
  category no constructor produces.
\<close>

lemma internal_status:
  assumes "errors_As_ServiceError err = Some c" "c \<noteq> CategoryNoError"
  shows "IsInternalError err \<longleftrightarrow> 500 \<le> StatusCode c"
  using assms by (cases c) (simp_all add: IsInternalError_def)

end
