(* ===== verification/Ethrpc_Store.thy ===== *)
theory Ethrpc_Store
  imports Sql_Table App_Errors Encodings
begin

text \<open>
  \<open>pkg/ethrpc/types.go\<close> and \<open>pkg/ethrpc/store\<close>: the intents, receipts and logs of the Ethereum
  JSON-RPC facade and the statements of its PostgreSQL store on \<open>evm_db\<close>.

  A byte slice is a list; nil and empty slices are the same list, and nothing the store returns
  tells them apart.  A \<open>uint\<close> index is a \<^typ>\<open>nat\<close>.  The hash function of \<open>ComputeBlockHash\<close> is the
  parameter \<open>sha256\<close>.  An open transaction is the database as it was when the transaction began;
  its statements act on the database, and giving the transaction up puts the old tables back.  The
  row lock on \<open>evm_state\<close> lets one block be open at a time, and the rows a block claims are never
  \<open>pending\<close>, the only ones the other statements change, so a block is one atomic step.
\<close>

section \<open>Types\<close>

type_synonym bytes = "octet list"

datatype MempoolStatus = MempoolPending | MempoolCompleted | MempoolFailed | MempoolMined

record MempoolEntry =
  ME_ID :: int
  ME_TxHash :: bytes
  ME_FromAddress :: string
  ME_ContractAddress :: string
  ME_RecipientAddress :: string
  ME_Nonce :: u64
  ME_Input :: bytes
  ME_AmountData :: bytes
  ME_Status :: MempoolStatus
  ME_ErrorMessage :: string

record EvmTransaction =
  Tx_TxHash :: bytes
  Tx_FromAddress :: string
  Tx_ToAddress :: string
  Tx_Nonce :: u64
  Tx_Input :: bytes
  Tx_ValueWei :: string
  Tx_Status :: "8 word"
  Tx_BlockNumber :: u64
  Tx_BlockHash :: bytes
  Tx_TxIndex :: nat
  Tx_GasUsed :: u64
  Tx_ErrorMessage :: string

record EvmLog =
  Lg_TxHash :: bytes
  Lg_LogIndex :: nat
  Lg_Address :: bytes
  Lg_Topics :: "bytes list"
  Lg_Data :: bytes
  Lg_BlockNumber :: u64
  Lg_BlockHash :: bytes
  Lg_TxIndex :: nat
  Lg_Removed :: bool
  Lg_BlockTimestamp :: u64

section \<open>Rows\<close>

record EvmTransactionDao =
  ET_TxHash :: bytes
  ET_FromAddress :: string
  ET_ToAddress :: string
  ET_Nonce :: u64
  ET_Input :: bytes
  ET_ValueWei :: string
  ET_Status :: "8 word"
  ET_BlockNumber :: u64
  ET_BlockHash :: bytes
  ET_TxIndex :: nat
  ET_GasUsed :: u64
  ET_ErrorMessage :: "string option"
  ET_CreatedAt :: time

record EvmStateDao =
  ES_ID :: int
  ES_LatestBlock :: u64

record EvmLogDao =
  EL_TxHash :: bytes
  EL_LogIndex :: nat
  EL_Address :: bytes
  EL_Topic0 :: "bytes option"
  EL_Topic1 :: "bytes option"
  EL_Topic2 :: "bytes option"
  EL_Topic3 :: "bytes option"
  EL_Data :: "bytes option"
  EL_BlockNumber :: u64
  EL_BlockHash :: bytes
  EL_TxIndex :: nat
  EL_Removed :: bool
  EL_BlockTimestamp :: u64

record MempoolEntryDao =
  MP_ID :: int
  MP_TxHash :: bytes
  MP_FromAddress :: string
  MP_ContractAddress :: string
  MP_RecipientAddress :: string
  MP_Nonce :: u64
  MP_Input :: bytes
  MP_AmountData :: bytes
  MP_Status :: MempoolStatus
  MP_ErrorMessage :: "string option"
  MP_CreatedAt :: time
  MP_UpdatedAt :: time

definition stringPtrOrNil :: "string \<Rightarrow> string option" where
  "stringPtrOrNil v = (if v = '''' then None else Some v)"

definition bytesPtr :: "bytes \<Rightarrow> bytes option" where
  "bytesPtr data = (if data = [] then None else Some data)"

definition derefBytes :: "bytes option \<Rightarrow> bytes" where
  "derefBytes data = (case data of None \<Rightarrow> [] | Some d \<Rightarrow> d)"

definition topicAt :: "bytes list \<Rightarrow> nat \<Rightarrow> bytes option" where
  "topicAt topics idx = (if idx \<ge> length topics then None else bytesPtr (topics ! idx))"

text \<open>\<open>created_at\<close> is filled in by the column's default, the time of the insertion.\<close>

definition toEvmTransactionDao :: "time \<Rightarrow> EvmTransaction \<Rightarrow> EvmTransactionDao" where
  "toEvmTransactionDao now tx =
     \<lparr>ET_TxHash = Tx_TxHash tx, ET_FromAddress = Tx_FromAddress tx, ET_ToAddress = Tx_ToAddress tx,
      ET_Nonce = Tx_Nonce tx, ET_Input = Tx_Input tx, ET_ValueWei = Tx_ValueWei tx,
      ET_Status = Tx_Status tx, ET_BlockNumber = Tx_BlockNumber tx, ET_BlockHash = Tx_BlockHash tx,
      ET_TxIndex = Tx_TxIndex tx, ET_GasUsed = Tx_GasUsed tx,
      ET_ErrorMessage = stringPtrOrNil (Tx_ErrorMessage tx), ET_CreatedAt = now\<rparr>"

definition fromEvmTransactionDao :: "EvmTransactionDao \<Rightarrow> EvmTransaction" where
  "fromEvmTransactionDao dao =
     \<lparr>Tx_TxHash = ET_TxHash dao, Tx_FromAddress = ET_FromAddress dao, Tx_ToAddress = ET_ToAddress dao,
      Tx_Nonce = ET_Nonce dao, Tx_Input = ET_Input dao, Tx_ValueWei = ET_ValueWei dao,
      Tx_Status = ET_Status dao, Tx_BlockNumber = ET_BlockNumber dao, Tx_BlockHash = ET_BlockHash dao,
      Tx_TxIndex = ET_TxIndex dao, Tx_GasUsed = ET_GasUsed dao,
      Tx_ErrorMessage = (case ET_ErrorMessage dao of None \<Rightarrow> '''' | Some m \<Rightarrow> m)\<rparr>"

definition toEvmLogDao :: "EvmLog \<Rightarrow> EvmLogDao" where
  "toEvmLogDao lg =
     \<lparr>EL_TxHash = Lg_TxHash lg, EL_LogIndex = Lg_LogIndex lg, EL_Address = Lg_Address lg,
      EL_Topic0 = topicAt (Lg_Topics lg) 0, EL_Topic1 = topicAt (Lg_Topics lg) 1,
      EL_Topic2 = topicAt (Lg_Topics lg) 2, EL_Topic3 = topicAt (Lg_Topics lg) 3,
      EL_Data = bytesPtr (Lg_Data lg), EL_BlockNumber = Lg_BlockNumber lg,
      EL_BlockHash = Lg_BlockHash lg, EL_TxIndex = Lg_TxIndex lg, EL_Removed = Lg_Removed lg,
      EL_BlockTimestamp = Lg_BlockTimestamp lg\<rparr>"

text \<open>A topic column is appended when it is neither NULL nor empty.\<close>

definition add_topic :: "bytes option \<Rightarrow> bytes list" where
  "add_topic t = (case t of None \<Rightarrow> [] | Some b \<Rightarrow> if length b > 0 then [b] else [])"

definition fromEvmLogDao :: "EvmLogDao \<Rightarrow> EvmLog" where
  "fromEvmLogDao dao =
     \<lparr>Lg_TxHash = EL_TxHash dao, Lg_LogIndex = EL_LogIndex dao, Lg_Address = EL_Address dao,
      Lg_Topics = add_topic (EL_Topic0 dao) @ add_topic (EL_Topic1 dao) @ add_topic (EL_Topic2 dao) @
        add_topic (EL_Topic3 dao),
      Lg_Data = derefBytes (EL_Data dao), Lg_BlockNumber = EL_BlockNumber dao,
      Lg_BlockHash = EL_BlockHash dao, Lg_TxIndex = EL_TxIndex dao, Lg_Removed = EL_Removed dao,
      Lg_BlockTimestamp = EL_BlockTimestamp dao\<rparr>"

text \<open>The entry a mempool row is loaded as; \<open>GetMempoolEntriesByStatus\<close> and the claim share it.\<close>

definition fromMempoolEntryDao :: "MempoolEntryDao \<Rightarrow> MempoolEntry" where
  "fromMempoolEntryDao dao =
     \<lparr>ME_ID = MP_ID dao, ME_TxHash = MP_TxHash dao, ME_FromAddress = MP_FromAddress dao,
      ME_ContractAddress = MP_ContractAddress dao, ME_RecipientAddress = MP_RecipientAddress dao,
      ME_Nonce = MP_Nonce dao, ME_Input = MP_Input dao, ME_AmountData = MP_AmountData dao,
      ME_Status = MP_Status dao,
      ME_ErrorMessage = (case MP_ErrorMessage dao of None \<Rightarrow> '''' | Some m \<Rightarrow> m)\<rparr>"

lemma tx_dao_roundtrip [simp]: "fromEvmTransactionDao (toEvmTransactionDao now tx) = tx"
  by (simp add: fromEvmTransactionDao_def toEvmTransactionDao_def stringPtrOrNil_def)

text \<open>A log survives storage when it has at most four topics and none of them is empty.\<close>

lemma log_dao_roundtrip:
  assumes "length (Lg_Topics lg) \<le> 4" "[] \<notin> set (Lg_Topics lg)"
  shows "fromEvmLogDao (toEvmLogDao lg) = lg"
proof -
  have "add_topic (topicAt ts 0) @ add_topic (topicAt ts 1) @ add_topic (topicAt ts 2) @ add_topic (topicAt ts 3) = ts"
    if "length ts \<le> 4" "[] \<notin> set ts" for ts :: "bytes list"
    using that by (cases ts rule: list.exhaust; cases "tl ts"; cases "tl (tl ts)"; cases "tl (tl (tl ts))")
      (auto simp: add_topic_def topicAt_def bytesPtr_def)
  from this[OF assms] show ?thesis
    by (simp add: fromEvmLogDao_def toEvmLogDao_def bytesPtr_def derefBytes_def)
qed

section \<open>The database\<close>

record evm_db = pg +
  mp_rows :: "MempoolEntryDao list"
  mp_seq :: int
  evm_txs :: "EvmTransactionDao list"
  evm_logs :: "EvmLogDao list"
  evm_state :: "EvmStateDao list"

definition log_key :: "EvmLogDao \<Rightarrow> bytes \<times> nat" where
  "log_key d = (EL_TxHash d, EL_LogIndex d)"

definition sql_ErrNoRows :: goerr where
  "sql_ErrNoRows = Sentinel ''sql: no rows in result set''"

text \<open>Big-endian bytes of a \<open>uint64\<close>.\<close>

definition PutUint64 :: "u64 \<Rightarrow> bytes" where
  "PutUint64 n = map (\<lambda>i. of_nat (unat n div 2 ^ (8 * i) mod 256)) [7, 6, 5, 4, 3, 2, 1, 0]"

definition ComputeBlockHash :: "(bytes \<Rightarrow> bytes) \<Rightarrow> u64 \<Rightarrow> u64 \<Rightarrow> bytes" where
  "ComputeBlockHash sha256 chainID blockNumber = sha256 (PutUint64 chainID @ PutUint64 blockNumber)"

section \<open>Blocks\<close>

record 'w pendingBlock =
  pb_tx :: 'w
  pb_blockNumber :: u64
  pb_blockHash :: bytes
  pb_done :: bool

definition NewBlock ::
  "(bytes \<Rightarrow> bytes) \<Rightarrow> u64 \<Rightarrow> ('a evm_db_scheme, goerr + 'a evm_db_scheme pendingBlock) state" where
  "NewBlock sha256 chainID = do {
     b \<leftarrow> pg_exec;
     case b of
       Fails e \<Rightarrow> ret (Inl (Errorf ''begin tx'' (Err e)))
     | LostAck e \<Rightarrow> ret (Inl (Errorf ''begin tx'' (Err e)))
     | Works \<Rightarrow> do {
         tx \<leftarrow> State_Monad.get;
         q \<leftarrow> query ''lock evm_state'' (\<lambda>w. row_of ES_ID 1 (evm_state w));
         (case q of
            Inl e \<Rightarrow> do { modify (rollback tx); ret (Inl e) }
          | Inr None \<Rightarrow> do { modify (rollback tx); ret (Inl (Errorf ''lock evm_state'' sql_ErrNoRows)) }
          | Inr (Some st) \<Rightarrow>
              let nextBlock = ES_LatestBlock st + 1
              in ret (Inr \<lparr>pb_tx = tx, pb_blockNumber = nextBlock,
                   pb_blockHash = ComputeBlockHash sha256 chainID nextBlock, pb_done = False\<rparr>)) } }"

definition claimable :: "int \<Rightarrow> MempoolEntryDao list \<Rightarrow> MempoolEntryDao list" where
  "claimable maxTxs rows =
     limit_offset maxTxs 0 (sort_key MP_ID (filter (\<lambda>r. MP_Status r \<in> {MempoolCompleted, MempoolFailed}) rows))"

definition mark_mined :: "int set \<Rightarrow> time \<Rightarrow> MempoolEntryDao list \<Rightarrow> MempoolEntryDao list" where
  "mark_mined ids now rows =
     update_where (\<lambda>r. MP_ID r \<in> ids) (\<lambda>r. r\<lparr>MP_Status := MempoolMined, MP_UpdatedAt := now\<rparr>) rows"

definition ClaimMempoolEntries :: "int \<Rightarrow> ('a evm_db_scheme, goerr + MempoolEntry list) state" where
  "ClaimMempoolEntries maxTxs = do {
     q \<leftarrow> query ''select claimable mempool entries'' (\<lambda>w. claimable maxTxs (mp_rows w));
     case q of
       Inl e \<Rightarrow> ret (Inl e)
     | Inr daos \<Rightarrow>
         if daos = [] then ret (Inr [])
         else do {
           u \<leftarrow> exec ''mark mempool entries mined''
                  (\<lambda>w. w\<lparr>mp_rows := mark_mined (set (map MP_ID daos)) (pg_now w) (mp_rows w)\<rparr>);
           (case u of
              Inl e \<Rightarrow> ret (Inl e)
            | Inr _ \<Rightarrow> ret (Inr (map fromMempoolEntryDao daos))) } }"

definition AddEvmTransaction :: "EvmTransaction \<Rightarrow> ('a evm_db_scheme, goerr + unit) state" where
  "AddEvmTransaction tx =
     exec ''save evm transaction''
       (\<lambda>w. w\<lparr>evm_txs := insert_ignore ET_TxHash (toEvmTransactionDao (pg_now w) tx) (evm_txs w)\<rparr>)"

definition AddEvmLog :: "EvmLog \<Rightarrow> ('a evm_db_scheme, goerr + unit) state" where
  "AddEvmLog lg =
     exec ''save evm log'' (\<lambda>w. w\<lparr>evm_logs := insert_ignore log_key (toEvmLogDao lg) (evm_logs w)\<rparr>)"

definition Finalize ::
  "'a evm_db_scheme pendingBlock \<Rightarrow> ('a evm_db_scheme, (goerr + unit) \<times> 'a evm_db_scheme pendingBlock) state" where
  "Finalize b =
     (if pb_done b then ret (Inr (), b)
      else do {
        let b' = b\<lparr>pb_done := True\<rparr>;
        u \<leftarrow> exec ''update evm_state block number'' (\<lambda>w. w\<lparr>evm_state :=
               update_where (\<lambda>r. ES_ID r = 1) (\<lambda>r. r\<lparr>ES_LatestBlock := pb_blockNumber b\<rparr>) (evm_state w)\<rparr>);
        (case u of
           Inl e \<Rightarrow> do { modify (rollback (pb_tx b)); ret (Inl e, b') }
         | Inr _ \<Rightarrow> do {
             c \<leftarrow> pg_exec;
             (case c of
                Works \<Rightarrow> ret (Inr (), b')
              | Fails e \<Rightarrow> do { modify (rollback (pb_tx b)); ret (Inl (Err e), b') }
              | LostAck e \<Rightarrow> ret (Inl (Err e), b')) }) })"

definition Abort :: "'a evm_db_scheme pendingBlock \<Rightarrow> ('a evm_db_scheme, unit) state" where
  "Abort b = (if pb_done b then ret () else modify (rollback (pb_tx b)))"

section \<open>Queries\<close>

definition GetLatestEvmBlockNumber :: "('a evm_db_scheme, goerr + u64) state" where
  "GetLatestEvmBlockNumber = do {
     q \<leftarrow> query ''get latest block number'' (\<lambda>w. row_of ES_ID 1 (evm_state w));
     case q of
       Inl e \<Rightarrow> ret (Inl e)
     | Inr None \<Rightarrow> ret (Inr 0)
     | Inr (Some st) \<Rightarrow> ret (Inr (ES_LatestBlock st)) }"

definition GetEvmTransaction :: "bytes \<Rightarrow> ('a evm_db_scheme, goerr + EvmTransaction option) state" where
  "GetEvmTransaction txHash =
     query ''get evm transaction'' (\<lambda>w. map_option fromEvmTransactionDao (row_of ET_TxHash txHash (evm_txs w)))"

definition GetBlockNumberByHash :: "bytes \<Rightarrow> ('a evm_db_scheme, goerr + u64) state" where
  "GetBlockNumberByHash blockHash =
     query ''get block number by hash''
       (\<lambda>w. case row_of ET_BlockHash blockHash (evm_txs w) of None \<Rightarrow> 0 | Some d \<Rightarrow> ET_BlockNumber d)"

definition GetEvmTransactionCount :: "string \<Rightarrow> ('a evm_db_scheme, goerr + u64) state" where
  "GetEvmTransactionCount fromAddress =
     query (''get transaction count for '' @ fromAddress)
       (\<lambda>w. case map ET_Nonce (filter (\<lambda>r. ET_FromAddress r = fromAddress) (evm_txs w)) of
          [] \<Rightarrow> 0
        | n # ns \<Rightarrow> foldl max n ns + 1)"

definition GetEvmLogsByTxHash :: "bytes \<Rightarrow> ('a evm_db_scheme, goerr + EvmLog list) state" where
  "GetEvmLogsByTxHash txHash =
     query ''get evm logs by tx hash'' (\<lambda>w. map fromEvmLogDao
       (sort_key EL_LogIndex (filter (\<lambda>d. EL_TxHash d = txHash) (evm_logs w))))"

definition evmLogsQueryLimit :: int where "evmLogsQueryLimit = 10000"

text \<open>\<open>sort_key\<close> is stable, so sorting by the last column first orders by all three.\<close>

definition order_logs :: "EvmLogDao list \<Rightarrow> EvmLogDao list" where
  "order_logs ds = sort_key EL_BlockNumber (sort_key EL_TxIndex (sort_key EL_LogIndex ds))"

definition GetEvmLogs ::
  "bytes option \<Rightarrow> bytes option \<Rightarrow> u64 \<Rightarrow> u64 \<Rightarrow> ('a evm_db_scheme, goerr + EvmLog list) state" where
  "GetEvmLogs address topic0 fromBlock toBlock =
     query ''get evm logs'' (\<lambda>w. map fromEvmLogDao (limit_offset evmLogsQueryLimit 0 (order_logs
       (filter (\<lambda>d. fromBlock \<le> EL_BlockNumber d \<and> EL_BlockNumber d \<le> toBlock \<and>
          (case address of None \<Rightarrow> True | Some a \<Rightarrow> EL_Address d = a) \<and>
          (case topic0 of None \<Rightarrow> True | Some t \<Rightarrow> EL_Topic0 d = Some t)) (evm_logs w)))))"

section \<open>The mempool\<close>

text \<open>\<open>nextval\<close> is called for the proposed row, also when the row then conflicts.\<close>

definition InsertMempoolEntry :: "MempoolEntry \<Rightarrow> ('a evm_db_scheme, goerr + unit) state" where
  "InsertMempoolEntry e =
     exec ''insert mempool entry'' (\<lambda>w. w\<lparr>mp_seq := mp_seq w + 1, mp_rows := insert_ignore MP_TxHash
       \<lparr>MP_ID = mp_seq w + 1, MP_TxHash = ME_TxHash e, MP_FromAddress = ME_FromAddress e,
        MP_ContractAddress = ME_ContractAddress e, MP_RecipientAddress = ME_RecipientAddress e,
        MP_Nonce = ME_Nonce e, MP_Input = ME_Input e, MP_AmountData = ME_AmountData e,
        MP_Status = MempoolPending, MP_ErrorMessage = None, MP_CreatedAt = pg_now w, MP_UpdatedAt = pg_now w\<rparr>
       (mp_rows w)\<rparr>)"

definition CompleteMempoolEntry :: "bytes \<Rightarrow> ('a evm_db_scheme, goerr + unit) state" where
  "CompleteMempoolEntry txHash =
     exec ''complete mempool entry'' (\<lambda>w. w\<lparr>mp_rows :=
       update_where (\<lambda>r. MP_TxHash r = txHash \<and> MP_Status r = MempoolPending)
         (\<lambda>r. r\<lparr>MP_Status := MempoolCompleted, MP_UpdatedAt := pg_now w\<rparr>) (mp_rows w)\<rparr>)"

definition FailMempoolEntry :: "bytes \<Rightarrow> string \<Rightarrow> ('a evm_db_scheme, goerr + unit) state" where
  "FailMempoolEntry txHash errMsg =
     exec ''fail mempool entry'' (\<lambda>w. w\<lparr>mp_rows :=
       update_where (\<lambda>r. MP_TxHash r = txHash \<and> MP_Status r = MempoolPending)
         (\<lambda>r. r\<lparr>MP_Status := MempoolFailed, MP_ErrorMessage := Some errMsg, MP_UpdatedAt := pg_now w\<rparr>) (mp_rows w)\<rparr>)"

primrec status_text :: "MempoolStatus \<Rightarrow> string" where
  "status_text MempoolPending = ''pending''"
| "status_text MempoolCompleted = ''completed''"
| "status_text MempoolFailed = ''failed''"
| "status_text MempoolMined = ''mined''"

definition GetMempoolEntriesByStatus ::
  "MempoolStatus \<Rightarrow> int \<Rightarrow> ('a evm_db_scheme, goerr + MempoolEntry list) state" where
  "GetMempoolEntriesByStatus status limit =
     query (''get mempool entries by status '' @ [CHR 0x22] @ status_text status @ [CHR 0x22]) (\<lambda>w. map fromMempoolEntryDao
       (limit_offset limit 0 (sort_key MP_ID (filter (\<lambda>r. MP_Status r = status) (mp_rows w)))))"

end
