(* ===== verification/Ethrpc_Miner.thy ===== *)
theory Ethrpc_Miner
  imports Ethrpc_Store
begin

text \<open>
  \<open>pkg/ethrpc/miner\<close>: one round of the miner, which seals the finished mempool entries into a
  synthetic block.  The functions of go-ethereum's \<open>common\<close> and \<open>crypto\<close> packages are the record
  \<open>GethCommon\<close>.  The ticker loop calls \<open>mine\<close> over and over and only logs its error.
\<close>

section \<open>Building a block\<close>

record GethCommon =
  G_HexToAddress :: "string \<Rightarrow> bytes"
  G_AddressHex :: "bytes \<Rightarrow> string"
  G_BytesToHash :: "bytes \<Rightarrow> bytes"
  G_HashHex :: "bytes \<Rightarrow> string"
  G_LeftPadBytes :: "bytes \<Rightarrow> nat \<Rightarrow> bytes"
  G_Keccak256Hash :: "bytes \<Rightarrow> bytes"

definition bytes_of_string :: "string \<Rightarrow> bytes" where
  "bytes_of_string s = map (\<lambda>c. of_nat (of_char c)) s"

definition transferEventTopic :: "GethCommon \<Rightarrow> bytes" where
  "transferEventTopic G = G_Keccak256Hash G (bytes_of_string ''Transfer(address,address,uint256)'')"

definition evmWordSize :: nat where "evmWordSize = 32"

record MinerConfig =
  mc_chainID :: u64
  mc_gasLimit :: u64
  mc_maxTxsPerBlock :: int

definition txStatus :: "bool \<Rightarrow> 8 word" where
  "txStatus succeeded = (if succeeded then 1 else 0)"

definition buildTransferLog ::
  "GethCommon \<Rightarrow> MempoolEntry \<Rightarrow> 'w pendingBlock \<Rightarrow> nat \<Rightarrow> nat \<Rightarrow> u64 \<Rightarrow> EvmLog" where
  "buildTransferLog G e block txIndex logIndex blockTimestamp =
     (let fromAddr = G_HexToAddress G (ME_FromAddress e);
          toAddr = G_HexToAddress G (ME_RecipientAddress e);
          fromTopic = G_BytesToHash G (G_LeftPadBytes G fromAddr evmWordSize);
          toTopic = G_BytesToHash G (G_LeftPadBytes G toAddr evmWordSize);
          amountData = G_LeftPadBytes G (ME_AmountData e) evmWordSize;
          contractAddr = G_HexToAddress G (ME_ContractAddress e)
      in \<lparr>Lg_TxHash = ME_TxHash e, Lg_LogIndex = logIndex, Lg_Address = contractAddr,
          Lg_Topics = [transferEventTopic G, fromTopic, toTopic], Lg_Data = amountData,
          Lg_BlockNumber = pb_blockNumber block, Lg_BlockHash = pb_blockHash block,
          Lg_TxIndex = txIndex, Lg_Removed = False, Lg_BlockTimestamp = blockTimestamp\<rparr>)"

text \<open>The receipt of the entry at position \<open>txIndex\<close>.\<close>

definition mined_tx :: "u64 \<Rightarrow> 'w pendingBlock \<Rightarrow> nat \<Rightarrow> MempoolEntry \<Rightarrow> EvmTransaction" where
  "mined_tx gasLimit block txIndex e =
     (let succeeded = (ME_Status e = MempoolCompleted)
      in \<lparr>Tx_TxHash = ME_TxHash e, Tx_FromAddress = ME_FromAddress e, Tx_ToAddress = ME_ContractAddress e,
          Tx_Nonce = ME_Nonce e, Tx_Input = ME_Input e, Tx_ValueWei = ''0'', Tx_Status = txStatus succeeded,
          Tx_BlockNumber = pb_blockNumber block, Tx_BlockHash = pb_blockHash block, Tx_TxIndex = txIndex,
          Tx_GasUsed = gasLimit, Tx_ErrorMessage = (if succeeded then '''' else ME_ErrorMessage e)\<rparr>)"

fun mine_entries ::
  "GethCommon \<Rightarrow> u64 \<Rightarrow> 'w pendingBlock \<Rightarrow> u64 \<Rightarrow> nat \<Rightarrow> nat \<Rightarrow> MempoolEntry list \<Rightarrow> ('a evm_db_scheme, goerr + unit) state" where
  "mine_entries G gasLimit block ts i logIndex [] = ret (Inr ())"
| "mine_entries G gasLimit block ts i logIndex (e # es) = do {
     r \<leftarrow> AddEvmTransaction (mined_tx gasLimit block i e);
     case r of
       Inl er \<Rightarrow> ret (Inl er)
     | Inr _ \<Rightarrow>
         if ME_Status e \<noteq> MempoolCompleted then mine_entries G gasLimit block ts (Suc i) logIndex es
         else do {
           r' \<leftarrow> AddEvmLog (buildTransferLog G e block i logIndex ts);
           (case r' of
              Inl er \<Rightarrow> ret (Inl er)
            | Inr _ \<Rightarrow> mine_entries G gasLimit block ts (Suc i) (Suc logIndex) es) } }"

definition mine_block ::
  "GethCommon \<Rightarrow> MinerConfig \<Rightarrow> 'a evm_db_scheme pendingBlock
     \<Rightarrow> ('a evm_db_scheme, (goerr + unit) \<times> 'a evm_db_scheme pendingBlock) state" where
  "mine_block G m block = do {
     c \<leftarrow> ClaimMempoolEntries (mc_maxTxsPerBlock m);
     case c of
       Inl e \<Rightarrow> ret (Inl e, block)
     | Inr entries \<Rightarrow>
         if entries = [] then ret (Inr (), block)
         else do {
           now \<leftarrow> gets pg_now;
           r \<leftarrow> mine_entries G (mc_gasLimit m) block (of_int (now div 10 ^ 9)) 0 0 entries;
           (case r of
              Inl e \<Rightarrow> ret (Inl e, block)
            | Inr _ \<Rightarrow> Finalize block) } }"

text \<open>\<open>defer block.Abort(ctx)\<close> runs on every way out of the body.\<close>

definition mine :: "GethCommon \<Rightarrow> (bytes \<Rightarrow> bytes) \<Rightarrow> MinerConfig \<Rightarrow> ('a evm_db_scheme, goerr + unit) state" where
  "mine G sha256 m = do {
     nb \<leftarrow> NewBlock sha256 (mc_chainID m);
     case nb of
       Inl e \<Rightarrow> ret (Inl e)
     | Inr block \<Rightarrow> do {
         rb \<leftarrow> mine_block G m block;
         Abort (snd rb);
         ret (fst rb) } }"

section \<open>What a round does\<close>

text \<open>The tables after a sealed block: the receipts and logs of the claimed entries.\<close>

fun seal ::
  "GethCommon \<Rightarrow> u64 \<Rightarrow> 'w pendingBlock \<Rightarrow> u64 \<Rightarrow> time \<Rightarrow> nat \<Rightarrow> nat \<Rightarrow> MempoolEntry list
     \<Rightarrow> EvmTransactionDao list \<times> EvmLogDao list \<Rightarrow> EvmTransactionDao list \<times> EvmLogDao list" where
  "seal G gas block ts now i li [] t = t"
| "seal G gas block ts now i li (e # es) t =
     (let txs = insert_ignore ET_TxHash (toEvmTransactionDao now (mined_tx gas block i e)) (fst t)
      in if ME_Status e \<noteq> MempoolCompleted then seal G gas block ts now (Suc i) li es (txs, snd t)
         else seal G gas block ts now (Suc i) (Suc li) es
                (txs, insert_ignore log_key (toEvmLogDao (buildTransferLog G e block i li ts)) (snd t)))"

text \<open>A statement uses up an entry of the schedule and has its effect or none.\<close>

lemma pg_exec_faults:
  assumes "run_state pg_exec w = (o', w')"
  obtains fs where "w' = w\<lparr>pg_faults := fs\<rparr>"
proof -
  have "\<exists>fs. w' = w\<lparr>pg_faults := fs\<rparr>"
  proof (cases "pg_faults w")
    case Nil
    with assms have "w' = w\<lparr>pg_faults := []\<rparr>" by simp
    then show ?thesis by blast
  next
    case (Cons f fs)
    with assms show ?thesis by auto
  qed
  with that show thesis by blast
qed

lemma exec_faults:
  assumes "run_state (exec what f) w = (r, w')"
  obtains (took) fs where "w' = f (w\<lparr>pg_faults := fs\<rparr>)" | (failed) fs e where "r = Inl e" "w' = w\<lparr>pg_faults := fs\<rparr>"
proof -
  obtain o' w1 where o': "run_state pg_exec w = (o', w1)" by (rule run_obtain)
  then obtain fs where fs: "w1 = w\<lparr>pg_faults := fs\<rparr>" by (rule pg_exec_faults)
  show thesis
  proof (cases o')
    case (Fails e)
    with assms o' fs failed show thesis by (auto simp: exec_def)
  qed (use assms o' fs that in \<open>auto simp: exec_def\<close>)
qed

lemma query_faults:
  assumes "run_state (query what g) w = (r, w')"
  obtains fs where "w' = w\<lparr>pg_faults := fs\<rparr>" "\<forall>x. r = Inr x \<longrightarrow> x = g w'"
proof -
  obtain o' w1 where o': "run_state pg_exec w = (o', w1)" by (rule run_obtain)
  then obtain fs where fs: "w1 = w\<lparr>pg_faults := fs\<rparr>" by (rule pg_exec_faults)
  with assms o' that show thesis by (cases o') (auto simp: query_def)
qed

lemma mine_entries_seal:
  assumes "run_state (mine_entries G gas block ts i li es) w = (r, w')"
  shows "pg_now w' = pg_now w \<and> (r = Inr () \<longrightarrow> (\<exists>fs. w' = w\<lparr>pg_faults := fs,
    evm_txs := fst (seal G gas block ts (pg_now w) i li es (evm_txs w, evm_logs w)),
    evm_logs := snd (seal G gas block ts (pg_now w) i li es (evm_txs w, evm_logs w))\<rparr>))"
  using assms
proof (induction es arbitrary: i li w)
  case Nil
  then have "w' = w" by simp
  then show ?case by (auto intro!: exI[of _ "pg_faults w"])
next
  case (Cons e es)
  obtain r1 w1 where 1: "run_state (AddEvmTransaction (mined_tx gas block i e)) w = (r1, w1)" by (rule run_obtain)
  have now: "pg_now w1 = pg_now w"
    using 1 unfolding AddEvmTransaction_def by (rule exec_faults) auto
  show ?case
  proof (cases r1)
    case (Inl er)
    with Cons.prems 1 have "r = Inl er" "w' = w1" by auto
    with now show ?thesis by simp
  next
    case (Inr u)
    have w1: "\<exists>fs. w1 = w\<lparr>pg_faults := fs, evm_txs := insert_ignore ET_TxHash (toEvmTransactionDao (pg_now w) (mined_tx gas block i e)) (evm_txs w)\<rparr>"
      using 1 Inr unfolding AddEvmTransaction_def by (elim exec_faults) auto
    show ?thesis
    proof (cases "ME_Status e = MempoolCompleted")
      case False
      with Cons.prems 1 Inr have "run_state (mine_entries G gas block ts (Suc i) li es) w1 = (r, w')" by simp
      from Cons.IH[OF this] w1 False show ?thesis by (auto simp: Let_def)
    next
      case True
      obtain r2 w2 where 2: "run_state (AddEvmLog (buildTransferLog G e block i li ts)) w1 = (r2, w2)" by (rule run_obtain)
      have now2: "pg_now w2 = pg_now w1"
        using 2 unfolding AddEvmLog_def by (rule exec_faults) auto
      show ?thesis
      proof (cases r2)
        case (Inl er)
        with Cons.prems 1 \<open>r1 = Inr u\<close> 2 True have "r = Inl er" "w' = w2" by auto
        with now now2 show ?thesis by simp
      next
        case (Inr u')
        have w2: "\<exists>fs. w2 = w1\<lparr>pg_faults := fs, evm_logs := insert_ignore log_key (toEvmLogDao (buildTransferLog G e block i li ts)) (evm_logs w1)\<rparr>"
          using 2 Inr unfolding AddEvmLog_def by (elim exec_faults) auto
        from Cons.prems 1 \<open>r1 = Inr u\<close> 2 True Inr
        have "run_state (mine_entries G gas block ts (Suc i) (Suc li) es) w2 = (r, w')" by simp
        from Cons.IH[OF this] w1 w2 True show ?thesis by (auto simp: Let_def)
      qed
    qed
  qed
qed

lemma claim_faults:
  assumes "run_state (ClaimMempoolEntries n) w = (r, w')"
  shows "pg_now w' = pg_now w \<and> (\<forall>es. r = Inr es \<longrightarrow> es = map fromMempoolEntryDao (claimable n (mp_rows w)) \<and>
    (\<exists>fs. w' = w\<lparr>pg_faults := fs, mp_rows := mark_mined (set (map MP_ID (claimable n (mp_rows w)))) (pg_now w) (mp_rows w)\<rparr>))"
proof -
  obtain q w1 where q: "run_state (query ''select claimable mempool entries'' (\<lambda>w. claimable n (mp_rows w))) w = (q, w1)"
    by (rule run_obtain)
  then obtain fs where w1: "w1 = w\<lparr>pg_faults := fs\<rparr>" "\<forall>x. q = Inr x \<longrightarrow> x = claimable n (mp_rows w1)"
    by (rule query_faults)
  show ?thesis
  proof (cases q)
    case (Inl e)
    with assms q w1 show ?thesis by (auto simp: ClaimMempoolEntries_def)
  next
    case (Inr ds)
    with w1 have ds: "ds = claimable n (mp_rows w)" by simp
    show ?thesis
    proof (cases "ds = []")
      case True
      have "mark_mined {} (pg_now w) rows = rows" for rows
        by (simp add: mark_mined_def update_where_def)
      with True assms q Inr w1 ds show ?thesis by (auto simp: ClaimMempoolEntries_def)
    next
      case False
      let ?f = "\<lambda>w. w\<lparr>mp_rows := mark_mined (set (map MP_ID ds)) (pg_now w) (mp_rows w)\<rparr>"
      obtain u w2 where u: "run_state (exec ''mark mempool entries mined'' ?f) w1 = (u, w2)" by (rule run_obtain)
      from u assms q Inr False have w2: "w' = w2" "r = (case u of Inl e \<Rightarrow> Inl e | Inr _ \<Rightarrow> Inr (map fromMempoolEntryDao ds))"
        by (auto simp: ClaimMempoolEntries_def split: sum.splits)
      from u show ?thesis
      proof (cases rule: exec_faults)
        case (took fs')
        with w2 w1 ds show ?thesis by (auto split: sum.splits)
      next
        case (failed fs' e)
        with w2 w1 show ?thesis by simp
      qed
    qed
  qed
qed

text \<open>
  A round leaves the tables alone or seals one block; the latter is possible with an error too, when
  the answer to the commit is lost.
\<close>

definition sealed_round ::
  "GethCommon \<Rightarrow> (bytes \<Rightarrow> bytes) \<Rightarrow> MinerConfig \<Rightarrow> EvmStateDao \<Rightarrow> 'a evm_db_scheme \<Rightarrow> 'a evm_db_scheme" where
  "sealed_round G sha256 m st w =
     (let ds = claimable (mc_maxTxsPerBlock m) (mp_rows w);
          n = ES_LatestBlock st + 1;
          block = \<lparr>pb_tx = (), pb_blockNumber = n, pb_blockHash = ComputeBlockHash sha256 (mc_chainID m) n, pb_done = False\<rparr>;
          t = seal G (mc_gasLimit m) block (of_int (pg_now w div 10 ^ 9)) (pg_now w) 0 0
                (map fromMempoolEntryDao ds) (evm_txs w, evm_logs w)
      in w\<lparr>mp_rows := mark_mined (set (map MP_ID ds)) (pg_now w) (mp_rows w),
           evm_txs := fst t, evm_logs := snd t,
           evm_state := update_where (\<lambda>r. ES_ID r = 1) (\<lambda>r. r\<lparr>ES_LatestBlock := n\<rparr>) (evm_state w)\<rparr>)"

lemma seal_block_cong:
  assumes "pb_blockNumber b = pb_blockNumber b'" "pb_blockHash b = pb_blockHash b'"
  shows "seal G gas b ts now i li es t = seal G gas b' ts now i li es t"
  using assms by (induction es arbitrary: i li t) (simp_all add: mined_tx_def buildTransferLog_def Let_def)

lemma rollback_faults: "pg_now w = pg_now v \<Longrightarrow> \<exists>fs'. rollback (v\<lparr>pg_faults := fs\<rparr>) w = v\<lparr>pg_faults := fs'\<rparr>"
  by (auto simp: rollback_def)

lemma NewBlock_faults:
  assumes "run_state (NewBlock sha256 chainID) w = (r, w')"
  shows "\<exists>fs. w' = w\<lparr>pg_faults := fs\<rparr> \<and> (\<forall>b. r = Inr b \<longrightarrow>
    (\<exists>fs' st. row_of ES_ID 1 (evm_state w) = Some st \<and> b = \<lparr>pb_tx = w\<lparr>pg_faults := fs'\<rparr>, pb_blockNumber = ES_LatestBlock st + 1,
       pb_blockHash = ComputeBlockHash sha256 chainID (ES_LatestBlock st + 1), pb_done = False\<rparr>))"
proof -
  obtain b w1 where b: "run_state pg_exec w = (b, w1)" by (rule run_obtain)
  then obtain fs where w1: "w1 = w\<lparr>pg_faults := fs\<rparr>" by (rule pg_exec_faults)
  show ?thesis
  proof (cases "b = Works")
    case False
    with assms b w1 show ?thesis by (cases b) (auto simp: NewBlock_def)
  next
    case True
    obtain q w2 where q: "run_state (query ''lock evm_state'' (\<lambda>w. row_of ES_ID 1 (evm_state w))) w1 = (q, w2)"
      by (rule run_obtain)
    then obtain fs' where w2: "w2 = w1\<lparr>pg_faults := fs'\<rparr>" "\<forall>x. q = Inr x \<longrightarrow> x = row_of ES_ID 1 (evm_state w2)"
      by (rule query_faults)
    have roll: "\<exists>fs'. rollback w1 w2 = w\<lparr>pg_faults := fs'\<rparr>"
      using w1 w2(1) rollback_faults[of w2 w fs] by simp
    from assms b q True have run: "(r, w') = (case q of
        Inl e \<Rightarrow> (Inl e, rollback w1 w2)
      | Inr None \<Rightarrow> (Inl (Errorf ''lock evm_state'' sql_ErrNoRows), rollback w1 w2)
      | Inr (Some st) \<Rightarrow> (Inr \<lparr>pb_tx = w1, pb_blockNumber = ES_LatestBlock st + 1,
          pb_blockHash = ComputeBlockHash sha256 chainID (ES_LatestBlock st + 1), pb_done = False\<rparr>, w2))"
      by (auto simp: NewBlock_def State_Monad.get_def Let_def split: sum.splits option.splits)
    show ?thesis
    proof (cases "\<exists>st. q = Inr (Some st)")
      case True
      then obtain st where "q = Inr (Some st)" by blast
      with run w1 w2 have "w' = w\<lparr>pg_faults := fs'\<rparr>" "row_of ES_ID 1 (evm_state w) = Some st"
        "r = Inr \<lparr>pb_tx = w\<lparr>pg_faults := fs\<rparr>, pb_blockNumber = ES_LatestBlock st + 1,
           pb_blockHash = ComputeBlockHash sha256 chainID (ES_LatestBlock st + 1), pb_done = False\<rparr>" by auto
      then show ?thesis by blast
    next
      case False
      with run roll show ?thesis by (cases q) (auto split: option.splits)
    qed
  qed
qed

lemma Finalize_faults:
  assumes "run_state (Finalize b) w = ((r, b'), w')" "\<not> pb_done b" "pb_tx b = v\<lparr>pg_faults := fs\<rparr>" "pg_now w = pg_now v"
  shows "pb_done b' \<and> ((\<exists>fs. w' = v\<lparr>pg_faults := fs\<rparr>) \<or> (\<exists>fs. w' = w\<lparr>pg_faults := fs, evm_state :=
    update_where (\<lambda>r. ES_ID r = 1) (\<lambda>r. r\<lparr>ES_LatestBlock := pb_blockNumber b\<rparr>) (evm_state w)\<rparr>))"
proof -
  let ?f = "\<lambda>w. w\<lparr>evm_state := update_where (\<lambda>r. ES_ID r = 1) (\<lambda>r. r\<lparr>ES_LatestBlock := pb_blockNumber b\<rparr>) (evm_state w)\<rparr>"
  obtain u w1 where u: "run_state (exec ''update evm_state block number'' ?f) w = (u, w1)" by (rule run_obtain)
  then have now: "pg_now w1 = pg_now v" by (rule exec_faults) (simp_all add: assms(4))
  obtain c w2 where c: "run_state pg_exec w1 = (c, w2)" by (rule run_obtain)
  then obtain fs' where w2: "w2 = w1\<lparr>pg_faults := fs'\<rparr>" by (rule pg_exec_faults)
  have roll: "\<exists>fs'. rollback (pb_tx b) w1 = v\<lparr>pg_faults := fs'\<rparr>" "\<exists>fs'. rollback (pb_tx b) w2 = v\<lparr>pg_faults := fs'\<rparr>"
    unfolding assms(3) using now w2 by (auto intro!: rollback_faults)
  show ?thesis
  proof (cases u)
    case (Inl e)
    with assms(1,2) u have "pb_done b'" "w' = rollback (pb_tx b) w1" by (auto simp: Finalize_def Let_def)
    with roll(1) show ?thesis by simp
  next
    case (Inr x)
    obtain fs1 where w1: "w1 = ?f (w\<lparr>pg_faults := fs1\<rparr>)" using u Inr by (elim exec_faults) auto
    have "w2 = w\<lparr>pg_faults := fs', evm_state := evm_state (?f w)\<rparr>"
      by (rule evm_db.equality) (simp_all add: w2 w1)
    moreover have "pb_done b' \<and> (w' = rollback (pb_tx b) w2 \<or> w' = w2)"
      using assms(1,2) u Inr c by (cases c) (auto simp: Finalize_def Let_def)
    ultimately show ?thesis using roll(2) by auto
  qed
qed

lemma sealed_step:
  assumes rb: "run_state (mine_block G m b) w1 = ((rb, b'), w2)"
    and b: "b = \<lparr>pb_tx = w\<lparr>pg_faults := fs'\<rparr>, pb_blockNumber = ES_LatestBlock st + 1,
         pb_blockHash = ComputeBlockHash sha256 (mc_chainID m) (ES_LatestBlock st + 1), pb_done = False\<rparr>"
    and w1: "w1 = w\<lparr>pg_faults := fs\<rparr>"
  shows "pb_done b' = False \<and> b' = b \<and> pg_now w2 = pg_now w \<or>
    pb_done b' \<and> ((\<exists>fs. w2 = w\<lparr>pg_faults := fs\<rparr>) \<or> claimable (mc_maxTxsPerBlock m) (mp_rows w) \<noteq> [] \<and>
      (\<exists>fs. w2 = (sealed_round G sha256 m st w)\<lparr>pg_faults := fs\<rparr>))"
proof -
  obtain c w3 where c: "run_state (ClaimMempoolEntries (mc_maxTxsPerBlock m)) w1 = (c, w3)" by (rule run_obtain)
  note cl = claim_faults[OF c]
  show ?thesis
  proof (cases "\<exists>es. c = Inr es \<and> es \<noteq> []")
    case False
    with rb c have "b' = b" "w2 = w3" by (auto simp: mine_block_def split: sum.splits if_splits)
    with cl w1 b show ?thesis by simp
  next
    case True
    then obtain es where es: "c = Inr es" "es \<noteq> []" by blast
    let ?ts = "of_int (pg_now w div 10 ^ 9)"
    obtain r4 w4 where 4: "run_state (mine_entries G (mc_gasLimit m) b ?ts 0 0 es) w3 = (r4, w4)" by (rule run_obtain)
    note me = mine_entries_seal[OF 4]
    have now: "pg_now w3 = pg_now w" "pg_now w4 = pg_now w" using cl me w1 by auto
    show ?thesis
    proof (cases r4)
      case (Inl e)
      with rb c es 4 now have "b' = b" "w2 = w4" by (auto simp: mine_block_def)
      with b now show ?thesis by simp
    next
      case (Inr u)
      with rb c es 4 now have F: "run_state (Finalize b) w4 = ((rb, b'), w2)" by (auto simp: mine_block_def)
      have "\<not> pb_done b" "pb_tx b = w\<lparr>pg_faults := fs'\<rparr>" using b by simp_all
      note fin = Finalize_faults[OF F this now(2)]
      let ?u = "\<lparr>pb_tx = (), pb_blockNumber = pb_blockNumber b, pb_blockHash = pb_blockHash b, pb_done = False\<rparr>"
      have seal: "seal G gas b ts n i li xs t = seal G gas ?u ts n i li xs t" for gas ts n i li xs t
        by (rule seal_block_cong) simp_all
      from cl es w1 obtain fs3 where es': "es = map fromMempoolEntryDao (claimable (mc_maxTxsPerBlock m) (mp_rows w))"
        and w3: "w3 = w\<lparr>pg_faults := fs3, mp_rows := mark_mined (set (map MP_ID (claimable (mc_maxTxsPerBlock m) (mp_rows w)))) (pg_now w) (mp_rows w)\<rparr>"
        by auto
      from me Inr obtain fs4 where w4: "w4 = w3\<lparr>pg_faults := fs4,
          evm_txs := fst (seal G (mc_gasLimit m) b ?ts (pg_now w3) 0 0 es (evm_txs w3, evm_logs w3)),
          evm_logs := snd (seal G (mc_gasLimit m) b ?ts (pg_now w3) 0 0 es (evm_txs w3, evm_logs w3))\<rparr>" by auto
      have "w4\<lparr>pg_faults := fs, evm_state :=
          update_where (\<lambda>r. ES_ID r = 1) (\<lambda>r. r\<lparr>ES_LatestBlock := pb_blockNumber b\<rparr>) (evm_state w4)\<rparr> =
          (sealed_round G sha256 m st w)\<lparr>pg_faults := fs\<rparr>" for fs
        by (rule evm_db.equality) (simp_all add: w4 w3 es' seal sealed_round_def Let_def, simp_all add: b)
      with fin es es' show ?thesis by auto
    qed
  qed
qed

lemma mine_cases:
  assumes "run_state (mine G sha256 m) w = (r, w')"
  obtains (same) fs where "w' = w\<lparr>pg_faults := fs\<rparr>"
  | (sealed) fs st where "row_of ES_ID 1 (evm_state w) = Some st" "claimable (mc_maxTxsPerBlock m) (mp_rows w) \<noteq> []"
      "w' = (sealed_round G sha256 m st w)\<lparr>pg_faults := fs\<rparr>"
proof -
  obtain nb w1 where nb: "run_state (NewBlock sha256 (mc_chainID m)) w = (nb, w1)" by (rule run_obtain)
  from NewBlock_faults[OF nb] obtain fs where w1: "w1 = w\<lparr>pg_faults := fs\<rparr>" by blast
  show thesis
  proof (cases nb)
    case (Inl e)
    with assms nb w1 same show thesis by (auto simp: mine_def)
  next
    case (Inr b)
    with NewBlock_faults[OF nb] obtain fs' st where st: "row_of ES_ID 1 (evm_state w) = Some st"
      and b: "b = \<lparr>pb_tx = w\<lparr>pg_faults := fs'\<rparr>, pb_blockNumber = ES_LatestBlock st + 1,
         pb_blockHash = ComputeBlockHash sha256 (mc_chainID m) (ES_LatestBlock st + 1), pb_done = False\<rparr>" by blast
    obtain rb b' w2 where rb: "run_state (mine_block G m b) w1 = ((rb, b'), w2)"
      by (metis prod.collapse)
    have w': "w' = (if pb_done b' then w2 else rollback (pb_tx b') w2)"
      using assms nb Inr rb by (auto simp: mine_def Abort_def split: if_splits)
    from sealed_step[OF rb b w1] show thesis
    proof
      assume "pb_done b' = False \<and> b' = b \<and> pg_now w2 = pg_now w"
      then have "w' = rollback (w\<lparr>pg_faults := fs'\<rparr>) w2" "pg_now w2 = pg_now w" using w' b by auto
      then show thesis using same rollback_faults[of w2 w fs'] by auto
    next
      assume "pb_done b' \<and> ((\<exists>fs. w2 = w\<lparr>pg_faults := fs\<rparr>) \<or> claimable (mc_maxTxsPerBlock m) (mp_rows w) \<noteq> [] \<and>
        (\<exists>fs. w2 = (sealed_round G sha256 m st w)\<lparr>pg_faults := fs\<rparr>))"
      then show thesis using w' same sealed[OF st] by auto
    qed
  qed
qed

end
