(* ===== verification/Ethrpc_Submitter.thy ===== *)
theory Ethrpc_Submitter
  imports Ethrpc_Miner
begin

text \<open>
  \<open>pkg/ethrpc/submitter\<close>: the worker that takes pending mempool entries to Canton.  The token
  service is a record of operations over the world.  \<open>drain\<close> runs its entries one after the other;
  the goroutines of the worker pool interleave the same statements, which the safety theory allows
  in every order.  Deadlines show up as errors of the calls; metrics and log lines are left out.
\<close>

section \<open>Errors\<close>

definition DeadlineExceeded :: goerr where "DeadlineExceeded = Sentinel ''context deadline exceeded''"

definition isPermanentError :: "goerr \<Rightarrow> bool" where
  "isPermanentError err =
     (case errors_As_ServiceError err of
        None \<Rightarrow> False
      | Some c \<Rightarrow> c \<in> {CategoryDataError, CategoryNotSupported, CategoryUnauthorized, CategoryForbidden,
                      CategoryResourceNotFound, CategoryDataConflict, CategoryGone})"

definition categorizeTransferError :: "goerr \<Rightarrow> string" where
  "categorizeTransferError err =
     (if errors_Is err DeadlineExceeded then ''timeout''
      else case errors_As_ServiceError err of
        None \<Rightarrow> ''transient''
      | Some c \<Rightarrow>
          (case c of
             CategoryDataError \<Rightarrow> ''data''
           | CategoryNotSupported \<Rightarrow> ''not_supported''
           | CategoryUnauthorized \<Rightarrow> ''unauthorized''
           | CategoryForbidden \<Rightarrow> ''forbidden''
           | CategoryResourceNotFound \<Rightarrow> ''not_found''
           | CategoryDataConflict \<Rightarrow> ''conflict''
           | CategoryGone \<Rightarrow> ''gone''
           | CategoryConnectionTimeout \<Rightarrow> ''timeout''
           | _ \<Rightarrow> ''transient''))"

text \<open>The two classifications agree: a permanent error never counts as transient.\<close>

lemma permanent_not_transient: "isPermanentError err \<Longrightarrow> categorizeTransferError err \<noteq> ''transient''"
  by (auto simp: isPermanentError_def categorizeTransferError_def split: option.splits)

section \<open>Submitting an entry\<close>

record 'w ERC20Ops =
  TransferFrom :: "string \<Rightarrow> bytes \<Rightarrow> bytes \<Rightarrow> int \<Rightarrow> ('w, goerr + unit) state"

type_synonym 'w ERC20Lookup = "bytes \<Rightarrow> goerr + 'w ERC20Ops"

text \<open>\<open>big.Int.SetBytes\<close> and \<open>big.Int.Bytes\<close>.\<close>

definition big_SetBytes :: "bytes \<Rightarrow> int" where
  "big_SetBytes bs = foldl (\<lambda>n b. 256 * n + uint b) 0 bs"

fun nat_bytes :: "nat \<Rightarrow> bytes" where
  "nat_bytes n = (if n = 0 then [] else nat_bytes (n div 256) @ [of_nat (n mod 256)])"

declare nat_bytes.simps [simp del]

definition big_Bytes :: "int \<Rightarrow> bytes" where
  "big_Bytes x = nat_bytes (nat \<bar>x\<bar>)"

lemma big_bytes_roundtrip: "0 \<le> x \<Longrightarrow> big_SetBytes (big_Bytes x) = x"
proof -
  have "big_SetBytes (nat_bytes n) = int n" for n
  proof (induction n rule: nat_bytes.induct)
    case (1 n)
    have "uint (of_nat (n mod 256) :: octet) = int (n mod 256)"
      by (simp add: uint_word_of_int_eq unsigned_of_nat take_bit_eq_mod)
    with 1 show ?case
      by (subst nat_bytes.simps) (auto simp: big_SetBytes_def algebra_simps zmod_int zdiv_int)
  qed
  then show "0 \<le> x \<Longrightarrow> big_SetBytes (big_Bytes x) = x" by (simp add: big_Bytes_def)
qed

datatype outcome = OCompleted | OFailedPermanent goerr | OTransientRetry

text \<open>The command id of an entry, under which Canton executes its transfer.\<close>

definition command_id :: "GethCommon \<Rightarrow> bytes \<Rightarrow> string" where
  "command_id G h = G_HashHex G (G_BytesToHash G h)"

text \<open>The part of \<open>process\<close> up to the answer of Canton.\<close>

definition submit_entry ::
  "GethCommon \<Rightarrow> 'w ERC20Lookup \<Rightarrow> MempoolEntry \<Rightarrow> ('w, outcome) state" where
  "submit_entry G ERC20 e =
     (let contractAddr = G_HexToAddress G (ME_ContractAddress e);
          fromAddr = G_HexToAddress G (ME_FromAddress e);
          toAddr = G_HexToAddress G (ME_RecipientAddress e);
          amount = big_SetBytes (ME_AmountData e)
      in case ERC20 contractAddr of
           Inl err \<Rightarrow> ret (OFailedPermanent (Errorf ''contract not supported'' err))
         | Inr erc20 \<Rightarrow> do {
             r \<leftarrow> TransferFrom erc20 (command_id G (ME_TxHash e)) fromAddr toAddr amount;
             ret (case r of
                    Inr _ \<Rightarrow> OCompleted
                  | Inl err \<Rightarrow> if isPermanentError err then OFailedPermanent err else OTransientRetry) })"

definition completeEntry :: "MempoolEntry \<Rightarrow> ('a evm_db_scheme, unit) state" where
  "completeEntry e = do { r \<leftarrow> CompleteMempoolEntry (ME_TxHash e); ret () }"

definition failEntry :: "MempoolEntry \<Rightarrow> goerr \<Rightarrow> ('a evm_db_scheme, unit) state" where
  "failEntry e cause = do { r \<leftarrow> FailMempoolEntry (ME_TxHash e) (go_Error cause); ret () }"

definition record_outcome :: "MempoolEntry \<Rightarrow> outcome \<Rightarrow> ('a evm_db_scheme, unit) state" where
  "record_outcome e out =
     (case out of
        OCompleted \<Rightarrow> completeEntry e
      | OFailedPermanent err \<Rightarrow> failEntry e err
      | OTransientRetry \<Rightarrow> ret ())"

definition submitter_process ::
  "GethCommon \<Rightarrow> 'a evm_db_scheme ERC20Lookup \<Rightarrow> MempoolEntry \<Rightarrow> ('a evm_db_scheme, unit) state" where
  "submitter_process G ERC20 e = do {
     out \<leftarrow> submit_entry G ERC20 e;
     record_outcome e out }"

definition drain ::
  "GethCommon \<Rightarrow> 'a evm_db_scheme ERC20Lookup \<Rightarrow> int \<Rightarrow> ('a evm_db_scheme, goerr + unit) state" where
  "drain G ERC20 batchSize = do {
     r \<leftarrow> GetMempoolEntriesByStatus MempoolPending batchSize;
     case r of
       Inl e \<Rightarrow> ret (Inl (Errorf ''list pending mempool entries'' e))
     | Inr entries \<Rightarrow> do { for_each entries (submitter_process G ERC20); ret (Inr ()) } }"

section \<open>The effect on the mempool\<close>

text \<open>What recording an outcome does to a row; \<open>now\<close> is the time of the statement.\<close>

definition settle :: "time \<Rightarrow> outcome \<Rightarrow> MempoolEntryDao \<Rightarrow> MempoolEntryDao" where
  "settle now out r =
     (if MP_Status r \<noteq> MempoolPending then r
      else case out of
        OCompleted \<Rightarrow> r\<lparr>MP_Status := MempoolCompleted, MP_UpdatedAt := now\<rparr>
      | OFailedPermanent err \<Rightarrow> r\<lparr>MP_Status := MempoolFailed, MP_ErrorMessage := Some (go_Error err), MP_UpdatedAt := now\<rparr>
      | OTransientRetry \<Rightarrow> r)"

definition settle_rows :: "bytes \<Rightarrow> time \<Rightarrow> outcome \<Rightarrow> MempoolEntryDao list \<Rightarrow> MempoolEntryDao list" where
  "settle_rows h now out rows = map (\<lambda>r. if MP_TxHash r = h then settle now out r else r) rows"

lemma settle_rows_id [simp]: "settle_rows h now OTransientRetry rows = rows"
  by (simp add: settle_rows_def settle_def if_distrib cong: if_cong)

lemma settle_rows_update:
  "settle_rows h now OCompleted rows = update_where (\<lambda>r. MP_TxHash r = h \<and> MP_Status r = MempoolPending)
     (\<lambda>r. r\<lparr>MP_Status := MempoolCompleted, MP_UpdatedAt := now\<rparr>) rows"
  "settle_rows h now (OFailedPermanent err) rows = update_where (\<lambda>r. MP_TxHash r = h \<and> MP_Status r = MempoolPending)
     (\<lambda>r. r\<lparr>MP_Status := MempoolFailed, MP_ErrorMessage := Some (go_Error err), MP_UpdatedAt := now\<rparr>) rows"
  by (auto simp: settle_rows_def settle_def update_where_def)

lemma record_outcome_cases:
  assumes "run_state (record_outcome e out) w = (u, w')"
  obtains fs where "w' = w\<lparr>pg_faults := fs\<rparr>"
  | fs where "w' = w\<lparr>pg_faults := fs, mp_rows := settle_rows (ME_TxHash e) (pg_now w) out (mp_rows w)\<rparr>"
proof (cases out)
  case OCompleted
  then obtain r where "run_state (CompleteMempoolEntry (ME_TxHash e)) w = (r, w')"
    using assms by (cases "run_state (CompleteMempoolEntry (ME_TxHash e)) w") (auto simp: record_outcome_def completeEntry_def)
  then show thesis
    unfolding CompleteMempoolEntry_def
    by (rule exec_faults) (use that OCompleted in \<open>auto simp: settle_rows_update\<close>)
next
  case (OFailedPermanent err)
  then obtain r where "run_state (FailMempoolEntry (ME_TxHash e) (go_Error err)) w = (r, w')"
    using assms by (cases "run_state (FailMempoolEntry (ME_TxHash e) (go_Error err)) w") (auto simp: record_outcome_def failEntry_def)
  then show thesis
    unfolding FailMempoolEntry_def
    by (rule exec_faults) (use that OFailedPermanent in \<open>auto simp: settle_rows_update\<close>)
next
  case OTransientRetry
  with assms that(1)[of "pg_faults w"] show thesis by (simp add: record_outcome_def)
qed

end
