(* ===== verification/Ethrpc_Service.thy ===== *)
theory Ethrpc_Service
  imports Ethrpc_Submitter
begin

text \<open>
  \<open>pkg/ethrpc/service/service.go\<close>: accepting a signed transaction into the mempool, and the queries
  wallets make.  Decoding transactions, recovering the sender, the ABI of ERC-20 and the bloom filter
  are go-ethereum's and form the record \<open>GethTypes\<close>; the whitelist is an operation over the world.
  The fields of \<open>RPCBlock\<close> and \<open>RPCTransaction\<close> that the source sets to constants are left out.
\<close>

section \<open>Transactions\<close>

record EthTx =
  etx_To :: "bytes option"
  etx_Value :: int
  etx_Data :: bytes
  etx_Nonce :: u64
  etx_Hash :: bytes

record TypesLog =
  TL_Address :: bytes
  TL_Topics :: "bytes list"
  TL_Data :: bytes
  TL_BlockNumber :: u64
  TL_BlockTimestamp :: u64
  TL_TxHash :: bytes
  TL_TxIndex :: nat
  TL_BlockHash :: bytes
  TL_Index :: nat
  TL_Removed :: bool

record GethTypes =
  UnmarshalBinary :: "bytes \<Rightarrow> goerr + EthTx"
  TxSender :: "u64 \<Rightarrow> EthTx \<Rightarrow> goerr + bytes"
  MethodById :: "bytes \<Rightarrow> goerr + string"
  UnpackTransfer :: "bytes \<Rightarrow> goerr + bytes option \<times> int option"
  CreateBloom :: "TypesLog list \<Rightarrow> bytes"
  BytesToAddress :: "bytes \<Rightarrow> bytes"

definition lower_char :: "char \<Rightarrow> char" where
  "lower_char c = (let n = of_char c :: nat in if 65 \<le> n \<and> n \<le> 90 then char_of (n + 32) else c)"

definition ToLower :: "string \<Rightarrow> string" where
  "ToLower s = map lower_char s"

definition functionSelectorSize :: nat where "functionSelectorSize = 4"

definition checkWhitelist ::
  "GethCommon \<Rightarrow> (string \<Rightarrow> ('w, goerr + bool) state) \<Rightarrow> bytes \<Rightarrow> ('w, goerr + unit) state" where
  "checkWhitelist G IsWhitelisted from = do {
     let addr = ToLower (G_AddressHex G from);
     r \<leftarrow> IsWhitelisted addr;
     case r of
       Inl e \<Rightarrow> ret (Inl (DependencyError (Some e) ''whitelist check''))
     | Inr whitelisted \<Rightarrow>
         if \<not> whitelisted then ret (Inl (ForbiddenError None (''sender not whitelisted: '' @ addr)))
         else ret (Inr ()) }"

definition single_quoted :: "string \<Rightarrow> string" where
  "single_quoted s = [CHR 0x27] @ s @ [CHR 0x27]"

definition decodeTransferCall :: "GethTypes \<Rightarrow> bytes \<Rightarrow> goerr + bytes \<times> int" where
  "decodeTransferCall T input =
     (if length input < functionSelectorSize then Inl (Err ''missing function selector'')
      else case MethodById T (take functionSelectorSize input) of
        Inl e \<Rightarrow> Inl (Errorf ''decode method selector'' e)
      | Inr name \<Rightarrow>
          if name \<noteq> ''transfer'' then Inl (Err (''unsupported method: '' @ name))
          else case UnpackTransfer T (drop functionSelectorSize input) of
            Inl e \<Rightarrow> Inl (Errorf ''failed to decode transfer args'' e)
          | Inr (None, _) \<Rightarrow> Inl (Err (''invalid '' @ single_quoted ''to'' @ '' address in transfer''))
          | Inr (Some toAddr, None) \<Rightarrow> Inl (Err (''invalid '' @ single_quoted ''value'' @ '' in transfer''))
          | Inr (Some toAddr, Some amount) \<Rightarrow> Inr (toAddr, amount))"

text \<open>The intent a valid transaction is recorded as; the store sets its id and status.\<close>

definition intent_of :: "GethCommon \<Rightarrow> EthTx \<Rightarrow> bytes \<Rightarrow> bytes \<Rightarrow> bytes \<Rightarrow> int \<Rightarrow> MempoolEntry" where
  "intent_of G tx from contractAddress toAddr amount =
     \<lparr>ME_ID = 0, ME_TxHash = etx_Hash tx, ME_FromAddress = G_AddressHex G from,
      ME_ContractAddress = G_AddressHex G contractAddress, ME_RecipientAddress = G_AddressHex G toAddr,
      ME_Nonce = etx_Nonce tx, ME_Input = etx_Data tx, ME_AmountData = big_Bytes amount,
      ME_Status = MempoolPending, ME_ErrorMessage = ''''\<rparr>"

definition SendRawTransaction ::
  "GethCommon \<Rightarrow> GethTypes \<Rightarrow> u64 \<Rightarrow> (string \<Rightarrow> ('a evm_db_scheme, goerr + bool) state) \<Rightarrow>
   'a evm_db_scheme ERC20Lookup \<Rightarrow> bytes \<Rightarrow> ('a evm_db_scheme, goerr + bytes) state" where
  "SendRawTransaction G T chainID IsWhitelisted ERC20 data =
     (case UnmarshalBinary T data of
        Inl e \<Rightarrow> ret (Inl (BadRequestError (Some e) ''invalid transaction encoding''))
      | Inr tx \<Rightarrow>
          (case TxSender T chainID tx of
             Inl e \<Rightarrow> ret (Inl (BadRequestError (Some e) ''invalid transaction signature''))
           | Inr from \<Rightarrow> do {
               wl \<leftarrow> checkWhitelist G IsWhitelisted from;
               case wl of
                 Inl e \<Rightarrow> ret (Inl e)
               | Inr _ \<Rightarrow>
                   (case etx_To tx of
                      None \<Rightarrow> ret (Inl (BadRequestError None ''contract deploy transactions not supported''))
                    | Some contractAddress \<Rightarrow>
                        if etx_Value tx \<noteq> 0 then ret (Inl (NotSupportedError None ''native ETH transfers not supported''))
                        else case decodeTransferCall T (etx_Data tx) of
                          Inl e \<Rightarrow> ret (Inl (BadRequestError (Some e) ''invalid transaction data''))
                        | Inr (toAddr, amount) \<Rightarrow>
                            (case ERC20 contractAddress of
                               Inl e \<Rightarrow> ret (Inl (BadRequestError (Some e)
                                          (''contract not supported: '' @ G_AddressHex G contractAddress)))
                             | Inr _ \<Rightarrow> do {
                                 r \<leftarrow> InsertMempoolEntry (intent_of G tx from contractAddress toAddr amount);
                                 (case r of
                                    Inl e \<Rightarrow> ret (Inl (DependencyError (Some e) ''insert mempool entry''))
                                  | Inr _ \<Rightarrow> ret (Inr (etx_Hash tx))) })) }))"

section \<open>Queries\<close>

record RPCReceipt =
  RR_TransactionHash :: bytes
  RR_TransactionIndex :: nat
  RR_BlockHash :: bytes
  RR_BlockNumber :: u64
  RR_From :: bytes
  RR_To :: bytes
  RR_CumulativeGasUsed :: u64
  RR_GasUsed :: u64
  RR_Logs :: "TypesLog list"
  RR_LogsBloom :: bytes
  RR_Status :: u64
  RR_EffectiveGasPrice :: u64
  RR_Type :: u64
  RR_RevertReason :: string

definition types_log :: "GethCommon \<Rightarrow> GethTypes \<Rightarrow> bytes \<Rightarrow> EvmLog \<Rightarrow> TypesLog" where
  "types_log G T hash lg =
     \<lparr>TL_Address = BytesToAddress T (Lg_Address lg), TL_Topics = map (G_BytesToHash G) (Lg_Topics lg),
      TL_Data = Lg_Data lg, TL_BlockNumber = Lg_BlockNumber lg, TL_BlockTimestamp = Lg_BlockTimestamp lg,
      TL_TxHash = hash, TL_TxIndex = Lg_TxIndex lg, TL_BlockHash = G_BytesToHash G (Lg_BlockHash lg),
      TL_Index = Lg_LogIndex lg, TL_Removed = Lg_Removed lg\<rparr>"

definition GetTransactionReceipt ::
  "GethCommon \<Rightarrow> GethTypes \<Rightarrow> bytes \<Rightarrow> ('a evm_db_scheme, goerr + RPCReceipt option) state" where
  "GetTransactionReceipt G T hash = do {
     r \<leftarrow> GetEvmTransaction hash;
     case r of
       Inl e \<Rightarrow> ret (Inl (DependencyError (Some e) (''get transaction receipt for '' @ G_HashHex G hash)))
     | Inr None \<Rightarrow> ret (Inr None)
     | Inr (Some row) \<Rightarrow> do {
         l \<leftarrow> GetEvmLogsByTxHash hash;
         (case l of
            Inl e \<Rightarrow> ret (Inl (DependencyError (Some e) (''get logs for transaction receipt '' @ G_HashHex G hash)))
          | Inr dbLogs \<Rightarrow>
              let logs = map (types_log G T hash) dbLogs
              in ret (Inr (Some
                   \<lparr>RR_TransactionHash = hash, RR_TransactionIndex = Tx_TxIndex row,
                    RR_BlockHash = G_BytesToHash G (Tx_BlockHash row), RR_BlockNumber = Tx_BlockNumber row,
                    RR_From = G_HexToAddress G (Tx_FromAddress row), RR_To = G_HexToAddress G (Tx_ToAddress row),
                    RR_CumulativeGasUsed = Tx_GasUsed row, RR_GasUsed = Tx_GasUsed row, RR_Logs = logs,
                    RR_LogsBloom = CreateBloom T logs, RR_Status = ucast (Tx_Status row), RR_EffectiveGasPrice = 0,
                    RR_Type = 2, RR_RevertReason = Tx_ErrorMessage row\<rparr>))) } }"

record RPCTransaction =
  RT_Hash :: bytes
  RT_Nonce :: u64
  RT_BlockHash :: bytes
  RT_BlockNumber :: u64
  RT_TransactionIndex :: nat
  RT_From :: bytes
  RT_To :: bytes
  RT_Input :: bytes
  RT_ChainID :: u64

definition GetTransactionByHash ::
  "GethCommon \<Rightarrow> u64 \<Rightarrow> bytes \<Rightarrow> ('a evm_db_scheme, goerr + RPCTransaction option) state" where
  "GetTransactionByHash G chainID hash = do {
     r \<leftarrow> GetEvmTransaction hash;
     case r of
       Inl e \<Rightarrow> ret (Inl (DependencyError (Some e) (''get transaction by hash '' @ G_HashHex G hash)))
     | Inr None \<Rightarrow> ret (Inr None)
     | Inr (Some row) \<Rightarrow> ret (Inr (Some
         \<lparr>RT_Hash = hash, RT_Nonce = Tx_Nonce row, RT_BlockHash = G_BytesToHash G (Tx_BlockHash row),
          RT_BlockNumber = Tx_BlockNumber row, RT_TransactionIndex = Tx_TxIndex row,
          RT_From = G_HexToAddress G (Tx_FromAddress row), RT_To = G_HexToAddress G (Tx_ToAddress row),
          RT_Input = Tx_Input row, RT_ChainID = chainID\<rparr>)) }"

definition GetTransactionCount :: "GethCommon \<Rightarrow> bytes \<Rightarrow> ('a evm_db_scheme, goerr + u64) state" where
  "GetTransactionCount G address = do {
     r \<leftarrow> GetEvmTransactionCount (G_AddressHex G address);
     case r of
       Inl e \<Rightarrow> ret (Inl (DependencyError (Some e) (''get transaction count for '' @ G_AddressHex G address)))
     | Inr count \<Rightarrow> ret (Inr count) }"

definition confirmationBufferBlocks :: u64 where "confirmationBufferBlocks = 12"
definition syntheticBlockTimeSeconds :: u64 where "syntheticBlockTimeSeconds = 12"

text \<open>\<open>uint64(time.Since(s.startTime).Seconds())\<close>, with the clock after the start.\<close>

definition BlockNumber :: "time \<Rightarrow> ('a evm_db_scheme, goerr + u64) state" where
  "BlockNumber startTime = do {
     r \<leftarrow> GetLatestEvmBlockNumber;
     case r of
       Inl e \<Rightarrow> ret (Inl (DependencyError (Some e) ''get latest EVM block number''))
     | Inr n \<Rightarrow> do {
         now \<leftarrow> gets pg_now;
         let timeBasedBlocks = of_int ((now - startTime) div 10 ^ 9);
         ret (Inr (max (n + confirmationBufferBlocks) timeBasedBlocks)) } }"

record FilterQuery =
  FQ_FromBlock :: "u64 option"
  FQ_ToBlock :: "u64 option"
  FQ_Address :: "bytes option"
  FQ_Topic0 :: "bytes option"

text \<open>
  The address and the first topic of a query arrive as strings or as typed values; both are given
  here as the bytes they decode to, and a filter of another type is dropped, as in the source.
\<close>

definition GetLogs :: "GethCommon \<Rightarrow> GethTypes \<Rightarrow> FilterQuery \<Rightarrow> ('a evm_db_scheme, goerr + TypesLog list) state" where
  "GetLogs G T q = do {
     let fromBlock = (case FQ_FromBlock q of None \<Rightarrow> 0 | Some b \<Rightarrow> b);
     tb \<leftarrow> (case FQ_ToBlock q of Some b \<Rightarrow> ret (Inr b) | None \<Rightarrow> GetLatestEvmBlockNumber);
     case tb of
       Inl e \<Rightarrow> ret (Inl (DependencyError (Some e) ''get latest EVM block number for logs''))
     | Inr toBlock \<Rightarrow> do {
         r \<leftarrow> GetEvmLogs (FQ_Address q) (FQ_Topic0 q) fromBlock toBlock;
         (case r of
            Inl e \<Rightarrow> ret (Inl (DependencyError (Some e) ''get EVM logs''))
          | Inr dbLogs \<Rightarrow> ret (Inr (map (\<lambda>lg. types_log G T (G_BytesToHash G (Lg_TxHash lg)) lg) dbLogs))) } }"

record RPCBlock =
  RB_Number :: u64
  RB_Hash :: bytes
  RB_ParentHash :: bytes
  RB_Timestamp :: u64

definition GetBlockByNumber ::
  "GethCommon \<Rightarrow> (bytes \<Rightarrow> bytes) \<Rightarrow> u64 \<Rightarrow> time \<Rightarrow> u64 option \<Rightarrow> ('a evm_db_scheme, goerr + RPCBlock option) state" where
  "GetBlockByNumber G sha256 chainID startTime block = do {
     bn \<leftarrow> (case block of Some n \<Rightarrow> ret (Inr n) | None \<Rightarrow> BlockNumber startTime);
     case bn of
       Inl e \<Rightarrow> ret (Inl e)
     | Inr blockNum \<Rightarrow>
         if blockNum = 0 then ret (Inr None)
         else ret (Inr (Some
           \<lparr>RB_Number = blockNum, RB_Hash = G_BytesToHash G (ComputeBlockHash sha256 chainID blockNum),
            RB_ParentHash = (if blockNum > 1 then G_BytesToHash G (ComputeBlockHash sha256 chainID (blockNum - 1))
                             else replicate 32 0),
            RB_Timestamp = blockNum * syntheticBlockTimeSeconds\<rparr>)) }"

definition GetBlockByHash ::
  "GethCommon \<Rightarrow> (bytes \<Rightarrow> bytes) \<Rightarrow> u64 \<Rightarrow> time \<Rightarrow> bytes \<Rightarrow> ('a evm_db_scheme, goerr + RPCBlock option) state" where
  "GetBlockByHash G sha256 chainID startTime hash = do {
     r \<leftarrow> GetBlockNumberByHash hash;
     case r of
       Inl e \<Rightarrow> ret (Inl (DependencyError (Some e) (''get block number by hash '' @ G_HashHex G hash)))
     | Inr blockNum \<Rightarrow>
         if blockNum > 0 then GetBlockByNumber G sha256 chainID startTime (Some blockNum)
         else GetBlockByNumber G sha256 chainID startTime None }"

end
