(* ===== verification/User_Store.thy ===== *)
theory User_Store
  imports Ethrpc_Service Ledger_Values
begin

text \<open>
  The registered users and the registration whitelist: \<open>pkg/user/user.go\<close>, \<open>pkg/userstore\<close> (the
  PostgreSQL store, in the same database as the tables of the JSON-RPC facade) and
  \<open>pkg/user/whitelist\<close>, the service that gates registration and transactions and pages through the
  list for the administrator.  Addresses are ASCII, so \<open>LOWER\<close> is \<open>ToLower\<close>.
\<close>

section \<open>Users\<close>

definition KeyModeCustodial :: string where "KeyModeCustodial = ''custodial''"
definition KeyModeExternal :: string where "KeyModeExternal = ''external''"

record User =
  U_EVMAddress :: string
  U_CantonParty :: string
  U_Fingerprint :: string
  U_MappingCID :: string
  U_CantonPartyID :: string
  U_CantonKeyCreatedAt :: "time option"
  U_CantonPrivateKeyEncrypted :: string
  U_KeyMode :: string
  U_CantonPublicKeyFingerprint :: string

definition user_New :: "time \<Rightarrow> string \<Rightarrow> string \<Rightarrow> string \<Rightarrow> string \<Rightarrow> string \<Rightarrow> User" where
  "user_New now evmAddress cantonPartyID fingerprint mappingCID encryptedPKey =
     \<lparr>U_EVMAddress = evmAddress, U_CantonParty = cantonPartyID, U_Fingerprint = fingerprint,
      U_MappingCID = mappingCID, U_CantonPartyID = cantonPartyID, U_CantonKeyCreatedAt = Some now,
      U_CantonPrivateKeyEncrypted = encryptedPKey, U_KeyMode = KeyModeCustodial,
      U_CantonPublicKeyFingerprint = ''''\<rparr>"

definition user_NewExternal :: "string \<Rightarrow> string \<Rightarrow> string \<Rightarrow> string \<Rightarrow> string \<Rightarrow> User" where
  "user_NewExternal evmAddress cantonPartyID fingerprint mappingCID publicKeyFingerprint =
     \<lparr>U_EVMAddress = evmAddress, U_CantonParty = cantonPartyID, U_Fingerprint = fingerprint,
      U_MappingCID = mappingCID, U_CantonPartyID = cantonPartyID, U_CantonKeyCreatedAt = None,
      U_CantonPrivateKeyEncrypted = '''', U_KeyMode = KeyModeExternal,
      U_CantonPublicKeyFingerprint = publicKeyFingerprint\<rparr>"

record WhitelistEntry =
  WE_EVMAddress :: string
  WE_Note :: string
  WE_CreatedAt :: time

definition ErrKeyNotFound :: goerr where "ErrKeyNotFound = Sentinel ''key not found''"
definition ErrUserNotFound :: goerr where "ErrUserNotFound = Sentinel ''user not found''"

record UserDao =
  UD_ID :: int
  UD_EVMAddress :: string
  UD_CantonParty :: string
  UD_Fingerprint :: string
  UD_MappingCID :: "string option"
  UD_CreatedAt :: time
  UD_CantonPartyID :: "string option"
  UD_CantonPrivateKeyEncrypted :: "string option"
  UD_CantonKeyCreatedAt :: "time option"
  UD_KeyMode :: string
  UD_CantonPublicKeyFingerprint :: "string option"

text \<open>The id and the creation time are the database's.\<close>

definition toUserDao :: "int \<Rightarrow> time \<Rightarrow> User \<Rightarrow> UserDao" where
  "toUserDao i now usr =
     \<lparr>UD_ID = i, UD_EVMAddress = U_EVMAddress usr, UD_CantonParty = U_CantonParty usr,
      UD_Fingerprint = U_Fingerprint usr, UD_MappingCID = stringPtrOrNil (U_MappingCID usr), UD_CreatedAt = now,
      UD_CantonPartyID = stringPtrOrNil (U_CantonPartyID usr),
      UD_CantonPrivateKeyEncrypted = stringPtrOrNil (U_CantonPrivateKeyEncrypted usr),
      UD_CantonKeyCreatedAt = U_CantonKeyCreatedAt usr, UD_KeyMode = U_KeyMode usr,
      UD_CantonPublicKeyFingerprint = stringPtrOrNil (U_CantonPublicKeyFingerprint usr)\<rparr>"

definition deref_string :: "string option \<Rightarrow> string" where
  "deref_string s = (case s of None \<Rightarrow> '''' | Some x \<Rightarrow> x)"

definition toUser :: "UserDao \<Rightarrow> User" where
  "toUser dao =
     \<lparr>U_EVMAddress = UD_EVMAddress dao, U_CantonParty = UD_CantonParty dao, U_Fingerprint = UD_Fingerprint dao,
      U_MappingCID = deref_string (UD_MappingCID dao), U_CantonPartyID = deref_string (UD_CantonPartyID dao),
      U_CantonKeyCreatedAt = UD_CantonKeyCreatedAt dao,
      U_CantonPrivateKeyEncrypted = deref_string (UD_CantonPrivateKeyEncrypted dao), U_KeyMode = UD_KeyMode dao,
      U_CantonPublicKeyFingerprint = deref_string (UD_CantonPublicKeyFingerprint dao)\<rparr>"

lemma deref_stringPtr [simp]: "deref_string (stringPtrOrNil s) = s"
  by (simp add: deref_string_def stringPtrOrNil_def)

lemma user_dao_roundtrip [simp]: "toUser (toUserDao i now usr) = usr"
  by (simp add: toUser_def toUserDao_def)

record WhitelistDao =
  WD_EVMAddress :: string
  WD_Note :: "string option"
  WD_CreatedAt :: time

definition toWhitelistEntry :: "WhitelistDao \<Rightarrow> WhitelistEntry" where
  "toWhitelistEntry dao =
     \<lparr>WE_EVMAddress = WD_EVMAddress dao, WE_Note = deref_string (WD_Note dao), WE_CreatedAt = WD_CreatedAt dao\<rparr>"

section \<open>The store\<close>

record api_db = evm_db +
  us_rows :: "UserDao list"
  us_seq :: int
  wl_rows :: "WhitelistDao list"

text \<open>An insertion that the unique index on \<open>evm_address\<close> can refuse; the refusal uses up an id.\<close>

definition CreateUser :: "User \<Rightarrow> ('a api_db_scheme, goerr + unit) state" where
  "CreateUser usr = do {
     o' \<leftarrow> pg_exec;
     w \<leftarrow> State_Monad.get;
     let clash = (row_of UD_EVMAddress (U_EVMAddress usr) (us_rows w) \<noteq> None);
     let f = (\<lambda>w. w\<lparr>us_seq := us_seq w + 1,
        us_rows := (if clash then us_rows w else us_rows w @ [toUserDao (us_seq w + 1) (pg_now w) usr])\<rparr>);
     case o' of
       Fails e \<Rightarrow> ret (Inl (Errorf ''failed to create user'' (Err e)))
     | LostAck e \<Rightarrow> do { modify f; ret (Inl (Errorf ''failed to create user'' (Err e))) }
     | Works \<Rightarrow> do {
         modify f;
         ret (if clash then Inl (Errorf ''failed to create user'' (Err ''duplicate key value violates unique constraint''))
              else Inr ()) } }"

definition getUserBy :: "(UserDao \<Rightarrow> bool) \<Rightarrow> ('a api_db_scheme, goerr + User) state" where
  "getUserBy matches = do {
     q \<leftarrow> query ''failed to get user'' (\<lambda>w. find matches (us_rows w));
     case q of
       Inl e \<Rightarrow> ret (Inl e)
     | Inr None \<Rightarrow> ret (Inl ErrUserNotFound)
     | Inr (Some dao) \<Rightarrow> ret (Inr (toUser dao)) }"

definition GetUserByEVMAddress :: "string \<Rightarrow> ('a api_db_scheme, goerr + User) state" where
  "GetUserByEVMAddress evmAddress = getUserBy (\<lambda>d. UD_EVMAddress d = evmAddress)"

definition GetUserByCantonPartyID :: "string \<Rightarrow> ('a api_db_scheme, goerr + User) state" where
  "GetUserByCantonPartyID partyID = getUserBy (\<lambda>d. UD_CantonPartyID d = Some partyID)"

definition GetUserByFingerprint :: "string \<Rightarrow> ('a api_db_scheme, goerr + User) state" where
  "GetUserByFingerprint fingerprint = getUserBy (\<lambda>d. UD_Fingerprint d = fingerprint)"

definition UserExists :: "string \<Rightarrow> ('a api_db_scheme, goerr + bool) state" where
  "UserExists evmAddress =
     query ''failed to check user exists'' (\<lambda>w. list_ex (\<lambda>d. UD_EVMAddress d = evmAddress) (us_rows w))"

definition DeleteUser :: "string \<Rightarrow> ('a api_db_scheme, goerr + unit) state" where
  "DeleteUser evmAddress =
     exec ''failed to delete user'' (\<lambda>w. w\<lparr>us_rows := delete_where (\<lambda>d. UD_EVMAddress d = evmAddress) (us_rows w)\<rparr>)"

definition ListUsers :: "('a api_db_scheme, goerr + User list) state" where
  "ListUsers = query ''failed to list users'' (\<lambda>w. map toUser (us_rows w))"

definition ListCustodialUsers :: "('a api_db_scheme, goerr + User list) state" where
  "ListCustodialUsers = query ''failed to list custodial users''
     (\<lambda>w. map toUser (filter (\<lambda>d. UD_KeyMode d = KeyModeCustodial) (us_rows w)))"

text \<open>A user without a stored key has no key, which is not an error.\<close>

definition getUserKeyBy ::
  "(string \<Rightarrow> goerr + bytes) \<Rightarrow> (UserDao \<Rightarrow> bool) \<Rightarrow> ('a api_db_scheme, goerr + bytes option) state" where
  "getUserKeyBy decryptor matches = do {
     q \<leftarrow> query ''failed to get user key'' (\<lambda>w. find matches (us_rows w));
     case q of
       Inl e \<Rightarrow> ret (Inl e)
     | Inr None \<Rightarrow> ret (Inl ErrKeyNotFound)
     | Inr (Some dao) \<Rightarrow>
         (case UD_CantonPrivateKeyEncrypted dao of
            None \<Rightarrow> ret (Inr None)
          | Some enc \<Rightarrow>
              if enc = '''' then ret (Inr None)
              else (case decryptor enc of
                      Inl e \<Rightarrow> ret (Inl (Errorf ''failed to decrypt key'' e))
                    | Inr key \<Rightarrow> ret (Inr (Some key)))) }"

definition GetUserKeyByCantonPartyID ::
  "(string \<Rightarrow> goerr + bytes) \<Rightarrow> string \<Rightarrow> ('a api_db_scheme, goerr + bytes option) state" where
  "GetUserKeyByCantonPartyID decryptor partyID = getUserKeyBy decryptor (\<lambda>d. UD_CantonPartyID d = Some partyID)"

definition GetUserKeyByEVMAddress ::
  "(string \<Rightarrow> goerr + bytes) \<Rightarrow> string \<Rightarrow> ('a api_db_scheme, goerr + bytes option) state" where
  "GetUserKeyByEVMAddress decryptor evmAddress = getUserKeyBy decryptor (\<lambda>d. UD_EVMAddress d = evmAddress)"

definition GetUserKeyByFingerprint ::
  "(string \<Rightarrow> goerr + bytes) \<Rightarrow> string \<Rightarrow> ('a api_db_scheme, goerr + bytes option) state" where
  "GetUserKeyByFingerprint decryptor fingerprint = getUserKeyBy decryptor (\<lambda>d. UD_Fingerprint d = fingerprint)"

section \<open>The whitelist table\<close>

definition store_IsWhitelisted :: "string \<Rightarrow> ('a api_db_scheme, goerr + bool) state" where
  "store_IsWhitelisted evmAddress = query ''failed to check whitelist''
     (\<lambda>w. list_ex (\<lambda>d. ToLower (WD_EVMAddress d) = ToLower evmAddress) (wl_rows w))"

definition is_space :: "char \<Rightarrow> bool" where
  "is_space c \<longleftrightarrow> c \<in> {CHR 0x09, CHR 0x0A, CHR 0x0B, CHR 0x0C, CHR 0x0D, CHR '' ''}"

definition TrimSpace :: "string \<Rightarrow> string" where
  "TrimSpace s = rev (dropWhile is_space (rev (dropWhile is_space s)))"

definition AddToWhitelist :: "string \<Rightarrow> string \<Rightarrow> ('a api_db_scheme, goerr + unit) state" where
  "AddToWhitelist evmAddress0 note =
     (let evmAddress = TrimSpace evmAddress0
      in if evmAddress = '''' then ret (Inl (Err ''evm address is required''))
         else
           let n = (if TrimSpace note \<noteq> '''' then Some note else None)
           in exec ''failed to add whitelist entry'' (\<lambda>w. w\<lparr>wl_rows :=
                upsert WD_EVMAddress (\<lambda>d. d\<lparr>WD_Note := n\<rparr>)
                  \<lparr>WD_EVMAddress = evmAddress, WD_Note = n, WD_CreatedAt = pg_now w\<rparr> (wl_rows w)\<rparr>))"

definition RemoveFromWhitelist :: "string \<Rightarrow> ('a api_db_scheme, goerr + bool) state" where
  "RemoveFromWhitelist evmAddress = do {
     let p = (\<lambda>d. ToLower (WD_EVMAddress d) = ToLower evmAddress);
     r \<leftarrow> exec_rows ''failed to remove whitelist entry'' (\<lambda>w. length (filter p (wl_rows w)))
            (\<lambda>w. w\<lparr>wl_rows := delete_where p (wl_rows w)\<rparr>);
     case r of Inl e \<Rightarrow> ret (Inl e) | Inr n \<Rightarrow> ret (Inr (n > 0)) }"

definition ListWhitelist :: "string \<Rightarrow> int \<Rightarrow> ('a api_db_scheme, goerr + WhitelistEntry list) state" where
  "ListWhitelist cursor limit = query ''failed to list whitelist entries''
     (\<lambda>w. map toWhitelistEntry (limit_offset limit 0 (sort_key (\<lambda>d. ToLower (WD_EVMAddress d))
        (filter (\<lambda>d. cursor = '''' \<or> ToLower cursor < ToLower (WD_EVMAddress d)) (wl_rows w)))))"

section \<open>The whitelist service\<close>

definition HasPrefix :: "string \<Rightarrow> string \<Rightarrow> bool" where
  "HasPrefix s p \<longleftrightarrow> take (length p) s = p"

definition ValidateEVMAddress :: "string \<Rightarrow> bool" where
  "ValidateEVMAddress address \<longleftrightarrow>
     HasPrefix address ''0x'' \<and> length address = 42 \<and>
     (case hex_DecodeString (drop 2 address) of Inl _ \<Rightarrow> False | Inr _ \<Rightarrow> True)"

definition NormalizeAddress :: "GethCommon \<Rightarrow> string \<Rightarrow> string" where
  "NormalizeAddress G address = G_AddressHex G (G_HexToAddress G address)"

definition DefaultLimit :: int where "DefaultLimit = 50"
definition MaxLimit :: int where "MaxLimit = 200"

definition ErrEntryNotFound :: goerr where "ErrEntryNotFound = Sentinel ''whitelist entry not found''"

record WhitelistPage =
  WP_Items :: "WhitelistEntry list"
  WP_NextCursor :: string
  WP_HasMore :: bool

definition IsWhitelisted :: "bool \<Rightarrow> string \<Rightarrow> ('a api_db_scheme, goerr + bool) state" where
  "IsWhitelisted skip evmAddress = (if skip then ret (Inr True) else store_IsWhitelisted evmAddress)"

definition normalizeAddress :: "GethCommon \<Rightarrow> string \<Rightarrow> goerr + string" where
  "normalizeAddress G evmAddress =
     (if \<not> ValidateEVMAddress evmAddress then Inl (BadRequestError None ''valid evm address is required'')
      else Inr (NormalizeAddress G evmAddress))"

definition whitelist_Add :: "GethCommon \<Rightarrow> string \<Rightarrow> string \<Rightarrow> ('a api_db_scheme, goerr + unit) state" where
  "whitelist_Add G evmAddress note =
     (case normalizeAddress G evmAddress of
        Inl e \<Rightarrow> ret (Inl e)
      | Inr addr \<Rightarrow> do {
          r \<leftarrow> AddToWhitelist addr note;
          case r of
            Inl e \<Rightarrow> ret (Inl (GeneralError (Some (Errorf ''add to whitelist'' e))))
          | Inr _ \<Rightarrow> ret (Inr ()) })"

definition whitelist_Remove :: "GethCommon \<Rightarrow> string \<Rightarrow> ('a api_db_scheme, goerr + unit) state" where
  "whitelist_Remove G evmAddress =
     (case normalizeAddress G evmAddress of
        Inl e \<Rightarrow> ret (Inl e)
      | Inr addr \<Rightarrow> do {
          r \<leftarrow> RemoveFromWhitelist addr;
          case r of
            Inl e \<Rightarrow> ret (Inl (GeneralError (Some (Errorf ''remove from whitelist'' e))))
          | Inr removed \<Rightarrow>
              if \<not> removed then ret (Inl (ResourceNotFoundError (Some ErrEntryNotFound) ''address not whitelisted''))
              else ret (Inr ()) })"

definition clampLimit :: "int \<Rightarrow> int" where
  "clampLimit limit0 =
     (let limit = (if limit0 < 1 then DefaultLimit else limit0) in if limit > MaxLimit then MaxLimit else limit)"

definition whitelist_List :: "string \<Rightarrow> int \<Rightarrow> ('a api_db_scheme, goerr + WhitelistPage) state" where
  "whitelist_List cursor limit0 = do {
     let limit = clampLimit limit0;
     r \<leftarrow> ListWhitelist cursor (limit + 1);
     case r of
       Inl e \<Rightarrow> ret (Inl (GeneralError (Some (Errorf ''list whitelist'' e))))
     | Inr rows \<Rightarrow>
         let hasMore = int (length rows) > limit;
             items = (if hasMore then take (nat limit) rows else rows)
         in ret (Inr \<lparr>WP_Items = items,
              WP_NextCursor = (if hasMore \<and> items \<noteq> [] then WE_EVMAddress (last items) else ''''),
              WP_HasMore = hasMore\<rparr>) }"

section \<open>Paging through the whitelist\<close>

text \<open>A client that follows \<open>next_cursor\<close> until \<open>has_more\<close> is false, for at most \<open>fuel\<close> pages.\<close>

fun walk_pages :: "nat \<Rightarrow> string \<Rightarrow> int \<Rightarrow> ('a api_db_scheme, goerr + WhitelistEntry list option) state" where
  "walk_pages 0 cursor limit = ret (Inr None)"
| "walk_pages (Suc fuel) cursor limit = do {
     r \<leftarrow> whitelist_List cursor limit;
     case r of
       Inl e \<Rightarrow> ret (Inl e)
     | Inr page \<Rightarrow>
         if \<not> WP_HasMore page then ret (Inr (Some (WP_Items page)))
         else do {
           rest \<leftarrow> walk_pages fuel (WP_NextCursor page) limit;
           (case rest of
              Inl e \<Rightarrow> ret (Inl e)
            | Inr items \<Rightarrow> ret (Inr (map_option ((@) (WP_Items page)) items))) } }"

abbreviation wl_key :: "WhitelistDao \<Rightarrow> string" where
  "wl_key d \<equiv> ToLower (WD_EVMAddress d)"

definition wl_sorted :: "WhitelistDao list \<Rightarrow> WhitelistDao list" where
  "wl_sorted rows = sort_key wl_key rows"

lemma clampLimit_bounds: "1 \<le> clampLimit l \<and> clampLimit l \<le> MaxLimit"
  by (simp add: clampLimit_def DefaultLimit_def MaxLimit_def Let_def)

lemma strict_filter_drop:
  fixes key :: "'r \<Rightarrow> 'k :: linorder"
  assumes "sorted_wrt (<) (map key S)" "0 < n" "n \<le> length S"
  shows "filter (\<lambda>d. key (S ! (n - 1)) < key d) S = drop n S"
proof -
  have less: "key (S ! i) < key (S ! j)" if "i < j" "j < length S" for i j
    using sorted_wrt_nth_less[OF assms(1), of i j] that by simp
  have "filter (\<lambda>d. key (S ! (n - 1)) < key d) (take n S) = []"
  proof -
    have "\<not> key (S ! (n - 1)) < key (S ! i)" if "i < n" for i
      using less[of i "n - 1"] that assms(2,3) by (cases "i = n - 1") (auto simp: not_less less_imp_le)
    then show ?thesis using assms(3) by (auto simp: filter_empty_conv in_set_conv_nth)
  qed
  moreover have "filter (\<lambda>d. key (S ! (n - 1)) < key d) (drop n S) = drop n S"
    using less assms(2) by (auto simp: filter_id_conv in_set_conv_nth)
  ultimately show ?thesis
    by (metis append_take_drop_id filter_append append_Nil)
qed

lemma ListWhitelist_run:
  assumes "pg_faults w = []" "0 < limit"
  shows "run_state (ListWhitelist cursor limit) w =
    (Inr (map toWhitelistEntry (take (nat limit) (filter (\<lambda>d. cursor = '''' \<or> ToLower cursor < wl_key d) (wl_sorted (wl_rows w))))), w)"
  using assms by (simp add: ListWhitelist_def query_def limit_offset_def wl_sorted_def filter_sort)

lemma whitelist_List_run:
  assumes "pg_faults w = []"
  shows "run_state (whitelist_List cursor limit) w =
    (let rest = filter (\<lambda>d. cursor = '''' \<or> ToLower cursor < wl_key d) (wl_sorted (wl_rows w)); n = nat (clampLimit limit)
     in (Inr \<lparr>WP_Items = map toWhitelistEntry (take n rest),
             WP_NextCursor = (if n < length rest then WD_EVMAddress (rest ! (n - 1)) else ''''),
             WP_HasMore = (n < length rest)\<rparr>, w))"
proof -
  have n: "0 < nat (clampLimit limit)" "nat (clampLimit limit + 1) = Suc (nat (clampLimit limit))" "0 < clampLimit limit + 1"
    using clampLimit_bounds[of limit] by auto
  have "int (length xs) > clampLimit limit \<longleftrightarrow> nat (clampLimit limit) < length xs" for xs :: "WhitelistEntry list"
    using clampLimit_bounds[of limit] by linarith
  with n ListWhitelist_run[OF assms n(3)] show ?thesis
    by (auto simp: whitelist_List_def Let_def last_conv_nth toWhitelistEntry_def take_map min_def)
qed

lemma walk_from:
  assumes "pg_faults w = []" "sorted_wrt (<) (map wl_key (wl_sorted (wl_rows w)))" "\<forall>d \<in> set (wl_rows w). WD_EVMAddress d \<noteq> ''''"
    and "n \<le> length (wl_rows w)" "length (wl_rows w) - n < fuel"
    and "cursor = (if n = 0 then '''' else WD_EVMAddress (wl_sorted (wl_rows w) ! (n - 1)))"
  shows "run_state (walk_pages fuel cursor limit) w = (Inr (Some (map toWhitelistEntry (drop n (wl_sorted (wl_rows w))))), w)"
  using assms(4-)
proof (induction fuel arbitrary: n cursor)
  case (Suc fuel)
  let ?S = "wl_sorted (wl_rows w)" and ?n = "nat (clampLimit limit)"
  have len: "length ?S = length (wl_rows w)" and set: "set ?S = set (wl_rows w)" by (simp_all add: wl_sorted_def)
  have "cursor \<noteq> ''''" if "n \<noteq> 0"
  proof -
    have "?S ! (n - 1) \<in> set ?S" using that Suc.prems(1) by (simp add: len)
    with that assms(3) Suc.prems(3) show ?thesis by (auto simp: set)
  qed
  then have rest: "filter (\<lambda>d. cursor = '''' \<or> ToLower cursor < wl_key d) ?S = drop n ?S"
    using strict_filter_drop[OF assms(2), of n] Suc.prems(1,3) by (auto simp: len)
  show ?case
  proof (cases "?n < length (drop n ?S)")
    case False
    with whitelist_List_run[OF assms(1), of cursor limit] rest show ?thesis by (simp add: Let_def)
  next
    case True
    have pos: "0 < ?n" using clampLimit_bounds[of limit] by linarith
    from True pos have idx: "drop n ?S ! (?n - 1) = ?S ! (n + ?n - 1)" by simp
    have "run_state (walk_pages fuel (WD_EVMAddress (drop n ?S ! (?n - 1))) limit) w =
        (Inr (Some (map toWhitelistEntry (drop (n + ?n) ?S))), w)"
      by (rule Suc.IH) (use True pos Suc.prems(2) idx in \<open>auto simp: len\<close>)
    moreover have "map toWhitelistEntry (take ?n (drop n ?S)) @ map toWhitelistEntry (drop (n + ?n) ?S) = map toWhitelistEntry (drop n ?S)"
      by (metis add.commute append_take_drop_id drop_drop map_append)
    ultimately show ?thesis
      using True whitelist_List_run[OF assms(1), of cursor limit] rest by (simp add: Let_def)
  qed
qed simp

lemma strict_sorted_key:
  assumes "distinct (map wl_key rows)"
  shows "sorted_wrt (<) (map wl_key (wl_sorted rows))"
proof -
  have "distinct (map wl_key (wl_sorted rows))"
    using assms by (simp add: wl_sorted_def distinct_map inj_on_def)
  moreover have "sorted (map wl_key (wl_sorted rows))" by (simp add: wl_sorted_def)
  ultimately show ?thesis by (simp add: strict_sorted_iff)
qed

text \<open>
  C16: an administrator who follows the cursors of the whitelist listing sees every entry exactly
  once, in the order of the addresses, whatever page size is asked for (zero and negative sizes
  included), and the walk ends after at most one page more than there are entries.
\<close>

theorem whitelist_walk_complete:
  assumes "pg_faults w = []" "distinct (map (\<lambda>d. ToLower (WD_EVMAddress d)) (wl_rows w))"
    and "\<forall>d \<in> set (wl_rows w). WD_EVMAddress d \<noteq> ''''" "length (wl_rows w) < fuel"
  shows "\<exists>items. run_state (walk_pages fuel '''' limit) w = (Inr (Some items), w) \<and>
    mset items = mset (map toWhitelistEntry (wl_rows w)) \<and> sorted (map (\<lambda>e. ToLower (WE_EVMAddress e)) items)"
proof -
  have "run_state (walk_pages fuel '''' limit) w = (Inr (Some (map toWhitelistEntry (wl_sorted (wl_rows w)))), w)"
    using walk_from[OF assms(1) strict_sorted_key[OF assms(2)] assms(3), of 0 fuel "''''" limit] assms(4) by simp
  moreover have "sorted (map (\<lambda>e. ToLower (WE_EVMAddress e)) (map toWhitelistEntry (wl_sorted (wl_rows w))))"
    by (simp add: wl_sorted_def toWhitelistEntry_def comp_def)
  ultimately show ?thesis by (auto simp: wl_sorted_def)
qed

section \<open>The whitelist as a set of addresses\<close>

definition wl_set :: "'a api_db_scheme \<Rightarrow> string set" where
  "wl_set w = wl_key ` set (wl_rows w)"

definition wl_ok :: "GethCommon \<Rightarrow> 'a api_db_scheme \<Rightarrow> bool" where
  "wl_ok G w \<longleftrightarrow> unique_rows WD_EVMAddress (wl_rows w) \<and>
     (\<forall>d \<in> set (wl_rows w). ValidateEVMAddress (WD_EVMAddress d) \<and> NormalizeAddress G (WD_EVMAddress d) = WD_EVMAddress d)"

lemma hex_no_space:
  assumes "hex_DecodeString s = Inr bs" "c \<in> set s"
  shows "\<not> is_space c"
proof -
  have digit: "hex_val x = Some v \<Longrightarrow> \<not> is_space x" for x v
    by (auto simp: hex_val_def is_space_def)
  from assms show ?thesis
    by (induction s arbitrary: bs rule: hex_DecodeString.induct) (auto split: option.splits sum.splits dest: digit)
qed

lemma valid_address:
  "ValidateEVMAddress a \<longleftrightarrow> take 2 a = ''0x'' \<and> length a = 42 \<and> (\<exists>bs. hex_DecodeString (drop 2 a) = Inr bs)"
  by (auto simp: ValidateEVMAddress_def HasPrefix_def numeral_2_eq_2 split: sum.splits)

lemma trim_address: "ValidateEVMAddress a \<Longrightarrow> TrimSpace a = a \<and> a \<noteq> ''''"
proof -
  assume a: "ValidateEVMAddress a"
  then obtain bs where bs: "hex_DecodeString (drop 2 a) = Inr bs" "take 2 a = ''0x''" "length a = 42"
    by (auto simp: valid_address)
  have "\<not> is_space c" if "c \<in> set a" for c
  proof -
    from that have "c \<in> set (take 2 a) \<or> c \<in> set (drop 2 a)" by (metis Un_iff append_take_drop_id set_append)
    with bs hex_no_space[OF bs(1)] show ?thesis by (auto simp: is_space_def)
  qed
  then have "dropWhile is_space a = a" "dropWhile is_space (rev a) = rev a"
    by (auto simp: dropWhile_eq_self_iff hd_rev)
  with bs(3) show ?thesis by (auto simp: TrimSpace_def)
qed

text \<open>What go-ethereum documents of addresses: parsing ignores case, printing parses back.\<close>

locale geth_addresses =
  fixes G :: GethCommon
  assumes hex_case: "ToLower a = ToLower b \<Longrightarrow> G_HexToAddress G a = G_HexToAddress G b"
    and hex_shape: "ValidateEVMAddress a \<Longrightarrow> ValidateEVMAddress (G_AddressHex G (G_HexToAddress G a))"
    and hex_lower: "ValidateEVMAddress a \<Longrightarrow> ToLower (G_AddressHex G (G_HexToAddress G a)) = ToLower a"
begin

lemma normalize_lower: "ValidateEVMAddress a \<Longrightarrow> ToLower (NormalizeAddress G a) = ToLower a"
  by (simp add: NormalizeAddress_def hex_lower)

lemma normalize_idem: "ValidateEVMAddress a \<Longrightarrow> NormalizeAddress G (NormalizeAddress G a) = NormalizeAddress G a"
  using hex_case[OF normalize_lower[of a]] by (simp add: NormalizeAddress_def)

lemma normal_unique: "NormalizeAddress G a = a \<Longrightarrow> NormalizeAddress G b = b \<Longrightarrow> ToLower a = ToLower b \<Longrightarrow> a = b"
  using hex_case[of a b] by (simp add: NormalizeAddress_def)

lemma wl_distinct: "wl_ok G w \<Longrightarrow> distinct (map wl_key (wl_rows w))"
  unfolding wl_ok_def unique_rows_def distinct_map inj_on_def by (metis normal_unique)

lemma add_refines:
  assumes "pg_faults w = []" "wl_ok G w" "ValidateEVMAddress a"
  shows "\<exists>w'. run_state (whitelist_Add G a note) w = (Inr (), w') \<and> wl_ok G w' \<and> wl_set w' = insert (ToLower a) (wl_set w)"
proof -
  define addr where "addr = NormalizeAddress G a"
  define n where "n = (if TrimSpace note \<noteq> '''' then Some note else None)"
  define rows where "rows = upsert WD_EVMAddress (\<lambda>d. d\<lparr>WD_Note := n\<rparr>)
    \<lparr>WD_EVMAddress = addr, WD_Note = n, WD_CreatedAt = pg_now w\<rparr> (wl_rows w)"
  have addr: "ValidateEVMAddress addr" "NormalizeAddress G addr = addr" "ToLower addr = ToLower a"
    using assms(3) by (simp_all add: addr_def normalize_idem normalize_lower) (simp add: NormalizeAddress_def hex_shape)
  have run: "run_state (whitelist_Add G a note) w = (Inr (), w\<lparr>wl_rows := rows\<rparr>)"
    using assms(1,3) trim_address[OF addr(1)]
    by (simp add: whitelist_Add_def normalizeAddress_def AddToWhitelist_def exec_def rows_def n_def addr_def Let_def)
  have keys: "WD_EVMAddress ` set rows = insert addr (WD_EVMAddress ` set (wl_rows w))"
  proof (cases "row_of WD_EVMAddress addr (wl_rows w)")
    case None
    then show ?thesis by (auto simp: rows_def upsert_def)
  next
    case (Some r)
    then have "addr \<in> WD_EVMAddress ` set (wl_rows w)" by (metis option.simps(3) row_of_None)
    moreover have "map WD_EVMAddress rows = map WD_EVMAddress (wl_rows w)"
      using Some by (simp add: rows_def upsert_def update_where_def)
    then have "WD_EVMAddress ` set rows = WD_EVMAddress ` set (wl_rows w)" by (metis list.set_map)
    ultimately show ?thesis by auto
  qed
  have "unique_rows WD_EVMAddress rows" using assms(2) by (simp add: rows_def wl_ok_def)
  moreover have "ValidateEVMAddress (WD_EVMAddress d) \<and> NormalizeAddress G (WD_EVMAddress d) = WD_EVMAddress d" if "d \<in> set rows" for d
    using imageI[OF that, of WD_EVMAddress] assms(2) addr unfolding keys by (auto simp: wl_ok_def)
  ultimately have "wl_ok G (w\<lparr>wl_rows := rows\<rparr>)" by (simp add: wl_ok_def)
  moreover have "wl_set (w\<lparr>wl_rows := rows\<rparr>) = insert (ToLower a) (wl_set w)"
    using arg_cong[OF keys, of "image ToLower"] addr(3) by (simp add: wl_set_def image_image)
  ultimately show ?thesis using run by blast
qed

lemma remove_refines:
  assumes "pg_faults w = []" "wl_ok G w" "ValidateEVMAddress a"
  shows "\<exists>r w'. run_state (whitelist_Remove G a) w = (r, w') \<and> wl_ok G w' \<and> wl_set w' = wl_set w - {ToLower a} \<and>
    (r = Inr () \<longleftrightarrow> ToLower a \<in> wl_set w)"
proof -
  let ?w = "w\<lparr>wl_rows := delete_where (\<lambda>d. wl_key d = ToLower a) (wl_rows w)\<rparr>"
  let ?r = "if \<exists>d \<in> set (wl_rows w). wl_key d = ToLower a then Inr () else Inl (ResourceNotFoundError (Some ErrEntryNotFound) ''address not whitelisted'')"
  have "run_state (whitelist_Remove G a) w = (?r, ?w)"
    using assms(1,3) by (auto simp: whitelist_Remove_def normalizeAddress_def RemoveFromWhitelist_def exec_rows_def
        normalize_lower Let_def filter_empty_conv)
  moreover have "wl_ok G ?w" using assms(2) by (auto simp: wl_ok_def delete_where_def unique_rows_def distinct_map_filter)
  moreover have "wl_set ?w = wl_set w - {ToLower a}" by (auto simp: wl_set_def delete_where_def)
  moreover have "?r = Inr () \<longleftrightarrow> ToLower a \<in> wl_set w" by (auto simp: wl_set_def intro: rev_image_eqI)
  ultimately show ?thesis by blast
qed

end

lemma check_refines:
  assumes "pg_faults w = []"
  shows "run_state (IsWhitelisted skip b) w = (Inr (skip \<or> ToLower b \<in> wl_set w), w)"
  using assms by (auto simp: IsWhitelisted_def store_IsWhitelisted_def query_def wl_set_def list_ex_iff intro: rev_image_eqI)

text \<open>
  An instance: addresses printed in lower case, hashes that are the bytes themselves (\<open>keccak\<close>
  stands for any function).
\<close>

definition pad_left :: "bytes \<Rightarrow> nat \<Rightarrow> bytes" where
  "pad_left b n = replicate (n - length b) 0 @ b"

definition plain_geth :: GethCommon where
  "plain_geth =
     \<lparr>G_HexToAddress = \<lambda>s. case hex_DecodeString (drop 2 s) of Inl _ \<Rightarrow> [] | Inr bs \<Rightarrow> bs,
      G_AddressHex = \<lambda>b. ''0x'' @ hex_EncodeToString b, G_BytesToHash = \<lambda>b. b,
      G_HashHex = \<lambda>b. ''0x'' @ hex_EncodeToString b, G_LeftPadBytes = pad_left, G_Keccak256Hash = \<lambda>b. b\<rparr>"

lemma hex_val_lower: "hex_val (lower_char c) = hex_val c"
  by (auto simp: hex_val_def lower_char_def Let_def of_char_of)

lemma hex_decode_lower:
  "hex_DecodeString (map lower_char s) = Inr bs \<longleftrightarrow> hex_DecodeString s = Inr bs"
  by (induction s arbitrary: bs rule: induct_list012) (auto simp: hex_val_lower split: option.splits sum.splits, blast)

lemma hex_char_val: "hex_val c = Some v \<Longrightarrow> hex_char v = lower_char c \<and> v < 16"
  by (auto simp: hex_val_def hex_char_def lower_char_def digit_char_def Let_def split: if_splits)

lemma hex_encode_decode:
  assumes "hex_DecodeString s = Inr bs"
  shows "hex_EncodeToString bs = map lower_char s"
  using assms
proof (induction s arbitrary: bs rule: hex_DecodeString.induct)
  case (3 c d s)
  then obtain h l bs' where hl: "hex_val c = Some h" "hex_val d = Some l" "hex_DecodeString s = Inr bs'" "bs = of_nat (16 * h + l) # bs'"
    by (auto split: option.splits sum.splits)
  from hex_char_val[OF hl(1)] hex_char_val[OF hl(2)] have v: "hex_char h = lower_char c" "hex_char l = lower_char d" "h < 16" "l < 16" by auto
  then have "unat (of_nat (16 * h + l) :: octet) = 16 * h + l"
    by (simp only: unat_of_nat) simp
  with v 3 hl show ?case by simp
qed (auto split: option.splits)

lemma lower_idem [simp]: "lower_char (lower_char c) = lower_char c"
  by (auto simp: lower_char_def Let_def of_char_of)

lemma plain_normalize:
  assumes "ValidateEVMAddress a"
  shows "NormalizeAddress plain_geth a = map lower_char a"
proof -
  from assms obtain bs where bs: "hex_DecodeString (drop 2 a) = Inr bs" "take 2 a = ''0x''"
    by (auto simp: valid_address)
  have "map lower_char a = map lower_char (take 2 a @ drop 2 a)" by simp
  also have "\<dots> = ''0x'' @ map lower_char (drop 2 a)" unfolding map_append bs(2) by (simp add: lower_char_def)
  finally show ?thesis using bs hex_encode_decode[OF bs(1)] by (simp add: NormalizeAddress_def plain_geth_def)
qed

interpretation plain: geth_addresses plain_geth
proof
  fix a b assume "ToLower a = ToLower b"
  then have "map lower_char (drop 2 a) = map lower_char (drop 2 b)" by (simp add: ToLower_def flip: drop_map)
  then show "G_HexToAddress plain_geth a = G_HexToAddress plain_geth b"
    using hex_decode_lower[of "drop 2 a"] hex_decode_lower[of "drop 2 b"] by (simp add: plain_geth_def split: sum.splits) (metis Inl_Inr_False Inr_inject)
next
  fix a assume a: "ValidateEVMAddress a"
  have low: "G_AddressHex plain_geth (G_HexToAddress plain_geth a) = map lower_char a"
    using plain_normalize[OF a] by (simp add: NormalizeAddress_def)
  then show "ToLower (G_AddressHex plain_geth (G_HexToAddress plain_geth a)) = ToLower a" by (simp add: ToLower_def)
  have "take 2 (map lower_char a) = map lower_char ''0x''"
    using a unfolding valid_address take_map by simp
  then have "take 2 (map lower_char a) = ''0x''" by (simp add: lower_char_def)
  with a show "ValidateEVMAddress (G_AddressHex plain_geth (G_HexToAddress plain_geth a))"
    unfolding low by (simp add: valid_address drop_map hex_decode_lower)
qed

text \<open>
  C14: the whitelist service implements a set of addresses without regard to letter case.  Adding an
  address puts it into the set (also when it is there already), removing it takes it out and reports
  not-found exactly when it was absent, the check that gates registration and transactions answers
  membership, and every operation keeps the rows in checksummed form and without duplicates.
\<close>

theorem whitelist_refines_set:
  assumes "geth_addresses G" "pg_faults w = []" "wl_ok G w" "ValidateEVMAddress a"
  shows "(\<exists>w'. run_state (whitelist_Add G a note) w = (Inr (), w') \<and> wl_ok G w' \<and> wl_set w' = insert (ToLower a) (wl_set w)) \<and>
    (\<exists>r w'. run_state (whitelist_Remove G a) w = (r, w') \<and> wl_ok G w' \<and> wl_set w' = wl_set w - {ToLower a} \<and>
      (r = Inr () \<longleftrightarrow> ToLower a \<in> wl_set w)) \<and>
    run_state (IsWhitelisted False b) w = (Inr (ToLower b \<in> wl_set w), w)"
  using geth_addresses.add_refines[OF assms] geth_addresses.remove_refines[OF assms] check_refines[OF assms(2), of False b] by simp

definition demo_api :: api_db where
  "demo_api =
     \<lparr>pg_now = 7, pg_faults = [], mp_rows = [], mp_seq = 0, evm_txs = [], evm_logs = [], evm_state = [],
      us_rows = [], us_seq = 0, wl_rows =
        [\<lparr>WD_EVMAddress = ''0xb794f5ea0ba39494ce839613fffba74279579268'', WD_Note = Some ''ops'', WD_CreatedAt = 1\<rparr>,
         \<lparr>WD_EVMAddress = ''0x4838b106fce9647bdf1e7877bf73ce8b0bad5f97'', WD_Note = None, WD_CreatedAt = 2\<rparr>]\<rparr>"

lemma demo_ok: "wl_ok plain_geth demo_api"
proof -
  have "ValidateEVMAddress (WD_EVMAddress d) \<and> map lower_char (WD_EVMAddress d) = WD_EVMAddress d" if "d \<in> set (wl_rows demo_api)" for d
    using that by (auto simp: demo_api_def ValidateEVMAddress_def HasPrefix_def hex_val_def lower_char_def)
  then show ?thesis by (simp add: wl_ok_def plain_normalize) (simp add: demo_api_def unique_rows_def)
qed

theorem whitelist_walk_complete_witness:
  "\<exists>items. run_state (walk_pages 3 '''' 0) demo_api = (Inr (Some items), demo_api) \<and>
    mset items = mset (map toWhitelistEntry (wl_rows demo_api)) \<and> sorted (map (\<lambda>e. ToLower (WE_EVMAddress e)) items)"
  by (rule whitelist_walk_complete) (use plain.wl_distinct[OF demo_ok] in \<open>simp_all add: demo_api_def\<close>)

theorem whitelist_refines_set_witness:
  "(\<exists>w'. run_state (whitelist_Add plain_geth ''0x742D35CC6634C0532925A3B844BC454E4438F44E'' ''desk'') demo_api = (Inr (), w') \<and>
      wl_ok plain_geth w' \<and> wl_set w' = insert (ToLower ''0x742D35CC6634C0532925A3B844BC454E4438F44E'') (wl_set demo_api)) \<and>
    (\<exists>r w'. run_state (whitelist_Remove plain_geth ''0x742D35CC6634C0532925A3B844BC454E4438F44E'') demo_api = (r, w') \<and>
      wl_ok plain_geth w' \<and> wl_set w' = wl_set demo_api - {ToLower ''0x742D35CC6634C0532925A3B844BC454E4438F44E''} \<and>
      (r = Inr () \<longleftrightarrow> ToLower ''0x742D35CC6634C0532925A3B844BC454E4438F44E'' \<in> wl_set demo_api)) \<and>
    run_state (IsWhitelisted False ''0xB794F5EA0BA39494CE839613FFFBA74279579268'') demo_api =
      (Inr (ToLower ''0xB794F5EA0BA39494CE839613FFFBA74279579268'' \<in> wl_set demo_api), demo_api)"
  by (rule whitelist_refines_set[OF plain.geth_addresses_axioms _ demo_ok])
    (simp_all add: demo_api_def ValidateEVMAddress_def HasPrefix_def hex_val_def)

end
