(* ===== verification/Ethrpc_Chain.thy ===== *)
theory Ethrpc_Chain
  imports Ethrpc_Service
begin

text \<open>
  The synthetic chain: what the receipts, the logs and the block counter look like, how they hang
  together with the mempool, and that sealing a block keeps it so.
\<close>

section \<open>The shape of the chain\<close>

definition block_txs :: "u64 \<Rightarrow> EvmTransactionDao list \<Rightarrow> EvmTransactionDao list" where
  "block_txs n txs = filter (\<lambda>t. ET_BlockNumber t = n) txs"

definition block_logs :: "u64 \<Rightarrow> EvmLogDao list \<Rightarrow> EvmLogDao list" where
  "block_logs n logs = filter (\<lambda>l. EL_BlockNumber l = n) logs"

definition chain_ok :: "EvmTransactionDao list \<Rightarrow> EvmLogDao list \<Rightarrow> u64 \<Rightarrow> bool" where
  "chain_ok txs logs latest \<longleftrightarrow>
     unique_rows ET_TxHash txs \<and> unat latest \<le> length txs \<and>
     (\<forall>t \<in> set txs. ET_Status t \<in> {0, 1} \<and> 0 < ET_BlockNumber t \<and> ET_BlockNumber t \<le> latest) \<and>
     (\<forall>n. 0 < n \<and> n \<le> latest \<longrightarrow> block_txs n txs \<noteq> []) \<and>
     (\<forall>n. map ET_TxIndex (block_txs n txs) = [0..<length (block_txs n txs)] \<and>
          map EL_LogIndex (block_logs n logs) = [0..<length (block_logs n logs)] \<and>
          map EL_TxHash (block_logs n logs) = map ET_TxHash (filter (\<lambda>t. ET_Status t = 1) (block_txs n txs)))"

lemma chain_ok_empty [simp]: "chain_ok [] [] 0"
  by (auto simp: chain_ok_def block_txs_def block_logs_def)

lemma log_has_tx: "chain_ok txs logs latest \<Longrightarrow> l \<in> set logs \<Longrightarrow> EL_TxHash l \<in> ET_TxHash ` set txs"
proof -
  assume ok: "chain_ok txs logs latest" and l: "l \<in> set logs"
  then have "EL_TxHash l \<in> set (map EL_TxHash (block_logs (EL_BlockNumber l) logs))" by (auto simp: block_logs_def)
  with ok have "EL_TxHash l \<in> set (map ET_TxHash (filter (\<lambda>t. ET_Status t = 1) (block_txs (EL_BlockNumber l) txs)))"
    by (simp add: chain_ok_def)
  then show ?thesis by (auto simp: block_txs_def)
qed

section \<open>A new block\<close>

definition new_txs :: "u64 \<Rightarrow> 'w pendingBlock \<Rightarrow> time \<Rightarrow> nat \<Rightarrow> MempoolEntry list \<Rightarrow> EvmTransactionDao list" where
  "new_txs gas block now i es = map (\<lambda>(j, e). toEvmTransactionDao now (mined_tx gas block j e)) (List.enumerate i es)"

definition new_logs :: "GethCommon \<Rightarrow> 'w pendingBlock \<Rightarrow> u64 \<Rightarrow> nat \<Rightarrow> nat \<Rightarrow> MempoolEntry list \<Rightarrow> EvmLogDao list" where
  "new_logs G block ts i li es =
     map (\<lambda>(k, j, e). toEvmLogDao (buildTransferLog G e block j k ts))
       (List.enumerate li (filter (\<lambda>(j, e). ME_Status e = MempoolCompleted) (List.enumerate i es)))"

lemma insert_ignore_new: "key r \<notin> key ` set rows \<Longrightarrow> insert_ignore key r rows = rows @ [r]"
  by (simp add: insert_ignore_def row_of_None)

lemma dao_hash [simp]:
  "ET_TxHash (toEvmTransactionDao now (mined_tx gas block i e)) = ME_TxHash e"
  "EL_TxHash (toEvmLogDao (buildTransferLog G e block i li ts)) = ME_TxHash e"
  by (simp_all add: toEvmTransactionDao_def mined_tx_def toEvmLogDao_def buildTransferLog_def Let_def)

lemma seal_appends:
  assumes "distinct (map ME_TxHash es)"
    and "\<forall>e \<in> set es. ME_TxHash e \<notin> ET_TxHash ` set txs \<and> ME_TxHash e \<notin> EL_TxHash ` set logs"
  shows "seal G gas block ts now i li es (txs, logs) = (txs @ new_txs gas block now i es, logs @ new_logs G block ts i li es)"
  using assms
proof (induction es arbitrary: i li txs logs)
  case Nil
  then show ?case by (simp add: new_txs_def new_logs_def)
next
  case (Cons e es)
  let ?t = "toEvmTransactionDao now (mined_tx gas block i e)"
  let ?l = "toEvmLogDao (buildTransferLog G e block i li ts)"
  have t: "insert_ignore ET_TxHash ?t txs = txs @ [?t]"
    using Cons.prems(2) by (intro insert_ignore_new) simp
  have "log_key ?l \<notin> log_key ` set logs"
    using Cons.prems(2) by (auto simp: log_key_def image_iff)
  then have l: "insert_ignore log_key ?l logs = logs @ [?l]" by (rule insert_ignore_new)
  have h: "distinct (map ME_TxHash es)" "\<forall>x \<in> set es. ME_TxHash x \<noteq> ME_TxHash e" using Cons.prems(1) by (auto simp: image_iff)
  show ?case
  proof (cases "ME_Status e = MempoolCompleted")
    case True
    have "seal G gas block ts now (Suc i) (Suc li) es (txs @ [?t], logs @ [?l]) =
        ((txs @ [?t]) @ new_txs gas block now (Suc i) es, (logs @ [?l]) @ new_logs G block ts (Suc i) (Suc li) es)"
      by (rule Cons.IH[OF h(1)]) (use Cons.prems(2) h(2) in auto)
    with True t l show ?thesis by (simp add: new_txs_def new_logs_def)
  next
    case False
    have "seal G gas block ts now (Suc i) li es (txs @ [?t], logs) =
        ((txs @ [?t]) @ new_txs gas block now (Suc i) es, logs @ new_logs G block ts (Suc i) li es)"
      by (rule Cons.IH[OF h(1)]) (use Cons.prems(2) h(2) in auto)
    with False t show ?thesis by (simp add: new_txs_def new_logs_def)
  qed
qed

text \<open>The columns of the new rows.\<close>

lemma new_txs_columns:
  "map ET_TxHash (new_txs gas block now i es) = map ME_TxHash es"
  "map ET_TxIndex (new_txs gas block now i es) = [i..<i + length es]"
  "t \<in> set (new_txs gas block now i es) \<Longrightarrow> ET_BlockNumber t = pb_blockNumber block \<and> ET_Status t \<in> {0, 1}"
  "length (new_txs gas block now i es) = length es"
proof -
  show "map ET_TxHash (new_txs gas block now i es) = map ME_TxHash es"
    by (induction es arbitrary: i) (simp_all add: new_txs_def)
  show "map ET_TxIndex (new_txs gas block now i es) = [i..<i + length es]"
  proof (induction es arbitrary: i)
    case (Cons e es)
    have "ET_TxIndex (toEvmTransactionDao now (mined_tx gas block i e)) = i"
      by (simp add: toEvmTransactionDao_def mined_tx_def Let_def)
    with Cons[of "Suc i"] show ?case by (simp add: new_txs_def upt_conv_Cons del: upt_Suc)
  qed (simp add: new_txs_def)
  show "t \<in> set (new_txs gas block now i es) \<Longrightarrow> ET_BlockNumber t = pb_blockNumber block \<and> ET_Status t \<in> {0, 1}"
    by (auto simp: new_txs_def toEvmTransactionDao_def mined_tx_def txStatus_def Let_def)
  show "length (new_txs gas block now i es) = length es" by (simp add: new_txs_def)
qed

lemma new_logs_columns:
  "map EL_LogIndex (new_logs G block ts i li es) = [li..<li + length (new_logs G block ts i li es)]"
  "map EL_TxHash (new_logs G block ts i li es) = map ET_TxHash (filter (\<lambda>t. ET_Status t = 1) (new_txs gas block now i es))"
  "l \<in> set (new_logs G block ts i li es) \<Longrightarrow> EL_BlockNumber l = pb_blockNumber block"
proof -
  have row: "EL_LogIndex (toEvmLogDao (buildTransferLog G e block j k ts)) = k"
    "EL_BlockNumber (toEvmLogDao (buildTransferLog G e block j k ts)) = pb_blockNumber block" for e j k
    by (simp_all add: toEvmLogDao_def buildTransferLog_def Let_def)
  have index: "map (\<lambda>(k, j, e). k) (List.enumerate li xs) = [li..<li + length xs]" for li and xs :: "(nat \<times> MempoolEntry) list"
    using map_fst_enumerate[of li xs] by (simp add: split_beta comp_def cong: map_cong)
  show "map EL_LogIndex (new_logs G block ts i li es) = [li..<li + length (new_logs G block ts i li es)]"
    using index by (simp add: new_logs_def split_beta comp_def row)
  have hash: "map (\<lambda>x. ME_TxHash (snd (snd x))) (List.enumerate li xs) = map (\<lambda>x. ME_TxHash (snd x)) xs" for li and xs :: "(nat \<times> MempoolEntry) list"
    by (induction xs arbitrary: li) simp_all
  have "map (\<lambda>x. ME_TxHash (snd x)) (filter (\<lambda>(j, e). ME_Status e = MempoolCompleted) (List.enumerate i es)) =
      map ET_TxHash (filter (\<lambda>t. ET_Status t = 1) (new_txs gas block now i es))"
    by (induction es arbitrary: i) (auto simp: new_txs_def toEvmTransactionDao_def mined_tx_def txStatus_def Let_def)
  with hash show "map EL_TxHash (new_logs G block ts i li es) = map ET_TxHash (filter (\<lambda>t. ET_Status t = 1) (new_txs gas block now i es))"
    by (simp add: new_logs_def split_beta comp_def)
  show "l \<in> set (new_logs G block ts i li es) \<Longrightarrow> EL_BlockNumber l = pb_blockNumber block"
    by (auto simp: new_logs_def row)
qed

lemma chain_ok_extend:
  assumes ok: "chain_ok txs logs latest" and latest: "latest \<noteq> - 1" and n: "pb_blockNumber block = latest + 1"
    and es: "es \<noteq> []" "distinct (map ME_TxHash es)" "\<forall>e \<in> set es. ME_TxHash e \<notin> ET_TxHash ` set txs"
  shows "chain_ok (txs @ new_txs gas block now 0 es) (logs @ new_logs G block ts 0 0 es) (latest + 1)"
proof -
  let ?n = "latest + 1" and ?new = "new_txs gas block now 0 es" and ?nl = "new_logs G block ts 0 0 es"
  have n_unat: "unat ?n = Suc (unat latest)" using latest by (rule u64_Suc)
  then have n_gt: "0 < ?n" "latest < ?n" "\<And>k. k \<le> ?n \<longleftrightarrow> k \<le> latest \<or> k = ?n"
    by (auto simp: word_less_nat_alt word_le_nat_alt word_unat_eq_iff)
  have old: "block_txs ?n txs = []"
    using ok n_gt by (fastforce simp: chain_ok_def block_txs_def filter_empty_conv)
  then have oldl: "block_logs ?n logs = []"
    using ok unfolding chain_ok_def by (metis filter.simps(1) list.map_disc_iff)
  have new: "block_txs k ?new = (if k = ?n then ?new else [])" "block_logs k ?nl = (if k = ?n then ?nl else [])" for k
    using new_txs_columns(3)[of _ gas block now 0 es] new_logs_columns(3)[of _ G block ts 0 0 es] n
    by (auto simp: block_txs_def block_logs_def filter_empty_conv intro!: filter_True)
  have app: "block_txs k (txs @ ?new) = (if k = ?n then ?new else block_txs k txs)"
    "block_logs k (logs @ ?nl) = (if k = ?n then ?nl else block_logs k logs)" for k
    using old oldl new[of k] by (auto simp: block_txs_def block_logs_def)
  have "unique_rows ET_TxHash (txs @ ?new)"
  proof -
    have "ET_TxHash ` set txs \<inter> ME_TxHash ` set es = {}" using es(3) by (simp add: disjoint_iff image_iff) (metis)
    then have "distinct (map ET_TxHash txs @ map ME_TxHash es)"
      using ok es(2) by (simp add: chain_ok_def unique_rows_def)
    then show ?thesis by (simp add: unique_rows_def new_txs_columns(1))
  qed
  moreover have "unat ?n \<le> length (txs @ ?new)"
    using ok es(1) n_unat new_txs_columns(4)[of gas block now 0 es] by (cases es) (auto simp: chain_ok_def)
  moreover have "\<forall>t \<in> set (txs @ ?new). ET_Status t \<in> {0, 1} \<and> 0 < ET_BlockNumber t \<and> ET_BlockNumber t \<le> ?n"
    using ok new_txs_columns(3)[of _ gas block now 0 es] n n_gt by (auto simp: chain_ok_def)
  moreover have "\<forall>k. 0 < k \<and> k \<le> ?n \<longrightarrow> block_txs k (txs @ ?new) \<noteq> []"
    using ok es(1) n_gt(3) new_txs_columns(4)[of gas block now 0 es] unfolding app by (auto simp: chain_ok_def)
  moreover have "map ET_TxIndex (block_txs k (txs @ ?new)) = [0..<length (block_txs k (txs @ ?new))] \<and>
      map EL_LogIndex (block_logs k (logs @ ?nl)) = [0..<length (block_logs k (logs @ ?nl))] \<and>
      map EL_TxHash (block_logs k (logs @ ?nl)) = map ET_TxHash (filter (\<lambda>t. ET_Status t = 1) (block_txs k (txs @ ?new)))" for k
    using ok new_txs_columns(2,4)[of gas block now 0 es] new_logs_columns(1,2)[of G block ts 0 0 es] unfolding app
    by (auto simp: chain_ok_def)
  ultimately show ?thesis unfolding chain_ok_def by blast
qed

section \<open>The chain and the mempool\<close>

text \<open>A receipt belongs to a row of the mempool, whose data it repeats.\<close>

definition receipt_of :: "MempoolEntryDao \<Rightarrow> EvmTransactionDao \<Rightarrow> bool" where
  "receipt_of r t \<longleftrightarrow>
     MP_Status r = MempoolMined \<and> ET_TxHash t = MP_TxHash r \<and> ET_FromAddress t = MP_FromAddress r \<and>
     ET_ToAddress t = MP_ContractAddress r \<and> ET_Nonce t = MP_Nonce r \<and> ET_Input t = MP_Input r"

definition receipts_match :: "MempoolEntryDao list \<Rightarrow> EvmTransactionDao list \<Rightarrow> bool" where
  "receipts_match rows txs \<longleftrightarrow>
     (\<forall>t \<in> set txs. \<exists>r \<in> set rows. receipt_of r t) \<and>
     (\<forall>r \<in> set rows. MP_Status r = MempoolMined \<longrightarrow> (\<exists>t \<in> set txs. receipt_of r t))"

definition mempool_ok :: "MempoolEntryDao list \<Rightarrow> int \<Rightarrow> bool" where
  "mempool_ok rows s \<longleftrightarrow>
     unique_rows MP_ID rows \<and> unique_rows MP_TxHash rows \<and> (\<forall>r \<in> set rows. MP_ID r \<le> s)"

text \<open>
  The number of blocks is bounded by the number of rows of the mempool, so the 64-bit block counter
  cannot wrap as long as the mempool is smaller than that.
\<close>

definition evm_ok :: "'a evm_db_scheme \<Rightarrow> bool" where
  "evm_ok w \<longleftrightarrow>
     mempool_ok (mp_rows w) (mp_seq w) \<and>
     (\<exists>latest. evm_state w = [\<lparr>ES_ID = 1, ES_LatestBlock = latest\<rparr>] \<and>
        (length (mp_rows w) < 2 ^ 64 - 1 \<longrightarrow> chain_ok (evm_txs w) (evm_logs w) latest \<and> receipts_match (mp_rows w) (evm_txs w)))"

lemma receipts_bounded:
  assumes "receipts_match rows txs" "unique_rows ET_TxHash txs"
  shows "length txs \<le> length rows"
proof -
  have "set (map ET_TxHash txs) \<subseteq> set (map MP_TxHash rows)"
    using assms(1) by (fastforce simp: receipts_match_def receipt_of_def)
  then have "card (set (map ET_TxHash txs)) \<le> length rows"
    by (metis (no_types) card_length card_mono finite_set le_trans length_map)
  with assms(2) show ?thesis by (simp only: unique_rows_def distinct_card length_map)
qed

lemma claimable_rows:
  assumes "r \<in> set (claimable n rows)"
  shows "r \<in> set rows" "MP_Status r \<in> {MempoolCompleted, MempoolFailed}"
  using assms limit_offset_set[of n 0] by (fastforce simp: claimable_def)+

lemma claimable_distinct:
  assumes "mempool_ok rows s"
  shows "distinct (map MP_TxHash (claimable n rows))"
proof -
  have "unique_rows MP_TxHash rows" using assms by (simp add: mempool_ok_def)
  then have "distinct (map MP_TxHash (filter P rows))" for P
    by (simp add: unique_rows_def distinct_map_filter)
  then have "distinct (map MP_TxHash (sort_key MP_ID (filter P rows)))" for P
    by (metis distinct_map distinct_sort set_sort)
  then show ?thesis
    by (auto simp: claimable_def limit_offset_def Let_def take_map[symmetric] drop_map[symmetric])
qed

section \<open>The operations keep the chain\<close>

abbreviation mined_row :: "time \<Rightarrow> MempoolEntryDao \<Rightarrow> MempoolEntryDao" where
  "mined_row now r \<equiv> r\<lparr>MP_Status := MempoolMined, MP_UpdatedAt := now\<rparr>"

lemma mark_mined_rows:
  assumes "unique_rows MP_ID rows" "set ds \<subseteq> set rows"
  shows "set (mark_mined (set (map MP_ID ds)) now rows) = mined_row now ` set ds \<union> (set rows - set ds)"
proof -
  have "MP_ID r \<in> MP_ID ` set ds \<longleftrightarrow> r \<in> set ds" if "r \<in> set rows" for r
    using assms that by (auto simp: unique_rows_def distinct_map dest: inj_onD)
  with assms(2) show ?thesis
    by (auto simp: mark_mined_def update_where_def image_iff)
qed

lemma mempool_ok_mined [simp]: "mempool_ok (mark_mined ids now rows) s = mempool_ok rows s"
proof -
  have "unique_rows MP_ID (mark_mined ids now rows) = unique_rows MP_ID rows"
    "unique_rows MP_TxHash (mark_mined ids now rows) = unique_rows MP_TxHash rows"
    by (simp_all add: mark_mined_def)
  moreover have "map MP_ID (mark_mined ids now rows) = map MP_ID rows"
    by (simp add: mark_mined_def update_where_def)
  then have "MP_ID ` set (mark_mined ids now rows) = MP_ID ` set rows"
    by (metis list.set_map)
  then have "(\<forall>r \<in> set (mark_mined ids now rows). MP_ID r \<le> s) = (\<forall>r \<in> set rows. MP_ID r \<le> s)"
    by (metis (no_types, lifting) image_iff)
  ultimately show ?thesis by (simp add: mempool_ok_def)
qed

lemma mark_mined_length [simp]: "length (mark_mined ids now rows) = length rows"
  by (simp add: mark_mined_def update_where_def)

lemma same_hash: "mempool_ok rows s \<Longrightarrow> r \<in> set rows \<Longrightarrow> r' \<in> set rows \<Longrightarrow> MP_TxHash r = MP_TxHash r' \<Longrightarrow> r = r'"
  by (auto simp: mempool_ok_def unique_rows_def distinct_map dest: inj_onD)

lemma receipts_match_seal:
  assumes "receipts_match rows txs" "mempool_ok rows s" "set ds \<subseteq> set rows"
    and "\<forall>d \<in> set ds. MP_Status d \<noteq> MempoolMined"
  shows "receipts_match (mark_mined (set (map MP_ID ds)) now rows)
    (txs @ new_txs gas block now 0 (map fromMempoolEntryDao ds))"
proof -
  let ?new = "new_txs gas block now 0 (map fromMempoolEntryDao ds)"
  have rows: "set (mark_mined (set (map MP_ID ds)) now rows) = mined_row now ` set ds \<union> (set rows - set ds)"
    using assms(2,3) by (intro mark_mined_rows) (simp_all add: mempool_ok_def)
  have mined: "receipt_of (mined_row now d) (toEvmTransactionDao now (mined_tx gas block j (fromMempoolEntryDao d)))" for d j
    by (simp add: receipt_of_def toEvmTransactionDao_def mined_tx_def fromMempoolEntryDao_def Let_def)
  have to_new: "\<exists>t \<in> set ?new. receipt_of (mined_row now d) t" if "d \<in> set ds" for d
  proof -
    from that obtain j where "j < length ds" "ds ! j = d" by (auto simp: in_set_conv_nth)
    then have "(j, fromMempoolEntryDao d) \<in> set (List.enumerate 0 (map fromMempoolEntryDao ds))"
      by (auto simp: in_set_enumerate_eq)
    with mined show ?thesis by (force simp: new_txs_def)
  qed
  have from_new: "\<exists>d \<in> set ds. receipt_of (mined_row now d) t" if "t \<in> set ?new" for t
    using that mined by (fastforce simp: new_txs_def in_set_enumerate_eq)
  have old: "r \<notin> set ds" if "receipt_of r t" for r t
    using that assms(4) by (auto simp: receipt_of_def)
  show ?thesis
    unfolding receipts_match_def rows
  proof (intro conjI ballI impI, goal_cases)
    case (1 t)
    then consider "t \<in> set txs" | "t \<in> set ?new" by auto
    then show ?case using assms(1) old from_new by cases (fastforce simp: receipts_match_def)+
  next
    case (2 r)
    then show ?case using assms(1) to_new by (fastforce simp: receipts_match_def)
  qed
qed

lemma evm_ok_sealed:
  assumes ok: "evm_ok w" and st: "row_of ES_ID 1 (evm_state w) = Some st"
    and ne: "claimable (mc_maxTxsPerBlock m) (mp_rows w) \<noteq> []"
  shows "evm_ok (sealed_round G sha256 m st w)"
proof -
  let ?ds = "claimable (mc_maxTxsPerBlock m) (mp_rows w)"
  let ?es = "map fromMempoolEntryDao ?ds"
  from ok st have mem: "mempool_ok (mp_rows w) (mp_seq w)" and state: "evm_state w = [\<lparr>ES_ID = 1, ES_LatestBlock = ES_LatestBlock st\<rparr>]"
    and imp: "length (mp_rows w) < 2 ^ 64 - 1 \<longrightarrow> chain_ok (evm_txs w) (evm_logs w) (ES_LatestBlock st) \<and> receipts_match (mp_rows w) (evm_txs w)"
    by (auto simp: evm_ok_def)
  have state': "evm_state (sealed_round G sha256 m st w) = [\<lparr>ES_ID = 1, ES_LatestBlock = ES_LatestBlock st + 1\<rparr>]"
    by (simp add: sealed_round_def Let_def state update_where_def)
  show ?thesis
  proof (cases "length (mp_rows w) < 2 ^ 64 - 1")
    case False
    with mem state' show ?thesis by (simp add: evm_ok_def) (simp add: sealed_round_def Let_def)
  next
    case True
    with imp have chain: "chain_ok (evm_txs w) (evm_logs w) (ES_LatestBlock st)" and match: "receipts_match (mp_rows w) (evm_txs w)" by simp_all
    have "unat (ES_LatestBlock st) \<le> length (mp_rows w)"
      using chain receipts_bounded[OF match] by (simp add: chain_ok_def)
    with True have latest: "ES_LatestBlock st \<noteq> - 1" by (auto simp: unsigned_minus_1_eq_mask mask_eq_exp_minus_1)
    have hash: "map ME_TxHash ?es = map MP_TxHash ?ds" by (simp add: fromMempoolEntryDao_def)
    have es: "?es \<noteq> []" "distinct (map ME_TxHash ?es)"
      using ne claimable_distinct[OF mem] by (simp_all add: hash del: map_map)
    have ds: "set ?ds \<subseteq> set (mp_rows w)" "\<forall>d \<in> set ?ds. MP_Status d \<noteq> MempoolMined"
      using claimable_rows by fastforce+
    have fresh: "\<forall>e \<in> set ?es. ME_TxHash e \<notin> ET_TxHash ` set (evm_txs w)"
    proof (rule ballI, rule notI)
      fix e assume "e \<in> set ?es" "ME_TxHash e \<in> ET_TxHash ` set (evm_txs w)"
      then obtain d t where d: "d \<in> set ?ds" "t \<in> set (evm_txs w)" "MP_TxHash d = ET_TxHash t"
        by (auto simp: fromMempoolEntryDao_def)
      with match obtain r where "r \<in> set (mp_rows w)" "receipt_of r t" by (auto simp: receipts_match_def)
      with d ds same_hash[OF mem, of d r] show False by (auto simp: receipt_of_def)
    qed
    with log_has_tx[OF chain] have "\<forall>e \<in> set ?es. ME_TxHash e \<notin> ET_TxHash ` set (evm_txs w) \<and> ME_TxHash e \<notin> EL_TxHash ` set (evm_logs w)"
      by auto
    note seal_appends[OF es(2) this, simp]
    let ?b = "\<lparr>pb_tx = (), pb_blockNumber = ES_LatestBlock st + 1,
      pb_blockHash = ComputeBlockHash sha256 (mc_chainID m) (ES_LatestBlock st + 1), pb_done = False\<rparr>"
    show ?thesis
      unfolding evm_ok_def state'
      using mem chain_ok_extend[OF chain latest _ es fresh, of ?b] receipts_match_seal[OF match mem ds, where block = ?b]
      by (simp add: sealed_round_def Let_def)
  qed
qed

lemma settle_fixes [simp]:
  "MP_ID (settle now out r) = MP_ID r" "MP_TxHash (settle now out r) = MP_TxHash r"
  "MP_Status (settle now out r) = MempoolMined \<longleftrightarrow> MP_Status r = MempoolMined"
  "receipt_of (settle now out r) t = receipt_of r t"
  by (auto simp: settle_def receipt_of_def split: outcome.splits)

lemma mempool_ok_settle: "mempool_ok rows s \<Longrightarrow> mempool_ok (settle_rows h now out rows) s"
proof -
  have "map MP_ID (settle_rows h now out rows) = map MP_ID rows" "map MP_TxHash (settle_rows h now out rows) = map MP_TxHash rows"
    by (simp_all add: settle_rows_def)
  moreover have "\<forall>r \<in> set (settle_rows h now out rows). MP_ID r \<le> s" if "\<forall>r \<in> set rows. MP_ID r \<le> s"
    using that by (auto simp: settle_rows_def)
  ultimately show "mempool_ok rows s \<Longrightarrow> mempool_ok (settle_rows h now out rows) s"
    by (simp add: mempool_ok_def unique_rows_def)
qed

lemma receipts_match_settle: "receipts_match (settle_rows h now out rows) txs = receipts_match rows txs"
proof -
  define g where "g r = (if MP_TxHash r = h then settle now out r else r)" for r
  have "MP_Status (g r) = MempoolMined \<longleftrightarrow> MP_Status r = MempoolMined" "receipt_of (g r) t = receipt_of r t" for r t
    by (simp_all add: g_def)
  then show ?thesis by (simp add: receipts_match_def settle_rows_def flip: g_def)
qed

lemma evm_ok_settle:
  "evm_ok w \<Longrightarrow> evm_ok (w\<lparr>pg_faults := fs, mp_rows := settle_rows h now out (mp_rows w)\<rparr>)"
  using mempool_ok_settle receipts_match_settle by (auto simp: evm_ok_def settle_rows_def)

lemma evm_ok_faults [simp]: "evm_ok (w\<lparr>pg_faults := fs\<rparr>) = evm_ok w"
  by (simp add: evm_ok_def)

lemma evm_ok_insert:
  assumes "run_state (InsertMempoolEntry e) w = (r, w')" "evm_ok w"
  shows "evm_ok w'"
  using assms(1) unfolding InsertMempoolEntry_def
proof (cases rule: exec_faults)
  case (took fs)
  let ?r = "\<lparr>MP_ID = mp_seq w + 1, MP_TxHash = ME_TxHash e, MP_FromAddress = ME_FromAddress e,
        MP_ContractAddress = ME_ContractAddress e, MP_RecipientAddress = ME_RecipientAddress e,
        MP_Nonce = ME_Nonce e, MP_Input = ME_Input e, MP_AmountData = ME_AmountData e,
        MP_Status = MempoolPending, MP_ErrorMessage = None, MP_CreatedAt = pg_now w, MP_UpdatedAt = pg_now w\<rparr>"
  from assms(2) have ok: "mempool_ok (mp_rows w) (mp_seq w)" by (simp add: evm_ok_def)
  then have "mempool_ok (insert_ignore MP_TxHash ?r (mp_rows w)) (mp_seq w + 1)"
    by (fastforce simp: mempool_ok_def insert_ignore_def unique_rows_def row_of_None)
  moreover have "receipts_match (insert_ignore MP_TxHash ?r (mp_rows w)) txs" if "receipts_match (mp_rows w) txs" for txs
    using that by (auto simp: receipts_match_def insert_ignore_def receipt_of_def)
  moreover have "length (mp_rows w) \<le> length (insert_ignore MP_TxHash ?r (mp_rows w))"
    by (simp add: insert_ignore_def)
  ultimately show ?thesis using took assms(2) by (auto simp: evm_ok_def)
next
  case (failed fs er)
  with assms(2) show ?thesis by simp
qed

lemma evm_ok_mine:
  assumes "run_state (mine G sha256 m) w = (r, w')" "evm_ok w"
  shows "evm_ok w'"
  using assms(1) by (cases rule: mine_cases) (simp_all add: assms(2) evm_ok_sealed)

end
