(* ===== verification/Ethrpc_Safety.thy ===== *)
theory Ethrpc_Safety
  imports Ethrpc_Chain
begin

text \<open>
  The facade as a whole: handlers, submitter and miner run concurrently on one database.  A step is
  one statement, one transaction or one call to Canton; the entries a drain has loaded and the
  answers it has not recorded yet are part of the state, so every interleaving of the worker pool is
  a sequence of steps.  The locale \<open>canton_transfers\<close> states what the facade relies on: a transfer
  reported as done was executed, and the calls leave the facade's tables alone.
\<close>

section \<open>Steps\<close>

definition evm_tables ::
  "'a evm_db_scheme \<Rightarrow> MempoolEntryDao list \<times> int \<times> EvmTransactionDao list \<times> EvmLogDao list \<times> EvmStateDao list" where
  "evm_tables w = (mp_rows w, mp_seq w, evm_txs w, evm_logs w, evm_state w)"

type_synonym 'a facade = "'a evm_db_scheme \<times> MempoolEntry list \<times> (MempoolEntry \<times> outcome) list"

inductive ethrpc_step ::
  "GethCommon \<Rightarrow> GethTypes \<Rightarrow> (bytes \<Rightarrow> bytes) \<Rightarrow> MinerConfig \<Rightarrow> (string \<Rightarrow> ('a evm_db_scheme, goerr + bool) state) \<Rightarrow>
   'a evm_db_scheme ERC20Lookup \<Rightarrow> 'a facade \<Rightarrow> 'a facade \<Rightarrow> bool"
  for G :: GethCommon and T :: GethTypes and sha256 :: "bytes \<Rightarrow> bytes" and m :: MinerConfig
    and WL :: "string \<Rightarrow> ('a evm_db_scheme, goerr + bool) state" and ERC20 :: "'a evm_db_scheme ERC20Lookup"
where
  send: "run_state (SendRawTransaction G T (mc_chainID m) WL ERC20 data) w = (r, w') \<Longrightarrow>
    ethrpc_step G T sha256 m WL ERC20 (w, L, A) (w', L, A)"
| fetch: "run_state (GetMempoolEntriesByStatus MempoolPending n) w = (r, w') \<Longrightarrow>
    ethrpc_step G T sha256 m WL ERC20 (w, L, A) (w', (case r of Inl e \<Rightarrow> L | Inr es \<Rightarrow> L @ es), A)"
| submit: "e \<in> set L \<Longrightarrow> run_state (submit_entry G ERC20 e) w = (out, w') \<Longrightarrow>
    ethrpc_step G T sha256 m WL ERC20 (w, L, A) (w', L, (e, out) # A)"
| record_answer: "(e, out) \<in> set A \<Longrightarrow> run_state (record_outcome e out) w = (u, w') \<Longrightarrow>
    ethrpc_step G T sha256 m WL ERC20 (w, L, A) (w', L, A)"
| mine_round: "run_state (mine G sha256 m) w = (r, w') \<Longrightarrow>
    ethrpc_step G T sha256 m WL ERC20 (w, L, A) (w', L, A)"
| tick: "ethrpc_step G T sha256 m WL ERC20 (w, L, A) (w\<lparr>pg_now := t, pg_faults := fs\<rparr>, L, A)"
| restart: "ethrpc_step G T sha256 m WL ERC20 (w, L, A) (w, [], [])"

inductive_cases ethrpc_stepE: "ethrpc_step G T sha256 m WL ERC20 s s'"

text \<open>A drain is such a sequence of steps.\<close>

lemma process_steps:
  assumes "e \<in> set L" "run_state (submitter_process G ERC20 e) w = (u, w')"
  shows "\<exists>out. (ethrpc_step G T sha256 m WL ERC20)\<^sup>*\<^sup>* (w, L, A) (w', L, (e, out) # A)"
proof -
  obtain out w1 where o: "run_state (submit_entry G ERC20 e) w = (out, w1)" by (rule run_obtain)
  then have "ethrpc_step G T sha256 m WL ERC20 (w, L, A) (w1, L, (e, out) # A)"
    by (rule submit[OF assms(1)])
  moreover have "ethrpc_step G T sha256 m WL ERC20 (w1, L, (e, out) # A) (w', L, (e, out) # A)"
    by (rule record_answer[of e out]) (use assms(2) o in \<open>auto simp: submitter_process_def\<close>)
  ultimately show ?thesis by (meson converse_rtranclp_into_rtranclp rtranclp.rtrancl_refl)
qed

lemma drain_steps:
  assumes "run_state (drain G ERC20 n) w = (r, w')"
  shows "\<exists>L' A'. (ethrpc_step G T sha256 m WL ERC20)\<^sup>*\<^sup>* (w, L, A) (w', L', A')"
proof -
  obtain q w1 where q: "run_state (GetMempoolEntriesByStatus MempoolPending n) w = (q, w1)" by (rule run_obtain)
  note f = fetch[OF q, of G T sha256 m WL ERC20 L A]
  show ?thesis
  proof (cases q)
    case (Inl e)
    with assms q have "w' = w1" by (auto simp: drain_def)
    with f show ?thesis by (meson r_into_rtranclp)
  next
    case (Inr es)
    have steps: "\<exists>A'. (ethrpc_step G T sha256 m WL ERC20)\<^sup>*\<^sup>* (v, L @ es, A) (snd (run_state (for_each xs (submitter_process G ERC20)) v), L @ es, A')"
      if "set xs \<subseteq> set es" for xs v A
      using that
    proof (induction xs arbitrary: v A)
      case Nil
      then show ?case by auto
    next
      case (Cons x xs)
      obtain v1 where v1: "run_state (submitter_process G ERC20 x) v = ((), v1)" by (rule run_unit_obtain)
      have "x \<in> set (L @ es)" using Cons.prems by simp
      from process_steps[OF this v1] obtain out where "(ethrpc_step G T sha256 m WL ERC20)\<^sup>*\<^sup>* (v, L @ es, A) (v1, L @ es, (x, out) # A)" by blast
      moreover obtain A' where "(ethrpc_step G T sha256 m WL ERC20)\<^sup>*\<^sup>* (v1, L @ es, (x, out) # A)
          (snd (run_state (for_each xs (submitter_process G ERC20)) v1), L @ es, A')"
        using Cons.IH[of v1 "(x, out) # A"] Cons.prems by auto
      ultimately have "(ethrpc_step G T sha256 m WL ERC20)\<^sup>*\<^sup>* (v, L @ es, A)
          (snd (run_state (for_each xs (submitter_process G ERC20)) v1), L @ es, A')" by (rule rtranclp_trans)
      with v1 show ?case by auto
    qed
    from assms q Inr have "w' = snd (run_state (for_each es (submitter_process G ERC20)) w1)"
      by (auto simp: drain_def split: prod.splits)
    with steps[of es w1 A] obtain A' where "(ethrpc_step G T sha256 m WL ERC20)\<^sup>*\<^sup>* (w1, L @ es, A) (w', L @ es, A')" by auto
    moreover have "ethrpc_step G T sha256 m WL ERC20 (w, L, A) (w1, L @ es, A)" using f Inr by simp
    ultimately have "(ethrpc_step G T sha256 m WL ERC20)\<^sup>*\<^sup>* (w, L, A) (w', L @ es, A')"
      by (meson converse_rtranclp_into_rtranclp)
    then show ?thesis by blast
  qed
qed

section \<open>The invariant\<close>

definition facade_ok :: "('a \<Rightarrow> string \<Rightarrow> bool) \<Rightarrow> GethCommon \<Rightarrow> 'a facade \<Rightarrow> bool" where
  "facade_ok executed G s \<longleftrightarrow> (case s of (w, L, A) \<Rightarrow>
     evm_ok w \<and>
     (\<forall>(e, out) \<in> set A. out = OCompleted \<longrightarrow> executed (evm_db.more w) (command_id G (ME_TxHash e))) \<and>
     (\<forall>r \<in> set (mp_rows w). MP_Status r = MempoolCompleted \<longrightarrow> executed (evm_db.more w) (command_id G (MP_TxHash r))) \<and>
     (\<forall>t \<in> set (evm_txs w). ET_Status t = 1 \<longrightarrow> executed (evm_db.more w) (command_id G (ET_TxHash t))))"

lemma facade_ok_same:
  assumes "evm_tables w' = evm_tables w" "\<And>k. executed (evm_db.more w) k \<Longrightarrow> executed (evm_db.more w') k"
    and "facade_ok executed G (w, L, A)"
  shows "facade_ok executed G (w', L', A)"
proof -
  have "evm_ok w' = evm_ok w" using assms(1) by (simp add: evm_tables_def evm_ok_def)
  with assms show ?thesis by (fastforce simp: facade_ok_def evm_tables_def)
qed

lemma facade_ok_rows:
  assumes "facade_ok executed G (w, L, A)" "evm_ok w'" "evm_db.more w' = evm_db.more w" "evm_txs w' = evm_txs w"
    and "\<And>r. r \<in> set (mp_rows w') \<Longrightarrow> MP_Status r = MempoolCompleted \<Longrightarrow> executed (evm_db.more w) (command_id G (MP_TxHash r))"
  shows "facade_ok executed G (w', L', A)"
  using assms by (auto simp: facade_ok_def)

text \<open>A transaction is checked against the whitelist and then, at most, inserted.\<close>

lemma send_cases:
  assumes "run_state (SendRawTransaction G T chainID WL ERC20 data) w = (r, w')"
  obtains (rejected) "w' = w" | (checked) addr b where "run_state (WL addr) w = (b, w')"
  | (inserted) addr b w1 e r' where "run_state (WL addr) w = (b, w1)" "run_state (InsertMempoolEntry e) w1 = (r', w')"
proof (cases "\<exists>tx fr. UnmarshalBinary T data = Inr tx \<and> TxSender T chainID tx = Inr fr")
  case False
  with assms rejected show thesis by (auto simp: SendRawTransaction_def split: sum.splits)
next
  case True
  then obtain tx fr where tx: "UnmarshalBinary T data = Inr tx" "TxSender T chainID tx = Inr fr" by blast
  obtain b w1 where b: "run_state (WL (ToLower (G_AddressHex G fr))) w = (b, w1)" by (rule run_obtain)
  from assms tx b have "w' = w1 \<or> (\<exists>e r'. run_state (InsertMempoolEntry e) w1 = (r', w'))"
    by (auto simp: SendRawTransaction_def checkWhitelist_def Let_def split: sum.splits option.splits if_splits prod.splits)
  with b checked inserted show thesis by blast
qed

lemma insert_facade:
  assumes "run_state (InsertMempoolEntry e) w = (r, w')" "facade_ok executed G (w, L, A)"
  shows "facade_ok executed G (w', L, A)"
proof (rule facade_ok_rows[OF assms(2)])
  show "evm_ok w'" using evm_ok_insert[OF assms(1)] assms(2) by (simp add: facade_ok_def)
  from assms(1) show "evm_db.more w' = evm_db.more w" "evm_txs w' = evm_txs w"
    unfolding InsertMempoolEntry_def by (auto elim: exec_faults)
  fix x assume "x \<in> set (mp_rows w')" "MP_Status x = MempoolCompleted"
  with assms(1) have "x \<in> set (mp_rows w)"
    unfolding InsertMempoolEntry_def by (elim exec_faults) (auto simp: insert_ignore_def split: if_splits)
  with assms(2) \<open>MP_Status x = MempoolCompleted\<close> show "executed (evm_db.more w) (command_id G (MP_TxHash x))"
    by (simp add: facade_ok_def)
qed

lemma record_facade:
  assumes "run_state (record_outcome e out) w = (u, w')" "(e, out) \<in> set A" "facade_ok executed G (w, L, A)"
  shows "facade_ok executed G (w', L, A)"
  using assms(1)
proof (cases rule: record_outcome_cases)
  case (1 fs)
  then show ?thesis by (intro facade_ok_same[OF _ _ assms(3)]) (simp_all add: evm_tables_def)
next
  case (2 fs)
  from assms(3) have ok: "evm_ok w" by (simp add: facade_ok_def)
  show ?thesis
  proof (rule facade_ok_rows[OF assms(3)])
    show "evm_ok w'" using evm_ok_settle[OF ok] 2 by simp
    fix x assume "x \<in> set (mp_rows w')" "MP_Status x = MempoolCompleted"
    then obtain r where r: "r \<in> set (mp_rows w)" "MP_TxHash x = MP_TxHash r"
      "MP_Status r = MempoolCompleted \<or> MP_TxHash r = ME_TxHash e \<and> out = OCompleted"
      using 2 by (auto simp: settle_rows_def settle_def split: if_splits outcome.splits)
    then show "executed (evm_db.more w) (command_id G (MP_TxHash x))"
      using assms(2,3) by (auto simp: facade_ok_def)
  qed (use 2 in simp_all)
qed

lemma seal_origin:
  "t \<in> set (fst (seal G gas block ts now i li es (txs, logs))) \<Longrightarrow>
    t \<in> set txs \<or> (\<exists>e \<in> set es. ET_TxHash t = ME_TxHash e \<and> (ET_Status t = 1 \<longrightarrow> ME_Status e = MempoolCompleted))"
proof (induction es arbitrary: i li txs logs)
  case (Cons e es)
  let ?t = "toEvmTransactionDao now (mined_tx gas block i e)"
  have "ET_Status ?t = 1 \<longrightarrow> ME_Status e = MempoolCompleted"
    by (simp add: toEvmTransactionDao_def mined_tx_def txStatus_def Let_def)
  moreover have "t \<in> set (insert_ignore ET_TxHash ?t txs) \<Longrightarrow> t \<in> set txs \<or> t = ?t" by (auto simp: insert_ignore_def split: if_splits)
  ultimately show ?case using Cons.IH Cons.prems by (fastforce simp: Let_def split: if_splits)
qed simp

lemma mine_facade:
  assumes "run_state (mine G sha256 m) w = (r, w')" "facade_ok executed G (w, L, A)"
  shows "facade_ok executed G (w', L, A)"
  using assms(1)
proof (cases rule: mine_cases)
  case (same fs)
  then show ?thesis by (intro facade_ok_same[OF _ _ assms(2)]) (simp_all add: evm_tables_def)
next
  case (sealed fs st)
  from assms(2) have "evm_ok w" by (simp add: facade_ok_def)
  with evm_ok_mine[OF assms(1)] have "evm_ok w'" by simp
  moreover have "executed (evm_db.more w) (command_id G (MP_TxHash x))"
    if "x \<in> set (mp_rows w')" "MP_Status x = MempoolCompleted" for x
    using that assms(2) sealed(3) by (auto simp: facade_ok_def sealed_round_def mark_mined_def update_where_def Let_def split: if_splits)
  moreover have "executed (evm_db.more w) (command_id G (ET_TxHash t))" if t: "t \<in> set (evm_txs w')" "ET_Status t = 1" for t
  proof -
    from t(1) sealed(3) have "t \<in> set (evm_txs w) \<or> (\<exists>e \<in> set (map fromMempoolEntryDao (claimable (mc_maxTxsPerBlock m) (mp_rows w))).
        ET_TxHash t = ME_TxHash e \<and> (ET_Status t = 1 \<longrightarrow> ME_Status e = MempoolCompleted))"
      by (intro seal_origin) (auto simp: sealed_round_def Let_def)
    with t(2) assms(2) claimable_rows(1) show ?thesis by (fastforce simp: facade_ok_def fromMempoolEntryDao_def)
  qed
  moreover have "evm_db.more w' = evm_db.more w" using sealed(3) by (simp add: sealed_round_def Let_def)
  ultimately show ?thesis using assms(2) by (auto simp: facade_ok_def)
qed

section \<open>What the facade relies on\<close>

locale canton_transfers =
  fixes ERC20 :: "'a evm_db_scheme ERC20Lookup" and WL :: "string \<Rightarrow> ('a evm_db_scheme, goerr + bool) state"
    and executed :: "'a \<Rightarrow> string \<Rightarrow> bool"
  assumes transfer_tables: "ERC20 c = Inr erc20 \<Longrightarrow> run_state (TransferFrom erc20 k f t a) w = (r, w') \<Longrightarrow> evm_tables w' = evm_tables w"
    and transfer_done: "ERC20 c = Inr erc20 \<Longrightarrow> run_state (TransferFrom erc20 k f t a) w = (Inr (), w') \<Longrightarrow> executed (evm_db.more w') k"
    and transfer_keeps: "ERC20 c = Inr erc20 \<Longrightarrow> run_state (TransferFrom erc20 k f t a) w = (r, w') \<Longrightarrow>
      executed (evm_db.more w) k' \<Longrightarrow> executed (evm_db.more w') k'"
    and whitelist_tables: "run_state (WL addr) w = (b, w') \<Longrightarrow> evm_tables w' = evm_tables w"
    and whitelist_keeps: "run_state (WL addr) w = (b, w') \<Longrightarrow> executed (evm_db.more w) k \<Longrightarrow> executed (evm_db.more w') k"
begin

lemma facade_step:
  assumes "ethrpc_step G T sha256 m WL ERC20 s s'" "facade_ok executed G s"
  shows "facade_ok executed G s'"
  using assms
proof (cases rule: ethrpc_step.cases)
  case (send data w r w' L A)
  with assms(2) have ok: "facade_ok executed G (w, L, A)" by simp
  have wl: "facade_ok executed G (w1, L, A)" if "run_state (WL addr) w = (b, w1)" for addr b w1
    by (rule facade_ok_same[OF whitelist_tables[OF that] whitelist_keeps[OF that] ok])
  from send(3) show ?thesis
    by (cases rule: send_cases) (use send(2) ok wl in \<open>auto intro: insert_facade\<close>)
next
  case (fetch n w r w' L A)
  from fetch(3) have "evm_tables w' = evm_tables w" "evm_db.more w' = evm_db.more w"
    unfolding GetMempoolEntriesByStatus_def by (auto elim!: query_faults simp: evm_tables_def)
  with fetch(1,2) assms(2) show ?thesis by (auto intro: facade_ok_same)
next
  case (submit e L w out w' A)
  with assms(2) have ok: "facade_ok executed G (w, L, A)" by simp
  from submit(4) have s: "evm_tables w' = evm_tables w" "\<And>k. executed (evm_db.more w) k \<Longrightarrow> executed (evm_db.more w') k"
    "out = OCompleted \<longrightarrow> executed (evm_db.more w') (command_id G (ME_TxHash e))"
    by (auto simp: submit_entry_def Let_def split: sum.splits prod.splits if_splits
        dest: transfer_tables transfer_keeps transfer_done)
  from facade_ok_same[OF s(1,2) ok] s(3) submit(2) show ?thesis by (auto simp: facade_ok_def)
next
  case (record_answer e out A w u w' L)
  with assms(2) show ?thesis by (auto intro: record_facade)
next
  case (mine_round w r w' L A)
  with assms(2) show ?thesis by (auto intro: mine_facade)
next
  case (tick w L A fs t)
  from assms(2) tick(1) have "facade_ok executed G (w, L, A)" by simp
  then have "facade_ok executed G (w\<lparr>pg_now := t, pg_faults := fs\<rparr>, L, A)"
    by (rule facade_ok_same[rotated 2]) (simp_all add: evm_tables_def)
  with tick(2) show ?thesis by simp
next
  case (restart w L A)
  with assms(2) show ?thesis by (simp add: facade_ok_def)
qed

lemma facade_reachable:
  assumes "(ethrpc_step G T sha256 m WL ERC20)\<^sup>*\<^sup>* s s'" "facade_ok executed G s"
  shows "facade_ok executed G s'"
  using assms by (induction rule: rtranclp_induct) (auto intro: facade_step)

end

end
