(* ===== verification/Token_Service.thy ===== *)
theory Token_Service
  imports Canton_Token User_Store Ethrpc_Safety "HOL-Library.AList"
begin

text \<open>
  \<open>pkg/token\<close>: the token configuration, the service behind the ERC-20 view of a Canton token and the
  two providers of balances.  It connects the JSON-RPC facade with the Canton token client: the last
  section states what the ledger promises of commands (locale \<open>token_ledger\<close>) and shows that the
  service then gives the facade the contract \<open>canton_transfers\<close>.
\<close>

section \<open>Configuration\<close>

record ERC20Token =
  Tk_Name :: string
  Tk_Symbol :: string
  Tk_Decimals :: int
  Tk_InstrumentID :: string
  Tk_ExternalTransfer :: bool

type_synonym token_map = "(bytes \<times> ERC20Token) list"

definition AddToken :: "bytes \<Rightarrow> ERC20Token \<Rightarrow> token_map \<Rightarrow> token_map" where
  "AddToken address token c = AList.update address token c"

definition getToken :: "GethCommon \<Rightarrow> token_map \<Rightarrow> bytes \<Rightarrow> goerr + ERC20Token" where
  "getToken G c address =
     (case map_of c address of
        None \<Rightarrow> Inl (Err (''token not supported: '' @ G_AddressHex G address))
      | Some tkn \<Rightarrow> Inr tkn)"

lemma getToken_AddToken:
  "getToken G (AddToken a t c) b = (if b = a then Inr t else getToken G c b)"
  by (simp add: getToken_def AddToken_def update_conv)

section \<open>Listing\<close>

record TokenItem =
  TI_Address :: string
  TI_Name :: string
  TI_Symbol :: string
  TI_Decimals :: int

record TokensPage =
  TP_Items :: "TokenItem list"
  TP_NextCursor :: string
  TP_HasMore :: bool

definition EqualFold :: "string \<Rightarrow> string \<Rightarrow> bool" where
  "EqualFold a b \<longleftrightarrow> ToLower a = ToLower b"

fun cursor_index :: "GethCommon \<Rightarrow> string \<Rightarrow> (bytes \<times> ERC20Token) list \<Rightarrow> nat option" where
  "cursor_index G cursor [] = None"
| "cursor_index G cursor ((a, t) # rest) =
     (if EqualFold (G_AddressHex G a) cursor then Some 1 else map_option Suc (cursor_index G cursor rest))"

definition token_item :: "GethCommon \<Rightarrow> bytes \<times> ERC20Token \<Rightarrow> TokenItem" where
  "token_item G e = (case e of (addr, tok) \<Rightarrow>
     \<lparr>TI_Address = G_AddressHex G addr, TI_Name = Tk_Name tok, TI_Symbol = Tk_Symbol tok, TI_Decimals = Tk_Decimals tok\<rparr>)"

text \<open>\<open>limit\<close> is between 1 and 200 (\<open>parsePagination\<close> of the HTTP handler).\<close>

definition GetSupportedTokens :: "GethCommon \<Rightarrow> token_map \<Rightarrow> string \<Rightarrow> nat \<Rightarrow> goerr + TokensPage" where
  "GetSupportedTokens G c cursor limit =
     (let addrs = sort_key (\<lambda>e. G_AddressHex G (fst e)) c
      in case (if cursor = '''' then Some 0 else cursor_index G cursor addrs) of
           None \<Rightarrow> Inl (BadRequestError None ''invalid cursor'')
         | Some start \<Rightarrow>
             let hasMore = start + limit < length addrs;
                 items = map (token_item G) (take limit (drop start addrs))
             in Inr \<lparr>TP_Items = items,
                  TP_NextCursor = (if hasMore \<and> items \<noteq> [] then TI_Address (last items) else ''''),
                  TP_HasMore = hasMore\<rparr>)"

section \<open>Providers\<close>

record 'w Provider =
  P_GetTotalSupply :: "string \<Rightarrow> ('w, goerr + string) state"
  P_GetBalance :: "string \<Rightarrow> string \<Rightarrow> ('w, goerr + string) state"

definition CantonProvider :: "'d DecimalLib \<Rightarrow> TokenConfig \<Rightarrow> 'w TokenLedger \<Rightarrow> 'w Provider" where
  "CantonProvider D cfg L =
     \<lparr>P_GetTotalSupply = \<lambda>tokenSymbol. GetTotalSupply D cfg L tokenSymbol,
      P_GetBalance = \<lambda>tokenSymbol partyID. GetBalanceByPartyID D cfg L partyID tokenSymbol\<rparr>"

text \<open>The two calls of the indexer's HTTP client that the provider makes; the second returns the amount.\<close>

record 'w IndexerReads =
  IR_TotalSupply :: "string \<Rightarrow> string \<Rightarrow> ('w, goerr + string) state"
  IR_GetBalance :: "string \<Rightarrow> string \<Rightarrow> string \<Rightarrow> ('w, goerr + string) state"

definition instrumentAdmin :: "(string \<Rightarrow> string option) \<Rightarrow> string \<Rightarrow> goerr + string" where
  "instrumentAdmin instruments tokenSymbol =
     (case instruments tokenSymbol of
        None \<Rightarrow> Inl (Err (''unknown token symbol: '' @ tokenSymbol))
      | Some admin \<Rightarrow> Inr admin)"

definition IndexerProvider :: "'w IndexerReads \<Rightarrow> (string \<Rightarrow> string option) \<Rightarrow> 'w Provider" where
  "IndexerProvider C instruments =
     \<lparr>P_GetTotalSupply = \<lambda>tokenSymbol.
        (case instrumentAdmin instruments tokenSymbol of
           Inl e \<Rightarrow> ret (Inl e)
         | Inr admin \<Rightarrow> IR_TotalSupply C admin tokenSymbol),
      P_GetBalance = \<lambda>tokenSymbol partyID.
        (case instrumentAdmin instruments tokenSymbol of
           Inl e \<Rightarrow> ret (Inl e)
         | Inr admin \<Rightarrow> do {
             b \<leftarrow> IR_GetBalance C partyID admin tokenSymbol;
             case b of
               Inl e \<Rightarrow> if apperr_Is e CategoryResourceNotFound then ret (Inr ''0'') else ret (Inl e)
             | Inr amount \<Rightarrow> ret (Inr amount) })\<rparr>"

section \<open>The service\<close>

definition ethRPCTransferValidity :: int where "ethRPCTransferValidity = 30 * 24 * 3600 * 10 ^ 9"

definition service_transfer ::
  "GethCommon \<Rightarrow> 'd DecimalLib \<Rightarrow> TokenConfig \<Rightarrow> 'a api_db_scheme TokenLedger \<Rightarrow> token_map \<Rightarrow>
   string \<Rightarrow> bytes \<Rightarrow> bytes \<Rightarrow> bytes \<Rightarrow> string \<Rightarrow> ('a api_db_scheme, goerr + unit) state" where
  "service_transfer G D cfg L c idempotencyKey contract from to amount =
     (case getToken G c contract of
        Inl e \<Rightarrow> ret (Inl (BadRequestError (Some e) (''token not supported: '' @ G_AddressHex G contract)))
      | Inr tkn \<Rightarrow> do {
          f \<leftarrow> GetUserByEVMAddress (G_AddressHex G from);
          case f of
            Inl e \<Rightarrow> ret (Inl (BadRequestError (Some (Errorf ''failed to get sender'' e)) ''failed to get sender''))
          | Inr sender \<Rightarrow> do {
              t \<leftarrow> GetUserByEVMAddress (G_AddressHex G to);
              (case t of
                 Inl e \<Rightarrow> ret (Inl (BadRequestError (Some (Errorf ''failed to get recipient'' e)) ''failed to get recipient''))
               | Inr recipient \<Rightarrow> do {
                   r \<leftarrow> TransferByFingerprint D cfg L idempotencyKey (U_Fingerprint sender) (U_Fingerprint recipient)
                          amount (Tk_Symbol tkn) ethRPCTransferValidity;
                   (case r of
                      Inl e \<Rightarrow>
                        if errors_Is e ErrInsufficientBalance then ret (Inl (BadRequestError (Some e) ''insufficient balance''))
                        else ret (Inl (DependencyError (Some (Errorf ''canton transfer failed'' e)) ''canton transfer failed''))
                    | Inr _ \<Rightarrow> ret (Inr ())) }) } })"

definition getBalance ::
  "GethCommon \<Rightarrow> 'a api_db_scheme Provider \<Rightarrow> token_map \<Rightarrow> bytes \<Rightarrow> bytes \<Rightarrow> ('a api_db_scheme, goerr + string) state" where
  "getBalance G P c contract address =
     (case getToken G c contract of
        Inl e \<Rightarrow> ret (Inl e)
      | Inr tkn \<Rightarrow> do {
          u \<leftarrow> GetUserByEVMAddress (G_AddressHex G address);
          case u of
            Inl e \<Rightarrow> if errors_Is e ErrUserNotFound then ret (Inr ''0'') else ret (Inl (Errorf ''failed to get user'' e))
          | Inr usr \<Rightarrow> P_GetBalance P (Tk_Symbol tkn) (U_CantonPartyID usr) })"

definition getTotalSupply ::
  "GethCommon \<Rightarrow> 'w Provider option \<Rightarrow> token_map \<Rightarrow> bytes \<Rightarrow> ('w, goerr + string) state" where
  "getTotalSupply G provider c contract =
     (case provider of
        None \<Rightarrow> ret (Inl (Err ''token provider not configured''))
      | Some P \<Rightarrow>
          (case getToken G c contract of
             Inl e \<Rightarrow> ret (Inl e)
           | Inr tkn \<Rightarrow> P_GetTotalSupply P (Tk_Symbol tkn)))"

section \<open>The ERC-20 view\<close>

definition erc20_Name :: "GethCommon \<Rightarrow> token_map \<Rightarrow> bytes \<Rightarrow> string" where
  "erc20_Name G c contract = (case getToken G c contract of Inl _ \<Rightarrow> '''' | Inr tkn \<Rightarrow> Tk_Name tkn)"

definition erc20_Symbol :: "GethCommon \<Rightarrow> token_map \<Rightarrow> bytes \<Rightarrow> string" where
  "erc20_Symbol G c contract = (case getToken G c contract of Inl _ \<Rightarrow> '''' | Inr tkn \<Rightarrow> Tk_Symbol tkn)"

definition erc20_Decimals :: "GethCommon \<Rightarrow> token_map \<Rightarrow> bytes \<Rightarrow> octet" where
  "erc20_Decimals G c contract =
     (case getToken G c contract of
        Inl _ \<Rightarrow> 0
      | Inr tkn \<Rightarrow> if Tk_Decimals tkn < 0 \<or> Tk_Decimals tkn > 255 then 0 else of_int (Tk_Decimals tkn))"

definition token_decimalToBigInt :: "'d DecimalLib \<Rightarrow> string \<Rightarrow> octet \<Rightarrow> goerr + int" where
  "token_decimalToBigInt D s decimals =
     (case NewFromString D s of
        Inl e \<Rightarrow> Inl (Errorf ''invalid decimal format'' e)
      | Inr d \<Rightarrow> Inr (D_BigInt D (D_Mul D d (D_New D 1 (uint decimals)))))"

definition token_bigIntToDecimal :: "'d DecimalLib \<Rightarrow> int \<Rightarrow> octet \<Rightarrow> string" where
  "token_bigIntToDecimal D amount decimals = D_String D (NewFromBigInt D amount (- uint decimals))"

definition to_units :: "GethCommon \<Rightarrow> 'd DecimalLib \<Rightarrow> token_map \<Rightarrow> bytes \<Rightarrow> goerr + string \<Rightarrow> int" where
  "to_units G D c contract r =
     (case r of
        Inl _ \<Rightarrow> 0
      | Inr s \<Rightarrow> (case token_decimalToBigInt D s (erc20_Decimals G c contract) of Inl _ \<Rightarrow> 0 | Inr n \<Rightarrow> n))"

definition erc20_TotalSupply ::
  "GethCommon \<Rightarrow> 'd DecimalLib \<Rightarrow> 'w Provider option \<Rightarrow> token_map \<Rightarrow> bytes \<Rightarrow> ('w, int) state" where
  "erc20_TotalSupply G D provider c contract = do {
     ts \<leftarrow> getTotalSupply G provider c contract;
     ret (to_units G D c contract ts) }"

definition erc20_BalanceOf ::
  "GethCommon \<Rightarrow> 'd DecimalLib \<Rightarrow> 'a api_db_scheme Provider \<Rightarrow> token_map \<Rightarrow> bytes \<Rightarrow> bytes \<Rightarrow> ('a api_db_scheme, int) state" where
  "erc20_BalanceOf G D P c contract address = do {
     bal \<leftarrow> getBalance G P c contract address;
     ret (to_units G D c contract bal) }"

definition erc20_TransferFrom ::
  "GethCommon \<Rightarrow> 'd DecimalLib \<Rightarrow> TokenConfig \<Rightarrow> 'a api_db_scheme TokenLedger \<Rightarrow> token_map \<Rightarrow> bytes \<Rightarrow>
   string \<Rightarrow> bytes \<Rightarrow> bytes \<Rightarrow> int \<Rightarrow> ('a api_db_scheme, goerr + unit) state" where
  "erc20_TransferFrom G D cfg L c contract idempotencyKey from to amount =
     service_transfer G D cfg L c idempotencyKey contract from to
       (token_bigIntToDecimal D amount (erc20_Decimals G c contract))"

definition erc20_Approve :: "bytes \<Rightarrow> int \<Rightarrow> goerr option" where
  "erc20_Approve spender amount = Some (Err ''not supported'')"

definition erc20_Allowance :: "bytes \<Rightarrow> bytes \<Rightarrow> int" where
  "erc20_Allowance owner spender = 0"

definition service_ERC20 ::
  "GethCommon \<Rightarrow> 'd DecimalLib \<Rightarrow> TokenConfig \<Rightarrow> 'a api_db_scheme TokenLedger \<Rightarrow> token_map \<Rightarrow> 'a api_db_scheme ERC20Lookup" where
  "service_ERC20 G D cfg L c address =
     (case getToken G c address of
        Inl e \<Rightarrow> Inl e
      | Inr _ \<Rightarrow> Inr \<lparr>TransferFrom = erc20_TransferFrom G D cfg L c address\<rparr>)"

definition native_GetBalance :: "bytes \<Rightarrow> int" where "native_GetBalance address = 0"

definition native_Transfer :: "bytes \<Rightarrow> bytes \<Rightarrow> int \<Rightarrow> goerr option" where
  "native_Transfer from to amount = Some (Err ''native token transfer not supported'')"

text \<open>An amount of base units survives the conversion to a Canton decimal and back.\<close>

lemma units_roundtrip:
  assumes "decimal_lib D dval tval"
  shows "token_decimalToBigInt D (token_bigIntToDecimal D n d) d = Inr n"
proof -
  let ?s = "token_bigIntToDecimal D n d"
  have v: "tval ?s = Some (of_int n * 10 powi - uint d)"
    using decimal_lib.string_law[OF assms] decimal_lib.big_law[OF assms] by (simp add: token_bigIntToDecimal_def)
  then obtain x where x: "NewFromString D ?s = Inr x" "dval x = of_int n * 10 powi - uint d"
    using decimal_lib.parse_total[OF assms v] decimal_lib.parse_law[OF assms] v by force
  have "dval (D_Mul D x (D_New D 1 (uint d))) = of_int n"
    using x(2) decimal_lib.mul_law[OF assms] decimal_lib.new_law[OF assms] by (simp add: power_int_minus)
  then have "D_BigInt D (D_Mul D x (D_New D 1 (uint d))) = n"
    using decimal_lib.trunc_law[OF assms] by simp
  with x(1) show ?thesis by (simp add: token_decimalToBigInt_def)
qed

section \<open>Calls that leave the facade alone\<close>

definition undisturbed :: "('a \<Rightarrow> string \<Rightarrow> bool) \<Rightarrow> 'a api_db_scheme \<Rightarrow> 'a api_db_scheme \<Rightarrow> bool" where
  "undisturbed completed w w' \<longleftrightarrow>
     evm_tables w' = evm_tables w \<and> (\<forall>k. completed (api_db.more w) k \<longrightarrow> completed (api_db.more w') k)"

lemma undisturbed_query: "stays (undisturbed completed) (query what g)"
  by (auto simp: stays_def undisturbed_def query_def evm_tables_def split: list.splits fault.splits)

lemma undisturbed_whitelist: "stays (undisturbed completed) (IsWhitelisted skip a)"
  by (simp add: IsWhitelisted_def store_IsWhitelisted_def undisturbed_query) (simp add: stays_def undisturbed_def)

section \<open>Success\<close>

definition on_success :: "('w \<Rightarrow> bool) \<Rightarrow> ('w, goerr + 'r) state \<Rightarrow> bool" where
  "on_success Q m \<longleftrightarrow> (\<forall>w x w'. run_state m w = (Inr x, w') \<longrightarrow> Q w')"

named_theorems succeeds \<open>rules for what holds when an operation succeeds\<close>

lemma success_error [succeeds]: "on_success Q (ret (Inl e))"
  by (simp add: on_success_def)

lemma success_bind [succeeds]: "(\<And>x. on_success Q (f x)) \<Longrightarrow> on_success Q (State_Monad.bind m f)"
  by (auto simp: on_success_def split: prod.splits)

lemma success_last:
  assumes "on_success Q m" and that: "\<And>e. \<exists>e'. f e = ret (Inl e')"
  shows "on_success Q (State_Monad.bind m (\<lambda>r. case r of Inl e \<Rightarrow> f e | Inr x \<Rightarrow> ret (Inr (g x))))"
  unfolding on_success_def
proof (intro allI impI)
  fix w x w' assume run: "run_state (State_Monad.bind m (\<lambda>r. case r of Inl e \<Rightarrow> f e | Inr x \<Rightarrow> ret (Inr (g x)))) w = (Inr x, w')"
  obtain r w1 where r: "run_state m w = (r, w1)" by (rule run_obtain)
  from run r that have "\<exists>y. r = Inr y \<and> w1 = w'" by (cases r) (simp_all, metis Inl_Inr_False run_state_return prod.inject)
  with r assms show "Q w'" by (auto simp: on_success_def)
qed

section \<open>What the ledger promises\<close>

text \<open>
  A command carries its id into the prepared transaction, and an execution that is reported as done
  has completed that command; \<open>completed\<close> is a record the ledger only adds to.  No call of the client
  touches the facade's tables.
\<close>

locale token_ledger = token_frame "undisturbed completed" L
  for completed :: "'a \<Rightarrow> string \<Rightarrow> bool" and L :: "'a api_db_scheme TokenLedger" +
  fixes command_of :: "octet list \<Rightarrow> string"
  assumes prepare_law: "run_state (TK_PrepareSubmission L c) w = (Inr p, w') \<Longrightarrow> command_of (PS_PreparedTransaction p) = cmd_CommandId c"
    and execute_law: "run_state (TK_ExecuteSubmissionAndWait L x) w = (Inr (), w') \<Longrightarrow>
      completed (api_db.more w') (command_of (EX_PreparedTransaction x))"
begin

lemma calm_user: "stays (undisturbed completed) (GetUserByEVMAddress a)"
  unfolding GetUserByEVMAddress_def getUserBy_def by (auto intro!: stays_intros undisturbed_query split: sum.splits option.splits)

lemma calm_service: "stays (undisturbed completed) (service_transfer G D cfg L c k contract f t a)"
  unfolding service_transfer_def by (auto intro!: stays_intros calm_user frame_by_fingerprint split: sum.splits)

lemma executed_as_user: "on_success (\<lambda>w. completed (api_db.more w) (cmd_CommandId c)) (prepareAndExecuteAsUser L c key p)"
  unfolding on_success_def
proof (intro allI impI)
  fix w x w' assume run: "run_state (prepareAndExecuteAsUser L c key p) w = (Inr x, w')"
  obtain q w1 where q: "run_state (TK_PrepareSubmission L c) w = (q, w1)" by (rule run_obtain)
  obtain u w2 where u: "run_state (TK_NewUUID L) w1 = (u, w2)" by (rule run_obtain)
  from run q u obtain prep ex where "q = Inr prep" "run_state (TK_ExecuteSubmissionAndWait L ex) w2 = (Inr (), w')"
    "EX_PreparedTransaction ex = PS_PreparedTransaction prep"
    by (auto simp: prepareAndExecuteAsUser_def split: sum.splits prod.splits)
  with q show "completed (api_db.more w') (cmd_CommandId c)"
    using execute_law[of ex w2 w'] prepare_law[of c w prep w1] by simp
qed

lemma resolved_command:
  assumes "run_state (resolveTransferFactory cfg L req) w = (Inr req', w')"
  shows "tf_CommandID req' = tf_CommandID req"
  using assms unfolding resolveTransferFactory_def Let_def
  by (auto split: sum.splits option.splits prod.splits if_splits)

lemma executed_by_party: "on_success (\<lambda>w. completed (api_db.more w) k) (TransferByPartyID D cfg L k f t a s v)"
proof -
  have via: "on_success (\<lambda>w. completed (api_db.more w) (tf_CommandID req)) (transferViaFactory cfg L req)" for req
    using executed_as_user[of "user_commands cfg (tf_CommandID req) p r cmd d" for p r cmd d]
    unfolding transferViaFactory_def by (auto intro!: succeeds simp: user_commands_def split: sum.splits option.splits)
  have "on_success (\<lambda>w. completed (api_db.more w) (tf_CommandID req))
      (State_Monad.bind (resolveTransferFactory cfg L req) (\<lambda>r. case r of Inl e \<Rightarrow> ret (Inl e) | Inr req \<Rightarrow> transferViaFactory cfg L req))" for req
    using via unfolding on_success_def by (auto split: sum.splits prod.splits dest: resolved_command) (metis resolved_command)
  from this[of "factory_request k f t a v sel" for sel] show ?thesis
    unfolding TransferByPartyID_def by (auto intro!: succeeds simp: factory_request_def split: sum.splits)
qed

lemma executed_by_service: "on_success (\<lambda>w. completed (api_db.more w) k) (service_transfer G D cfg L c k contract f t a)"
proof -
  have "on_success (\<lambda>w. completed (api_db.more w) k) (TransferByFingerprint D cfg L k f t a s v)" for f t a s v
    unfolding TransferByFingerprint_def by (auto intro!: succeeds executed_by_party split: sum.splits)
  then have last: "on_success (\<lambda>w. completed (api_db.more w) k) (State_Monad.bind (TransferByFingerprint D cfg L k f t a s v)
      (\<lambda>r. case r of Inl e \<Rightarrow> if P e then ret (Inl (g e)) else ret (Inl (h e)) | Inr _ \<Rightarrow> ret (Inr ())))" for f t a s v P g h
    by (rule success_last) auto
  show ?thesis
    unfolding service_transfer_def by (auto intro!: last success_error success_bind[where m = "GetUserByEVMAddress a" for a] split: sum.splits)
qed

end

text \<open>The ledger's state as a field of the facade's world.\<close>

definition no_tables :: evm_db where
  "no_tables = \<lparr>pg_now = 0, pg_faults = [], mp_rows = [], mp_seq = 0, evm_txs = [], evm_logs = [], evm_state = []\<rparr>"

definition ledger_of :: "'a api_db_ext \<Rightarrow> 'a" where
  "ledger_of m = api_db.more (evm_db.extend no_tables m)"

lemma ledger_of_more [simp]: "ledger_of (evm_db.more w) = api_db.more w"
  by (cases w) (simp add: ledger_of_def evm_db.defs no_tables_def)

sublocale token_ledger \<subseteq> facade: canton_transfers "service_ERC20 G D cfg L c" "IsWhitelisted skip" "\<lambda>m. completed (ledger_of m)"
  for G D cfg c skip
proof
  fix contract erc20 k f t a w r w' k'
  assume E: "service_ERC20 G D cfg L c contract = Inr erc20"
  then have T: "TransferFrom erc20 k f t a = service_transfer G D cfg L c k contract f t (token_bigIntToDecimal D a (erc20_Decimals G c contract))" for k f t a
    by (auto simp: service_ERC20_def erc20_TransferFrom_def split: sum.splits)
  { assume "run_state (TransferFrom erc20 k f t a) w = (r, w')"
    then have "undisturbed completed w w'" unfolding T by (rule staysD[OF calm_service])
    then show "evm_tables w' = evm_tables w" "completed (ledger_of (evm_db.more w)) k' \<Longrightarrow> completed (ledger_of (evm_db.more w')) k'"
      by (simp_all add: undisturbed_def) }
  assume "run_state (TransferFrom erc20 k f t a) w = (Inr (), w')"
  then show "completed (ledger_of (evm_db.more w')) k" using executed_by_service unfolding T on_success_def by fastforce
next
  fix addr b k and w w' :: "'a api_db_scheme" assume "run_state (IsWhitelisted skip addr) w = (b, w')"
  then have "undisturbed completed w w'" by (rule staysD[OF undisturbed_whitelist])
  then show "evm_tables w' = evm_tables w" "completed (ledger_of (evm_db.more w)) k \<Longrightarrow> completed (ledger_of (evm_db.more w')) k"
    by (simp_all add: undisturbed_def)
qed

end
