(* ===== verification/Ethrpc_Progress.thy ===== *)
theory Ethrpc_Progress
  imports Ethrpc_Safety
begin

text \<open>
  What the facade achieves when the database works: a round of the miner seals a block whenever an
  entry is settled, so enough rounds give every settled entry its receipt.  Also the logs of a
  receipt: one for a success, none for a failure.
\<close>

section \<open>Statements on a working database\<close>

lemma exec_works [simp]: "pg_faults w = [] \<Longrightarrow> run_state (exec what f) w = (Inr (), f w)"
  by (simp add: exec_def)

lemma query_works [simp]: "pg_faults w = [] \<Longrightarrow> run_state (query what g) w = (Inr (g w), w)"
  by (simp add: query_def)

lemma mine_entries_works:
  "pg_faults w = [] \<Longrightarrow> run_state (mine_entries G gas block ts i li es) w = (Inr (), w\<lparr>
    evm_txs := fst (seal G gas block ts (pg_now w) i li es (evm_txs w, evm_logs w)),
    evm_logs := snd (seal G gas block ts (pg_now w) i li es (evm_txs w, evm_logs w))\<rparr>)"
proof (induction es arbitrary: i li w)
  case (Cons e es)
  then show ?case by (simp add: AddEvmTransaction_def AddEvmLog_def Let_def)
qed simp

lemma mine_works:
  assumes "pg_faults w = []" "row_of ES_ID 1 (evm_state w) = Some st"
  shows "run_state (mine G sha256 m) w =
    (Inr (), if claimable (mc_maxTxsPerBlock m) (mp_rows w) = [] then w else sealed_round G sha256 m st w)"
proof -
  let ?ds = "claimable (mc_maxTxsPerBlock m) (mp_rows w)" and ?n = "ES_LatestBlock st + 1"
  let ?b = "\<lparr>pb_tx = w, pb_blockNumber = ?n, pb_blockHash = ComputeBlockHash sha256 (mc_chainID m) ?n, pb_done = False\<rparr>"
  have nb: "run_state (NewBlock sha256 (mc_chainID m)) w = (Inr ?b, w)"
    using assms by (simp add: NewBlock_def Let_def)
  show ?thesis
  proof (cases "?ds = []")
    case True
    with assms(1) nb show ?thesis
      by (simp add: mine_def mine_block_def ClaimMempoolEntries_def Abort_def rollback_def)
  next
    case False
    let ?u = "\<lparr>pb_tx = (), pb_blockNumber = ?n, pb_blockHash = ComputeBlockHash sha256 (mc_chainID m) ?n, pb_done = False\<rparr>"
    have seal: "seal G gas ?b ts t i li xs r = seal G gas ?u ts t i li xs r" for gas ts t i li xs r
      by (rule seal_block_cong) simp_all
    let ?w1 = "w\<lparr>mp_rows := mark_mined (set (map MP_ID ?ds)) (pg_now w) (mp_rows w)\<rparr>"
    have cl: "run_state (ClaimMempoolEntries (mc_maxTxsPerBlock m)) w = (Inr (map fromMempoolEntryDao ?ds), ?w1)"
      using assms(1) False by (simp add: ClaimMempoolEntries_def)
    from nb cl False show ?thesis
      by (simp add: mine_def mine_block_def mine_entries_works assms(1) Finalize_def Abort_def Let_def)
        (rule evm_db.equality; simp add: seal sealed_round_def Let_def)
  qed
qed

section \<open>Rounds of the miner\<close>

fun mine_rounds :: "GethCommon \<Rightarrow> (bytes \<Rightarrow> bytes) \<Rightarrow> MinerConfig \<Rightarrow> nat \<Rightarrow> ('a evm_db_scheme, unit) state" where
  "mine_rounds G sha256 m 0 = ret ()"
| "mine_rounds G sha256 m (Suc n) = do { r \<leftarrow> mine G sha256 m; mine_rounds G sha256 m n }"

definition entry_settled :: "MempoolEntryDao \<Rightarrow> bool" where
  "entry_settled r \<longleftrightarrow> MP_Status r \<in> {MempoolCompleted, MempoolFailed}"

definition outcome_status :: "MempoolEntryDao \<Rightarrow> octet" where
  "outcome_status r = (if MP_Status r = MempoolCompleted then 1 else 0)"

lemma claimable_ne: "r \<in> set rows \<Longrightarrow> entry_settled r \<Longrightarrow> claimable n rows \<noteq> []"
proof -
  assume "r \<in> set rows" "entry_settled r"
  then have "r \<in> set (sort_key MP_ID (filter (\<lambda>r. MP_Status r \<in> {MempoolCompleted, MempoolFailed}) rows))"
    by (simp add: entry_settled_def)
  then have "sort_key MP_ID (filter (\<lambda>r. MP_Status r \<in> {MempoolCompleted, MempoolFailed}) rows) \<noteq> []"
    by (metis list.distinct(1) list.set_cases)
  then show ?thesis unfolding claimable_def limit_offset_def Let_def by (cases "n > 0") simp_all
qed

lemma mined_fewer:
  assumes "mempool_ok rows s" "claimable n rows \<noteq> []"
  shows "length (filter entry_settled (mark_mined (set (map MP_ID (claimable n rows))) now rows)) < length (filter entry_settled rows)"
proof -
  let ?ids = "set (map MP_ID (claimable n rows))"
  from assms(2) obtain d where "d \<in> set (claimable n rows)" by (meson last_in_set)
  with claimable_rows[OF this] have d: "d \<in> set rows" "entry_settled d" "MP_ID d \<in> ?ids" by (auto simp: entry_settled_def)
  have mined: "entry_settled (if MP_ID r \<in> I then r\<lparr>MP_Status := MempoolMined, MP_UpdatedAt := now\<rparr> else r) \<longleftrightarrow> MP_ID r \<notin> I \<and> entry_settled r" for r I
    by (simp add: entry_settled_def)
  have "filter entry_settled (mark_mined I now xs) = map (\<lambda>r. r) (filter (\<lambda>r. MP_ID r \<notin> I \<and> entry_settled r) xs)" for I xs
    by (induction xs) (simp_all add: mark_mined_def update_where_def entry_settled_def)
  then have "length (filter entry_settled (mark_mined ?ids now rows)) = length (filter (\<lambda>r. MP_ID r \<notin> ?ids) (filter entry_settled rows))"
    by (simp add: conj_commute)
  also have "\<dots> < length (filter entry_settled rows)"
    using d by (intro length_filter_less[of d]) auto
  finally show ?thesis .
qed

text \<open>A round seals the entry or leaves it for the next one; receipts stay.\<close>

lemma sealed_entry:
  fixes G sha256
  assumes "evm_ok w" "length (mp_rows w) < 2 ^ 64 - 1" "row_of ES_ID 1 (evm_state w) = Some st"
    and "claimable (mc_maxTxsPerBlock m) (mp_rows w) \<noteq> []"
  defines "w' \<equiv> sealed_round G sha256 m st w"
  shows "set (evm_txs w) \<subseteq> set (evm_txs w')"
    and "r \<in> set (mp_rows w) \<Longrightarrow> entry_settled r \<Longrightarrow>
      r \<in> set (mp_rows w') \<or> (\<exists>t \<in> set (evm_txs w'). ET_TxHash t = MP_TxHash r \<and> ET_Status t = outcome_status r)"
proof -
  let ?ds = "claimable (mc_maxTxsPerBlock m) (mp_rows w)" and ?n = "ES_LatestBlock st + 1"
  let ?es = "map fromMempoolEntryDao ?ds"
  let ?b = "\<lparr>pb_tx = (), pb_blockNumber = ?n, pb_blockHash = ComputeBlockHash sha256 (mc_chainID m) ?n, pb_done = False\<rparr>"
  from assms(1,2) obtain latest where ok: "mempool_ok (mp_rows w) (mp_seq w)"
    "chain_ok (evm_txs w) (evm_logs w) latest" "receipts_match (mp_rows w) (evm_txs w)" by (auto simp: evm_ok_def)
  have hash: "ME_TxHash (fromMempoolEntryDao d) = MP_TxHash d" for d by (simp add: fromMempoolEntryDao_def)
  have fresh: "MP_TxHash d \<notin> ET_TxHash ` set (evm_txs w)" if "d \<in> set ?ds" for d
  proof
    assume "MP_TxHash d \<in> ET_TxHash ` set (evm_txs w)"
    with ok(3) obtain r where r: "r \<in> set (mp_rows w)" "MP_TxHash r = MP_TxHash d" "MP_Status r = MempoolMined"
      unfolding receipts_match_def receipt_of_def by (metis imageE)
    with claimable_rows[OF that] same_hash[OF ok(1) r(1)] show False by auto
  qed
  moreover have "EL_TxHash l \<in> ET_TxHash ` set (evm_txs w)" if "l \<in> set (evm_logs w)" for l
    using log_has_tx[OF ok(2) that] .
  ultimately have new: "\<forall>e \<in> set ?es. ME_TxHash e \<notin> ET_TxHash ` set (evm_txs w) \<and> ME_TxHash e \<notin> EL_TxHash ` set (evm_logs w)"
    by (auto simp: hash) metis
  have "distinct (map ME_TxHash ?es)" using claimable_distinct[OF ok(1)] by (simp add: hash comp_def)
  from seal_appends[OF this new] have "seal G (mc_gasLimit m) ?b ts now 0 0 ?es (evm_txs w, evm_logs w) =
      (evm_txs w @ new_txs (mc_gasLimit m) ?b now 0 ?es, evm_logs w @ new_logs G ?b ts 0 0 ?es)" for ts now
    by blast
  then have txs: "evm_txs w' = evm_txs w @ new_txs (mc_gasLimit m) ?b (pg_now w) 0 ?es"
    by (simp add: w'_def sealed_round_def Let_def)
  then show "set (evm_txs w) \<subseteq> set (evm_txs w')" by simp
  assume r: "r \<in> set (mp_rows w)" "entry_settled r"
  show "r \<in> set (mp_rows w') \<or> (\<exists>t \<in> set (evm_txs w'). ET_TxHash t = MP_TxHash r \<and> ET_Status t = outcome_status r)"
  proof (cases "r \<in> set ?ds")
    case True
    then obtain i where i: "i < length ?ds" "?ds ! i = r" by (auto simp: in_set_conv_nth)
    let ?t = "toEvmTransactionDao (pg_now w) (mined_tx (mc_gasLimit m) ?b i (fromMempoolEntryDao r))"
    have "(i, fromMempoolEntryDao r) \<in> set (List.enumerate 0 ?es)"
      using i by (auto simp: in_set_enumerate_eq)
    then have "?t \<in> set (evm_txs w')" by (force simp: txs new_txs_def)
    moreover have "ET_Status ?t = outcome_status r"
      by (simp add: toEvmTransactionDao_def mined_tx_def txStatus_def fromMempoolEntryDao_def outcome_status_def Let_def)
    ultimately show ?thesis using hash[of r] dao_hash(1) by metis
  next
    case False
    have "set ?ds \<subseteq> set (mp_rows w)" using claimable_rows by blast
    with False r(1) ok(1) mark_mined_rows[of "mp_rows w" ?ds "pg_now w"] show ?thesis
      by (simp add: w'_def sealed_round_def Let_def mempool_ok_def)
  qed
qed

lemma evm_ok_state: "evm_ok w \<Longrightarrow> \<exists>st. row_of ES_ID 1 (evm_state w) = Some st"
  by (auto simp: evm_ok_def)

lemma sealed_keeps [simp]:
  "pg_faults (sealed_round G sha256 m st w) = pg_faults w" "length (mp_rows (sealed_round G sha256 m st w)) = length (mp_rows w)"
  by (simp_all add: sealed_round_def Let_def)

lemma rounds_receipt:
  assumes "pg_faults w = []" "evm_ok w" "length (mp_rows w) < 2 ^ 64 - 1"
    and "length (filter entry_settled (mp_rows w)) \<le> n"
    and "r \<in> set (mp_rows w) \<and> entry_settled r \<or> (\<exists>t \<in> set (evm_txs w). ET_TxHash t = MP_TxHash r \<and> ET_Status t = outcome_status r)"
  shows "\<exists>w'. run_state (mine_rounds G sha256 m n) w = ((), w') \<and> pg_faults w' = [] \<and> evm_ok w' \<and>
    length (mp_rows w') = length (mp_rows w) \<and> (\<exists>t \<in> set (evm_txs w'). ET_TxHash t = MP_TxHash r \<and> ET_Status t = outcome_status r)"
  using assms
proof (induction n arbitrary: w)
  case 0
  then show ?case by (auto simp: filter_empty_conv)
next
  case (Suc n)
  from evm_ok_state[OF Suc.prems(2)] obtain st where st: "row_of ES_ID 1 (evm_state w) = Some st" by blast
  note run = mine_works[OF Suc.prems(1) st, of G sha256 m]
  show ?case
  proof (cases "claimable (mc_maxTxsPerBlock m) (mp_rows w) = []")
    case True
    then have "length (filter entry_settled (mp_rows w)) = 0" using claimable_ne by (auto simp: filter_empty_conv)
    then have "length (filter entry_settled (mp_rows w)) \<le> n" by simp
    from Suc.IH[OF Suc.prems(1-3) this Suc.prems(5)] run True show ?thesis by simp
  next
    case False
    let ?w = "sealed_round G sha256 m st w"
    have "mempool_ok (mp_rows w) (mp_seq w)" using Suc.prems(2) by (simp add: evm_ok_def)
    from mined_fewer[OF this False] Suc.prems(4) have fewer: "length (filter entry_settled (mp_rows ?w)) \<le> n"
      by (simp add: sealed_round_def Let_def) (meson less_Suc_eq_le less_le_trans)
    have "r \<in> set (mp_rows ?w) \<and> entry_settled r \<or> (\<exists>t \<in> set (evm_txs ?w). ET_TxHash t = MP_TxHash r \<and> ET_Status t = outcome_status r)"
      using Suc.prems(5) sealed_entry[OF Suc.prems(2,3) st False] by (meson subsetD)
    from Suc.IH[OF _ evm_ok_sealed[OF Suc.prems(2) st False] _ fewer this] Suc.prems(1,3) run False show ?thesis by simp
  qed
qed

section \<open>Receipts\<close>

lemma count_by_key: "distinct (map key xs) \<Longrightarrow> length (filter (\<lambda>x. key x = k \<and> P x) xs) = (if \<exists>x \<in> set xs. key x = k \<and> P x then 1 else 0)"
proof (induction xs)
  case (Cons x xs)
  have "filter (\<lambda>y. key y = k \<and> P y) xs = []" if "key x = k"
    using Cons.prems that by (auto simp: filter_empty_conv rev_image_eqI)
  with Cons show ?case by auto
qed simp

lemma receipt_logs:
  assumes ok: "chain_ok txs logs latest" and t: "t \<in> set txs"
  shows "length (filter (\<lambda>l. EL_TxHash l = ET_TxHash t) logs) = (if ET_Status t = 1 then 1 else 0)"
proof -
  let ?h = "ET_TxHash t" and ?n = "ET_BlockNumber t"
  have uniq: "distinct (map ET_TxHash txs)" using ok by (simp add: chain_ok_def unique_rows_def)
  have cols: "map EL_TxHash (block_logs n logs) = map ET_TxHash (filter (\<lambda>t. ET_Status t = 1) (block_txs n txs))" for n
    using ok by (simp add: chain_ok_def)
  have "EL_BlockNumber l = ?n" if l: "l \<in> set logs" and h: "EL_TxHash l = ?h" for l
  proof -
    have "EL_TxHash l \<in> set (map EL_TxHash (block_logs (EL_BlockNumber l) logs))" using l by (simp add: block_logs_def)
    then obtain t' where "t' \<in> set txs" "ET_BlockNumber t' = EL_BlockNumber l" "ET_TxHash t' = ?h"
      unfolding cols using h by (auto simp: block_txs_def)
    with t uniq show ?thesis by (metis distinct_map inj_onD)
  qed
  then have "filter (\<lambda>l. EL_TxHash l = ?h) logs = filter (\<lambda>l. EL_TxHash l = ?h) (block_logs ?n logs)"
    by (auto simp: block_logs_def intro!: filter_cong)
  also have "length \<dots> = length (filter (\<lambda>x. x = ?h) (map EL_TxHash (block_logs ?n logs)))"
    by (simp add: filter_map comp_def)
  also have "\<dots> = length (filter (\<lambda>x. ET_TxHash x = ?h \<and> ET_Status x = 1 \<and> ET_BlockNumber x = ?n) txs)"
    unfolding cols by (simp add: filter_map comp_def block_txs_def conj_ac)
  also have "\<dots> = (if ET_Status t = 1 then 1 else 0)"
    unfolding count_by_key[OF uniq] using t uniq by (auto dest: inj_onD simp: distinct_map)
  finally show ?thesis .
qed

text \<open>The receipt of a stored transaction.\<close>

lemma receipt_found:
  assumes "run_state (GetTransactionReceipt G T hash) w = (Inr (Some rc), w')"
  obtains t where "t \<in> set (evm_txs w)" "ET_TxHash t = hash" "RR_TransactionHash rc = hash" "RR_Status rc = ucast (ET_Status t)"
    "RR_BlockNumber rc = ET_BlockNumber t" "RR_TransactionIndex rc = ET_TxIndex t"
    "length (RR_Logs rc) = length (filter (\<lambda>l. EL_TxHash l = hash) (evm_logs w))"
proof -
  obtain q w1 where q: "run_state (query ''get evm transaction'' (\<lambda>w. map_option fromEvmTransactionDao (row_of ET_TxHash hash (evm_txs w)))) w = (q, w1)"
    by (rule run_obtain)
  then obtain fs where w1: "w1 = w\<lparr>pg_faults := fs\<rparr>" "\<forall>x. q = Inr x \<longrightarrow> x = map_option fromEvmTransactionDao (row_of ET_TxHash hash (evm_txs w1))"
    by (rule query_faults)
  obtain l w2 where l: "run_state (GetEvmLogsByTxHash hash) w1 = (l, w2)" by (rule run_obtain)
  then have logs: "\<forall>x. l = Inr x \<longrightarrow> length x = length (filter (\<lambda>d. EL_TxHash d = hash) (evm_logs w))"
    unfolding GetEvmLogsByTxHash_def using w1(1) by (elim query_faults) auto
  from assms q obtain row where "q = Inr (Some row)"
    by (auto simp: GetTransactionReceipt_def GetEvmTransaction_def split: sum.splits option.splits)
  with w1 have "map_option fromEvmTransactionDao (row_of ET_TxHash hash (evm_txs w)) = Some row" by auto
  then obtain t where t: "row_of ET_TxHash hash (evm_txs w) = Some t" "row = fromEvmTransactionDao t" by auto
  from assms q l \<open>q = Inr (Some row)\<close> obtain ls where ls: "l = Inr ls" "rc = \<lparr>RR_TransactionHash = hash, RR_TransactionIndex = Tx_TxIndex row,
      RR_BlockHash = G_BytesToHash G (Tx_BlockHash row), RR_BlockNumber = Tx_BlockNumber row,
      RR_From = G_HexToAddress G (Tx_FromAddress row), RR_To = G_HexToAddress G (Tx_ToAddress row),
      RR_CumulativeGasUsed = Tx_GasUsed row, RR_GasUsed = Tx_GasUsed row, RR_Logs = map (types_log G T hash) ls,
      RR_LogsBloom = CreateBloom T (map (types_log G T hash) ls), RR_Status = ucast (Tx_Status row), RR_EffectiveGasPrice = 0,
      RR_Type = 2, RR_RevertReason = Tx_ErrorMessage row\<rparr>"
    by (auto simp: GetTransactionReceipt_def GetEvmTransaction_def Let_def split: sum.splits)
  show thesis
    by (rule that[of t]) (use t ls logs row_of_mem[OF t(1)] row_of_key[OF t(1)] in \<open>auto simp: fromEvmTransactionDao_def\<close>)
qed

lemma receipt_works:
  assumes "pg_faults w = []" "unique_rows ET_TxHash (evm_txs w)" "t \<in> set (evm_txs w)"
  shows "\<exists>rc. run_state (GetTransactionReceipt G T (ET_TxHash t)) w = (Inr (Some rc), w) \<and> RR_Status rc = ucast (ET_Status t)"
  using assms row_of_unique[OF assms(2,3)]
  by (simp add: GetTransactionReceipt_def GetEvmTransaction_def GetEvmLogsByTxHash_def Let_def fromEvmTransactionDao_def)

end
