(* ===== verification/Ethrpc_Properties.thy ===== *)
theory Ethrpc_Properties
  imports Token_Service Ethrpc_Progress
begin

text \<open>
  The properties of the JSON-RPC facade over the token service and the Canton token client, and a
  small ledger on which they are witnessed: it prepares and executes transfer commands, refuses a
  command it has completed, and can lose the answer to an execution.
\<close>

section \<open>A small ledger\<close>

record mini_ledger =
  ml_holdings :: "CreatedEvent list"
  ml_completed :: "string list"
  ml_prepared :: "(string \<times> TokenCommands) list"
  ml_lost :: "bool list"

definition string_of_bytes :: "bytes \<Rightarrow> string" where
  "string_of_bytes bs = map (\<lambda>b. char_of (unat b)) bs"

definition mini_holding :: "string \<Rightarrow> string \<Rightarrow> string \<Rightarrow> CreatedEvent" where
  "mini_holding cid owner amount =
     \<lparr>ce_Offset = 1, ce_NodeId = 0, ce_ContractId = cid, ce_TemplateId = None,
      ce_CreateArguments = Some [(''owner'', PartyValue owner), (''issuer'', PartyValue ''issuer''),
        (''instrumentId'', EncodeInstrumentId ''issuer'' ''DEMO''), (''amount'', NumericValue amount),
        (''lock'', None_value), (''meta'', EmptyMetadata)],
      ce_AcsDelta = True, ce_CreatedAt = 0\<rparr>"

fun contract_ids :: "Value option \<Rightarrow> string list" where
  "contract_ids (Some (V_List vs)) = concat (map (\<lambda>v. case v of Some (V_ContractId c) \<Rightarrow> [c] | _ \<Rightarrow> []) vs)"
| "contract_ids _ = []"

text \<open>Executing a transfer archives its input holdings and creates the receiver's.\<close>

definition mini_execute :: "string \<Rightarrow> mini_ledger \<Rightarrow> mini_ledger" where
  "mini_execute k l =
     (case map_of (ml_prepared l) k of
        None \<Rightarrow> l
      | Some c \<Rightarrow>
          let t = mget (RecordToMap (Some (ex_ChoiceArgument (hd (cmd_Commands c))))) ''transfer'';
              inputs = contract_ids (mget (RecordField t) ''inputHoldingCids'');
              new = mini_holding (''out-'' @ k) (NestedPartyField t ''receiver'') (Numeric (mget (RecordField t) ''amount''))
          in l\<lparr>ml_holdings := filter (\<lambda>h. ce_ContractId h \<notin> set inputs) (ml_holdings l) @ [new]\<rparr>)"

abbreviation mini_update :: "(mini_ledger \<Rightarrow> mini_ledger) \<Rightarrow> mini_ledger api_db_scheme \<Rightarrow> mini_ledger api_db_scheme" where
  "mini_update f \<equiv> api_db.more_update f"

definition mini_Prepare :: "TokenCommands \<Rightarrow> (mini_ledger api_db_scheme, goerr + PrepareSubmissionResponse) state" where
  "mini_Prepare c = do {
     modify (mini_update (\<lambda>l. l\<lparr>ml_prepared := (cmd_CommandId c, c) # ml_prepared l\<rparr>));
     ret (Inr \<lparr>PS_PreparedTransactionHash = bytes_of_string (cmd_CommandId c),
       PS_PreparedTransaction = bytes_of_string (cmd_CommandId c), PS_HashingSchemeVersion = 2\<rparr>) }"

definition mini_Execute :: "ExecuteSubmissionRequest \<Rightarrow> (mini_ledger api_db_scheme, goerr + unit) state" where
  "mini_Execute x = do {
     let k = string_of_bytes (EX_PreparedTransaction x);
     l \<leftarrow> gets api_db.more;
     if k \<in> set (ml_completed l) then ret (Inl (Err ''ALREADY_EXISTS: duplicate command''))
     else do {
       modify (mini_update (\<lambda>l. (mini_execute k l)\<lparr>ml_completed := k # ml_completed l, ml_lost := tl (ml_lost l)\<rparr>));
       (case ml_lost l of
          True # _ \<Rightarrow> ret (Inl DeadlineExceeded)
        | _ \<Rightarrow> ret (Inr ())) } }"

definition mini_tokens :: "mini_ledger api_db_scheme TokenLedger" where
  "mini_tokens =
     \<lparr>TK_GetLedgerEnd = ret (Inr 1),
      TK_ByTemplate = \<lambda>off parties i. gets (\<lambda>w. Inr (ml_holdings (api_db.more w))),
      TK_ByInterface = \<lambda>off parties i. gets (\<lambda>w. Inr (ml_holdings (api_db.more w))),
      TK_ActiveContracts = \<lambda>off p i. ret (Inr ([mini_holding ''factory'' ''issuer'' ''0''], None)),
      TK_SubmitAndWaitForTransaction = \<lambda>c. ret (Inl (Err ''not used'')),
      TK_SubmitAndWait = \<lambda>c. ret (Inl (Err ''not used'')),
      TK_PrepareSubmission = mini_Prepare, TK_ExecuteSubmissionAndWait = mini_Execute,
      TK_GetFingerprintMapping = \<lambda>fp. ret (Inr (''party-'' @ fp)),
      TK_KeyResolver = Some (\<lambda>p. Inr \<lparr>SignDER = Inr, SignerFingerprint = Inr ''key''\<rparr>),
      TK_Registry = None, TK_ChoiceContext = None, TK_NewUUID = ret ''uuid'', TK_Now = gets pg_now\<rparr>"

lemma string_of_bytes_of [simp]: "string_of_bytes (bytes_of_string s) = s"
  by (simp add: string_of_bytes_def bytes_of_string_def comp_def unsigned_of_nat char_of_take_bit_eq)

interpretation mini: token_ledger "\<lambda>l k. k \<in> set (ml_completed l)" mini_tokens string_of_bytes
proof
  show "stays (undisturbed (\<lambda>l k. k \<in> set (ml_completed l))) (TK_PrepareSubmission mini_tokens c)" for c
    by (auto simp: mini_tokens_def mini_Prepare_def stays_def undisturbed_def evm_tables_def)
  have "ml_completed (mini_execute k l) = ml_completed l" for k l
    by (simp add: mini_execute_def Let_def split: option.splits)
  then show "stays (undisturbed (\<lambda>l k. k \<in> set (ml_completed l))) (TK_ExecuteSubmissionAndWait mini_tokens x)" for x
    by (auto simp: mini_tokens_def mini_Execute_def stays_def undisturbed_def evm_tables_def Let_def split: list.splits bool.splits if_splits)
  show "run_state (TK_ExecuteSubmissionAndWait mini_tokens x) w = (Inr (), w') \<Longrightarrow>
      string_of_bytes (EX_PreparedTransaction x) \<in> set (ml_completed (api_db.more w'))" for x w w'
    by (auto simp: mini_tokens_def mini_Execute_def Let_def split: list.splits bool.splits if_splits)
qed (auto simp: mini_tokens_def mini_Prepare_def stays_def undisturbed_def)

section \<open>The facade\<close>

definition fresh_facade :: "'a evm_db_scheme \<Rightarrow> bool" where
  "fresh_facade w \<longleftrightarrow> mp_rows w = [] \<and> evm_txs w = [] \<and> evm_logs w = [] \<and> evm_state w = [\<lparr>ES_ID = 1, ES_LatestBlock = 0\<rparr>]"

lemma fresh_ok: "fresh_facade w \<Longrightarrow> facade_ok executed G (w, [], [])"
  by (simp add: fresh_facade_def facade_ok_def evm_ok_def mempool_ok_def receipts_match_def)

definition facade_reach ::
  "GethCommon \<Rightarrow> GethTypes \<Rightarrow> (bytes \<Rightarrow> bytes) \<Rightarrow> MinerConfig \<Rightarrow> bool \<Rightarrow> 'd DecimalLib \<Rightarrow> TokenConfig \<Rightarrow>
   'a api_db_scheme TokenLedger \<Rightarrow> token_map \<Rightarrow> 'a api_db_scheme \<Rightarrow> 'a api_db_ext facade \<Rightarrow> bool" where
  "facade_reach G T sha256 m skip D cfg L c w0 s \<longleftrightarrow>
     (ethrpc_step G T sha256 m (IsWhitelisted skip) (service_ERC20 G D cfg L c))\<^sup>*\<^sup>* (w0, [], []) s"

context token_ledger
begin

lemma reach_ok:
  assumes "fresh_facade w0" "facade_reach G T sha256 m skip D cfg L c w0 s"
  shows "facade_ok (\<lambda>x. completed (ledger_of x)) G s"
  using assms(2) fresh_ok[OF assms(1)] unfolding facade_reach_def by (rule facade.facade_reachable)

end

lemma reach_chain:
  assumes "token_ledger completed L command_of" "fresh_facade w0" "facade_reach G T sha256 m skip D cfg L c w0 (w, LL, A)"
    and "length (mp_rows w) < 2 ^ 64 - 1"
  obtains latest where "evm_state w = [\<lparr>ES_ID = 1, ES_LatestBlock = latest\<rparr>]" "chain_ok (evm_txs w) (evm_logs w) latest"
    "receipts_match (mp_rows w) (evm_txs w)"
  using token_ledger.reach_ok[OF assms(1-3)] assms(4) by (auto simp: facade_ok_def evm_ok_def)

text \<open>
  C6: in every state the facade reaches, under every interleaving of requests, submissions, recorded
  answers, mining rounds, database faults and restarts, the synthetic chain is well formed: blocks are
  numbered without gaps and none is empty, transactions and logs are numbered from zero within a
  block, exactly the successful transactions have a log, hashes are unique, and the transactions are
  exactly those of the mined mempool entries, with their sender, contract, nonce and input.
\<close>

theorem facade_chain_wellformed:
  assumes "token_ledger completed L command_of" "fresh_facade w0" "facade_reach G T sha256 m skip D cfg L c w0 (w, LL, A)"
    and "length (mp_rows w) < 2 ^ 64 - 1"
  shows "\<exists>latest. evm_state w = [\<lparr>ES_ID = 1, ES_LatestBlock = latest\<rparr>] \<and> chain_ok (evm_txs w) (evm_logs w) latest \<and>
    receipts_match (mp_rows w) (evm_txs w)"
  by (rule reach_chain[OF assms]) blast


text \<open>
  C12: an answered transaction gets its receipt.  Once Canton has answered a submission for good and
  the entry is still pending, recording the answer and then at most as many mining rounds as there
  are mempool entries produce a receipt whose status says whether the transfer was done, whatever the
  block size limit is.
\<close>

theorem answered_gets_receipt:
  assumes "token_ledger completed L command_of" "fresh_facade w0" "facade_reach G T sha256 m skip D cfg L c w0 (w, LL, A)"
    and "length (mp_rows w) < 2 ^ 64 - 1" "pg_faults w = []" "out \<noteq> OTransientRetry"
    and "r \<in> set (mp_rows w)" "MP_TxHash r = ME_TxHash e" "MP_Status r = MempoolPending"
  shows "\<exists>w1 w2 rc. run_state (record_outcome e out) w = ((), w1) \<and>
    run_state (mine_rounds G sha256 m (length (mp_rows w))) w1 = ((), w2) \<and>
    run_state (GetTransactionReceipt G T (ME_TxHash e)) w2 = (Inr (Some rc), w2) \<and>
    RR_Status rc = (if out = OCompleted then 1 else 0)"
proof -
  have ok: "evm_ok w" using token_ledger.reach_ok[OF assms(1-3)] by (simp add: facade_ok_def)
  define w1 where "w1 = w\<lparr>mp_rows := settle_rows (ME_TxHash e) (pg_now w) out (mp_rows w)\<rparr>"
  define r1 where "r1 = settle (pg_now w) out r"
  have run1: "run_state (record_outcome e out) w = ((), w1)"
    using assms(5,6) by (cases out) (simp_all add: w1_def record_outcome_def completeEntry_def failEntry_def
        CompleteMempoolEntry_def FailMempoolEntry_def settle_rows_update)
  have ok1: "evm_ok w1" using evm_ok_settle[OF ok, where fs = "pg_faults w"] by (simp add: w1_def)
  have len: "length (mp_rows w1) = length (mp_rows w)" by (simp add: w1_def settle_rows_def)
  have r1: "r1 \<in> set (mp_rows w1)" "entry_settled r1" "MP_TxHash r1 = ME_TxHash e" "outcome_status r1 = (if out = OCompleted then 1 else 0)"
    using assms(6-9) by (force simp: r1_def w1_def settle_rows_def settle_def entry_settled_def outcome_status_def split: outcome.splits)+
  have "length (filter entry_settled (mp_rows w1)) \<le> length (mp_rows w)" using length_filter_le[of entry_settled "mp_rows w1"] len by simp
  from rounds_receipt[OF _ ok1 _ this, of r1 G sha256 m] r1 assms(4,5) len obtain w2 t where w2:
    "run_state (mine_rounds G sha256 m (length (mp_rows w))) w1 = ((), w2)" "pg_faults w2 = []" "evm_ok w2"
    "length (mp_rows w2) = length (mp_rows w)" "t \<in> set (evm_txs w2)" "ET_TxHash t = ME_TxHash e" "ET_Status t = outcome_status r1"
    by (auto simp: w1_def)
  from w2(3,4) assms(4) have "unique_rows ET_TxHash (evm_txs w2)" by (auto simp: evm_ok_def chain_ok_def)
  from receipt_works[OF w2(2) this w2(5), of G T] w2(6,7) r1(4) run1 w2(1) show ?thesis by auto
qed

section \<open>A concrete run\<close>

definition mini_user :: "int \<Rightarrow> string \<Rightarrow> string \<Rightarrow> UserDao" where
  "mini_user i addr fp = toUserDao i 0 (user_New 0 addr (''party-'' @ fp) fp ''cid'' ''enc'')"

definition mini_config :: TokenConfig where
  "mini_config = \<lparr>tc_DomainID = ''dom'', tc_IssuerParty = ''issuer'', tc_UserID = ''user'', tc_CIP56PackageID = ''p1'',
     tc_SpliceTransferPackageID = ''p2'', tc_SpliceHoldingPackageID = ''p3'', tc_ExternalTokens = Map.empty\<rparr>"

definition mini_map :: token_map where
  "mini_map = [([0xC0], \<lparr>Tk_Name = ''Demo'', Tk_Symbol = ''DEMO'', Tk_Decimals = 2, Tk_InstrumentID = ''DEMO'', Tk_ExternalTransfer = False\<rparr>)]"

definition mini_types :: GethTypes where
  "mini_types = \<lparr>UnmarshalBinary = \<lambda>data. Inr \<lparr>etx_To = Some [0xC0], etx_Value = 0, etx_Data = [1, 2, 3, 4], etx_Nonce = 0, etx_Hash = data\<rparr>,
     TxSender = \<lambda>chain tx. Inr [0xA1], MethodById = \<lambda>b. Inr ''transfer'', UnpackTransfer = \<lambda>b. Inr (Some [0xB2], Some 500),
     CreateBloom = \<lambda>l. [], BytesToAddress = \<lambda>b. b\<rparr>"

definition mini_miner :: MinerConfig where
  "mini_miner = \<lparr>mc_chainID = 31337, mc_gasLimit = 21000, mc_maxTxsPerBlock = 10\<rparr>"

text \<open>One sender with a holding of 5.00, one recipient; \<open>lost\<close> tells which answers get lost.\<close>

definition mini_world :: "bool list \<Rightarrow> mini_ledger api_db_scheme" where
  "mini_world lost =
     \<lparr>pg_now = 10 ^ 18, pg_faults = [], mp_rows = [], mp_seq = 0, evm_txs = [], evm_logs = [],
      evm_state = [\<lparr>ES_ID = 1, ES_LatestBlock = 0\<rparr>],
      us_rows = [mini_user 1 ''0xa1'' ''alice'', mini_user 2 ''0xb2'' ''bob''], us_seq = 2,
      wl_rows = [\<lparr>WD_EVMAddress = ''0xa1'', WD_Note = None, WD_CreatedAt = 0\<rparr>],
      \<dots> = \<lparr>ml_holdings = [mini_holding ''h1'' ''party-alice'' ''5''], ml_completed = [], ml_prepared = [], ml_lost = lost\<rparr>\<rparr>"

definition mini_erc20 :: "mini_ledger api_db_scheme ERC20Lookup" where
  "mini_erc20 = service_ERC20 plain_geth dec_lib mini_config mini_tokens mini_map"

definition mini_send :: "bytes \<Rightarrow> (mini_ledger api_db_scheme, goerr + bytes) state" where
  "mini_send data = SendRawTransaction plain_geth mini_types (mc_chainID mini_miner) (IsWhitelisted False) mini_erc20 data"

lemma mini_amount: "token_bigIntToDecimal dec_lib 500 2 = ''5.00''"
  by code_simp

lemma mini_holdings: "map decodeHolding [mini_holding ''h1'' ''party-alice'' ''5''] =
  [\<lparr>Ho_ContractID = ''h1'', Ho_Issuer = ''issuer'', Ho_Owner = ''party-alice'', Ho_Amount = ''5'', Ho_Symbol = '''', Ho_InstrumentAdmin = ''issuer'',
    Ho_InstrumentID = ''DEMO'', Ho_Locked = False, Ho_Metadata = DecodeMetadata EmptyMetadata\<rparr>]"
  by (simp add: decodeHolding_def mini_holding_def RecordToMap_def DecodeInstrumentId_def EncodeInstrumentId_def value_defs MetaKeySymbol_def EmptyMetadata_def EncodeMetadata_def DecodeMetadata_def DecodeTextMap_def Let_def)

lemma mini_select: "selectHoldingsForTransfer dec_lib [\<lparr>Ho_ContractID = ''h1'', Ho_Issuer = ''issuer'', Ho_Owner = ''party-alice'', Ho_Amount = ''5'', Ho_Symbol = '''', Ho_InstrumentAdmin = ''issuer'',
    Ho_InstrumentID = ''DEMO'', Ho_Locked = False, Ho_Metadata = M\<rparr>] ''5.00'' = Inr \<lparr>sh_CIDs = [''h1''], sh_InstrumentAdmin = ''issuer'', sh_InstrumentID = ''DEMO''\<rparr>"
proof -
  have "compareDecimalStrings dec_lib ''5'' ''5.00'' = Inr 0" by code_simp
  moreover have "addDecimalStrings dec_lib ''0'' ''5'' = Inr ''5''" by code_simp
  ultimately show ?thesis by (simp add: selectHoldingsForTransfer_def)
qed

definition mini_done :: "string \<Rightarrow> TokenCommands \<Rightarrow> mini_ledger \<Rightarrow> mini_ledger" where
  "mini_done k c l = \<lparr>ml_holdings = [mini_holding (''out-'' @ k) ''party-bob'' ''5.00''], ml_completed = k # ml_completed l,
     ml_prepared = (k, c) # ml_prepared l, ml_lost = tl (ml_lost l)\<rparr>"

definition mini_answer :: "bool list \<Rightarrow> goerr + unit" where
  "mini_answer lost = (case lost of True # _ \<Rightarrow> Inl (DependencyError (Some (Errorf ''canton transfer failed'' (Errorf ''execute submission'' DeadlineExceeded))) ''canton transfer failed'') | _ \<Rightarrow> Inr ())"

lemma mini_hex: "G_AddressHex plain_geth [0xA1] = ''0xa1''" "G_AddressHex plain_geth [0xB2] = ''0xb2''" "G_AddressHex plain_geth [0xC0] = ''0xc0''"
  by code_simp+

lemma mini_user_fields [simp]: "UD_EVMAddress (mini_user i a fp) = a" "U_Fingerprint (toUser (mini_user i a fp)) = fp"
  by (simp_all add: mini_user_def user_New_def) (simp add: toUserDao_def)

lemma mini_token:
  "erc20_Decimals plain_geth mini_map [0xC0] = 2"
  "getToken plain_geth mini_map [0xC0] = Inr \<lparr>Tk_Name = ''Demo'', Tk_Symbol = ''DEMO'', Tk_Decimals = 2, Tk_InstrumentID = ''DEMO'', Tk_ExternalTransfer = False\<rparr>"
  by (simp_all add: erc20_Decimals_def getToken_def mini_map_def)

lemma mini_users:
  assumes "pg_faults w = []" "us_rows w = [mini_user 1 ''0xa1'' ''alice'', mini_user 2 ''0xb2'' ''bob'']"
  shows "run_state (GetUserByEVMAddress ''0xa1'') w = (Inr (toUser (mini_user 1 ''0xa1'' ''alice'')), w)"
    "run_state (GetUserByEVMAddress ''0xb2'') w = (Inr (toUser (mini_user 2 ''0xb2'' ''bob'')), w)"
  using assms by (simp_all add: GetUserByEVMAddress_def getUserBy_def)

lemma mini_executed:
  assumes "ml_holdings l = [mini_holding ''h1'' ''party-alice'' ''5'']"
    and "c = user_commands cfg k p ro (\<lparr>ex_TemplateId = i, ex_ContractId = f, ex_Choice = ch, ex_ChoiceArgument =
      encodeTransferFactoryTransferArgs adm ''party-alice'' ''party-bob'' ''5.00'' adm iid t1 t2 [''h1''] ea\<rparr>) d"
  shows "(mini_execute k (l\<lparr>ml_prepared := (k, c) # ml_prepared l\<rparr>))\<lparr>ml_completed := k # ml_completed l, ml_lost := tl (ml_lost l)\<rparr> = mini_done k c l"
  unfolding mini_execute_def mini_done_def
  using assms by (simp add: user_commands_def encodeTransferFactoryTransferArgs_def RecordToMap_def NestedPartyField_def value_defs mini_holding_def Let_def)

lemma mini_transfer:
  assumes "pg_faults w = []" "us_rows w = [mini_user 1 ''0xa1'' ''alice'', mini_user 2 ''0xb2'' ''bob'']"
    and "ml_holdings (api_db.more w) = [mini_holding ''h1'' ''party-alice'' ''5'']" "k \<notin> set (ml_completed (api_db.more w))" "k \<noteq> ''''"
  shows "\<exists>c. run_state (erc20_TransferFrom plain_geth dec_lib mini_config mini_tokens mini_map [0xC0] k [0xA1] [0xB2] 500) w =
    (mini_answer (ml_lost (api_db.more w)), mini_update (mini_done k c) w)"
proof -
  note u = mini_users[OF assms(1,2)]
  have hs: "run_state (GetHoldings mini_config mini_tokens ''party-alice'' ''DEMO'') w = (Inr (map decodeHolding [mini_holding ''h1'' ''party-alice'' ''5'']), w)"
    using assms(3) mini_holdings by (simp add: GetHoldings_def GetHoldingsByParty_def mini_tokens_def)
  let ?req = "(factory_request k ''party-alice'' ''party-bob'' ''5.00'' ethRPCTransferValidity
     \<lparr>sh_CIDs = [''h1''], sh_InstrumentAdmin = ''issuer'', sh_InstrumentID = ''DEMO''\<rparr>)"
  let ?req' = "?req\<lparr>tf_RequestedAt := pg_now w - 5 * 10 ^ 9, tf_ExecuteBefore := pg_now w - 5 * 10 ^ 9 + ethRPCTransferValidity, tf_FactoryCID := ''factory''\<rparr>"
  have res: "run_state (resolveTransferFactory mini_config mini_tokens ?req) w = (Inr ?req', w)"
    by (simp add: resolveTransferFactory_def Let_def mini_tokens_def mini_config_def factory_request_def getTransferFactoryCID_def GetTransferFactory_def queryFactoryContracts_def)
      (simp add: mini_holding_def)
  obtain i f ch t1 t2 ea where cmd: "buildTransferCommand mini_config (pg_now w) ?req' = Inr \<lparr>ex_TemplateId = i, ex_ContractId = f, ex_Choice = ch,
      ex_ChoiceArgument = encodeTransferFactoryTransferArgs ''issuer'' ''party-alice'' ''party-bob'' ''5.00'' ''issuer'' ''DEMO'' t1 t2 [''h1''] ea\<rparr>"
    by (simp add: buildTransferCommand_def factory_request_def Let_def)
  define c where "c = user_commands mini_config k ''party-alice'' (read_as mini_config ?req') \<lparr>ex_TemplateId = i, ex_ContractId = f, ex_Choice = ch,
      ex_ChoiceArgument = encodeTransferFactoryTransferArgs ''issuer'' ''party-alice'' ''party-bob'' ''5.00'' ''issuer'' ''DEMO'' t1 t2 [''h1''] ea\<rparr> []"
  define w1 where "w1 = mini_update (\<lambda>l. l\<lparr>ml_prepared := (k, c) # ml_prepared l\<rparr>) w"
  have prep: "run_state (mini_Prepare c) w = (Inr \<lparr>PS_PreparedTransactionHash = bytes_of_string k,
       PS_PreparedTransaction = bytes_of_string k, PS_HashingSchemeVersion = 2\<rparr>, w1)"
    by (simp add: mini_Prepare_def w1_def c_def user_commands_def)
  have exec: "run_state (mini_Execute x) w1 = (case ml_lost (api_db.more w) of True # _ \<Rightarrow> Inl DeadlineExceeded | _ \<Rightarrow> Inr (), mini_update (mini_done k c) w)"
    if "EX_PreparedTransaction x = bytes_of_string k" for x
  proof -
    have "mini_update (\<lambda>l. (mini_execute k l)\<lparr>ml_completed := k # ml_completed l, ml_lost := tl (ml_lost l)\<rparr>) w1 = mini_update (mini_done k c) w"
      by (rule api_db.equality) (simp_all add: w1_def mini_executed[OF assms(3) c_def])
    with that assms(4) show ?thesis by (simp add: mini_Execute_def Let_def w1_def split: list.splits bool.splits)
  qed
  have via: "run_state (transferViaFactory mini_config mini_tokens ?req') w =
    (case ml_lost (api_db.more w) of True # _ \<Rightarrow> Inl (Errorf ''execute submission'' DeadlineExceeded) | _ \<Rightarrow> Inr (), mini_update (mini_done k c) w)"
  proof -
    have res: "TK_KeyResolver mini_tokens = Some (\<lambda>p. Inr \<lparr>SignDER = Inr, SignerFingerprint = Inr ''key''\<rparr>)" "TK_Now mini_tokens = gets pg_now"
      "TK_PrepareSubmission mini_tokens = mini_Prepare" "TK_ExecuteSubmissionAndWait mini_tokens = mini_Execute" "TK_NewUUID mini_tokens = ret ''uuid''"
      by (simp_all add: mini_tokens_def)
    have "user_commands mini_config (tf_CommandID ?req') (tf_FromPartyID ?req') (read_as mini_config ?req') \<lparr>ex_TemplateId = i, ex_ContractId = f, ex_Choice = ch,
      ex_ChoiceArgument = encodeTransferFactoryTransferArgs ''issuer'' ''party-alice'' ''party-bob'' ''5.00'' ''issuer'' ''DEMO'' t1 t2 [''h1''] ea\<rparr> (tf_DisclosedContracts ?req') = c"
      by (simp add: c_def factory_request_def)
    with cmd have "run_state (transferViaFactory mini_config mini_tokens ?req') w =
        run_state (prepareAndExecuteAsUser mini_tokens c \<lparr>SignDER = Inr, SignerFingerprint = Inr ''key''\<rparr> (tf_FromPartyID ?req')) w"
      by (simp only: transferViaFactory_def res option.case sum.case run_state_bind run_gets split_conv prod.case)
    then show ?thesis
      by (simp add: prepareAndExecuteAsUser_def res prep exec split: list.splits bool.splits)
  qed
  have "run_state (TransferByFingerprint dec_lib mini_config mini_tokens k ''alice'' ''bob'' ''5.00'' ''DEMO'' ethRPCTransferValidity) w =
    (case ml_lost (api_db.more w) of True # _ \<Rightarrow> Inl (Errorf ''execute submission'' DeadlineExceeded) | _ \<Rightarrow> Inr (), mini_update (mini_done k c) w)"
    using hs mini_holdings mini_select res via assms(5)
    by (simp add: TransferByFingerprint_def TransferByPartyID_def mini_tokens_def[THEN arg_cong, of TK_GetFingerprintMapping] ethRPCTransferValidity_def)
  then have "run_state (erc20_TransferFrom plain_geth dec_lib mini_config mini_tokens mini_map [0xC0] k [0xA1] [0xB2] 500) w =
    (mini_answer (ml_lost (api_db.more w)), mini_update (mini_done k c) w)"
    by (simp add: erc20_TransferFrom_def mini_token mini_amount service_transfer_def mini_hex u mini_answer_def
        DeadlineExceeded_def ErrInsufficientBalance_def split: list.splits bool.splits)
  then show ?thesis by blast
qed

text \<open>A second submission under the same id finds no holding of the sender any more.\<close>

lemma mini_insufficient:
  assumes "pg_faults w = []" "us_rows w = [mini_user 1 ''0xa1'' ''alice'', mini_user 2 ''0xb2'' ''bob'']"
    and "ml_holdings (api_db.more w) = [mini_holding cid ''party-bob'' ''5.00'']" "k \<noteq> ''''"
  shows "run_state (erc20_TransferFrom plain_geth dec_lib mini_config mini_tokens mini_map [0xC0] k [0xA1] [0xB2] 500) w =
    (Inl (BadRequestError (Some (Errorf ''select holdings for transfer'' (Wrap '''' ErrInsufficientBalance '': no holdings found''))) ''insufficient balance''), w)"
proof -
  note u = mini_users[OF assms(1,2)]
  have "Ho_Owner (decodeHolding (mini_holding cid ''party-bob'' ''5.00'')) = ''party-bob''"
    by (simp add: decodeHolding_def mini_holding_def RecordToMap_def value_defs Let_def split: prod.splits)
  then have hs: "run_state (GetHoldings mini_config mini_tokens ''party-alice'' ''DEMO'') w = (Inr [], w)"
    using assms(3) by (simp add: GetHoldings_def GetHoldingsByParty_def mini_tokens_def)
  have "run_state (TransferByFingerprint dec_lib mini_config mini_tokens k ''alice'' ''bob'' ''5.00'' ''DEMO'' ethRPCTransferValidity) w =
    (Inl (Errorf ''select holdings for transfer'' (Wrap '''' ErrInsufficientBalance '': no holdings found'')), w)"
    using hs assms(4)
    by (simp add: TransferByFingerprint_def TransferByPartyID_def mini_tokens_def[THEN arg_cong, of TK_GetFingerprintMapping] ethRPCTransferValidity_def selectHoldingsForTransfer_def)
  then show ?thesis
    by (simp add: erc20_TransferFrom_def mini_token mini_amount service_transfer_def mini_hex u ErrInsufficientBalance_def)
qed


definition mini_row :: "MempoolStatus \<Rightarrow> string option \<Rightarrow> MempoolEntryDao" where
  "mini_row st err = \<lparr>MP_ID = 1, MP_TxHash = [7], MP_FromAddress = ''0xa1'', MP_ContractAddress = ''0xc0'', MP_RecipientAddress = ''0xb2'',
     MP_Nonce = 0, MP_Input = [1, 2, 3, 4], MP_AmountData = big_Bytes 500, MP_Status = st, MP_ErrorMessage = err,
     MP_CreatedAt = 10 ^ 18, MP_UpdatedAt = 10 ^ 18\<rparr>"

definition mini_queued :: "bool list \<Rightarrow> MempoolStatus \<Rightarrow> string option \<Rightarrow> mini_ledger api_db_scheme" where
  "mini_queued lost st err = (mini_world lost)\<lparr>mp_seq := 1, mp_rows := [mini_row st err]\<rparr>"

lemma mini_sent: "run_state (mini_send [7]) (mini_world lost) = (Inr [7], mini_queued lost MempoolPending None)"
  by (simp add: mini_send_def SendRawTransaction_def mini_types_def checkWhitelist_def mini_hex IsWhitelisted_def store_IsWhitelisted_def
      decodeTransferCall_def functionSelectorSize_def mini_erc20_def service_ERC20_def mini_token InsertMempoolEntry_def
      insert_ignore_def intent_of_def mini_queued_def mini_row_def mini_world_def ToLower_def lower_char_def Let_def)

lemma mini_submit:
  "run_state (submit_entry plain_geth mini_erc20 (fromMempoolEntryDao (mini_row st err))) w =
    (case run_state (erc20_TransferFrom plain_geth dec_lib mini_config mini_tokens mini_map [0xC0] ''0x07'' [0xA1] [0xB2] 500) w of
       (r, w') \<Rightarrow> (case r of Inr _ \<Rightarrow> OCompleted | Inl err \<Rightarrow> if isPermanentError err then OFailedPermanent err else OTransientRetry, w'))"
proof -
  have addr: "G_HexToAddress plain_geth ''0xc0'' = [0xC0]" "G_HexToAddress plain_geth ''0xa1'' = [0xA1]" "G_HexToAddress plain_geth ''0xb2'' = [0xB2]"
    "command_id plain_geth [7] = ''0x07''" by code_simp+
  show ?thesis
    by (simp add: submit_entry_def fromMempoolEntryDao_def mini_row_def addr big_bytes_roundtrip mini_erc20_def service_ERC20_def mini_token Let_def split: prod.splits)
qed

lemma mini_fetch:
  "mp_rows w = [mini_row MempoolPending None] \<Longrightarrow> pg_faults w = [] \<Longrightarrow>
    run_state (drain plain_geth mini_erc20 10) w =
    (Inr (), snd (run_state (submitter_process plain_geth mini_erc20 (fromMempoolEntryDao (mini_row MempoolPending None))) w))"
  by (simp add: drain_def GetMempoolEntriesByStatus_def limit_offset_def) (simp add: mini_row_def split: prod.splits)


lemma mini_queued_fields [simp]:
  "pg_faults (mini_queued lost st err) = []" "mp_rows (mini_queued lost st err) = [mini_row st err]"
  "us_rows (mini_queued lost st err) = [mini_user 1 ''0xa1'' ''alice'', mini_user 2 ''0xb2'' ''bob'']"
  "evm_txs (mini_queued lost st err) = []" "evm_logs (mini_queued lost st err) = []" "pg_now (mini_queued lost st err) = 10 ^ 18"
  "evm_state (mini_queued lost st err) = [\<lparr>ES_ID = 1, ES_LatestBlock = 0\<rparr>]"
  "ml_holdings (api_db.more (mini_queued lost st err)) = [mini_holding ''h1'' ''party-alice'' ''5'']"
  "ml_completed (api_db.more (mini_queued lost st err)) = []" "ml_lost (api_db.more (mini_queued lost st err)) = lost"
  by (simp_all add: mini_queued_def mini_world_def)

lemma mini_settle [simp]:
  "update_where (\<lambda>r. MP_TxHash r = [7] \<and> MP_Status r = MempoolPending) (\<lambda>r. r\<lparr>MP_Status := MempoolCompleted, MP_UpdatedAt := 10 ^ 18\<rparr>)
     [mini_row MempoolPending None] = [mini_row MempoolCompleted None]"
  "update_where (\<lambda>r. MP_TxHash r = [7] \<and> MP_Status r = MempoolPending)
     (\<lambda>r. r\<lparr>MP_Status := MempoolFailed, MP_ErrorMessage := Some m, MP_UpdatedAt := 10 ^ 18\<rparr>)
     [mini_row MempoolPending None] = [mini_row MempoolFailed (Some m)]"
  by (simp_all add: update_where_def mini_row_def)

lemma mini_entry_hash [simp]: "ME_TxHash (fromMempoolEntryDao (mini_row st err)) = [7]"
  by (simp add: fromMempoolEntryDao_def mini_row_def)

text \<open>A drain whose answer arrives, one whose answer is lost, and the retry after that.\<close>

lemma mini_drained:
  "\<exists>c. run_state (drain plain_geth mini_erc20 10) (mini_queued [] MempoolPending None) =
    (Inr (), (mini_update (mini_done ''0x07'' c) (mini_queued [] MempoolPending None))\<lparr>mp_rows := [mini_row MempoolCompleted None]\<rparr>)"
proof -
  from mini_transfer[of "mini_queued [] MempoolPending None" "''0x07''"] obtain c where
    "run_state (erc20_TransferFrom plain_geth dec_lib mini_config mini_tokens mini_map [0xC0] ''0x07'' [0xA1] [0xB2] 500) (mini_queued [] MempoolPending None) =
      (Inr (), mini_update (mini_done ''0x07'' c) (mini_queued [] MempoolPending None))" by (auto simp: mini_answer_def)
  then show ?thesis
    by (simp add: mini_fetch submitter_process_def mini_submit record_outcome_def completeEntry_def CompleteMempoolEntry_def del: power_numeral)
      blast
qed

lemma mini_lost:
  "\<exists>c. run_state (drain plain_geth mini_erc20 10) (mini_queued [True] MempoolPending None) =
    (Inr (), mini_update (mini_done ''0x07'' c) (mini_queued [True] MempoolPending None))"
proof -
  from mini_transfer[of "mini_queued [True] MempoolPending None" "''0x07''"] obtain c where
    "run_state (erc20_TransferFrom plain_geth dec_lib mini_config mini_tokens mini_map [0xC0] ''0x07'' [0xA1] [0xB2] 500) (mini_queued [True] MempoolPending None) =
      (mini_answer [True], mini_update (mini_done ''0x07'' c) (mini_queued [True] MempoolPending None))" by auto
  moreover have "mini_answer [True] = Inl e \<Longrightarrow> \<not> isPermanentError e" for e
    by (auto simp: mini_answer_def isPermanentError_def app_errors)
  moreover obtain e where "mini_answer [True] = Inl e" by (simp add: mini_answer_def)
  ultimately show ?thesis
    by (auto simp: mini_fetch submitter_process_def mini_submit record_outcome_def)
qed

lemma mini_retry:
  assumes "w = mini_update (mini_done ''0x07'' c) (mini_queued [True] MempoolPending None)"
  shows "\<exists>m. run_state (drain plain_geth mini_erc20 10) w = (Inr (), w\<lparr>mp_rows := [mini_row MempoolFailed (Some m)]\<rparr>)"
proof -
  let ?e = "BadRequestError (Some (Errorf ''select holdings for transfer'' (Wrap '''' ErrInsufficientBalance '': no holdings found''))) ''insufficient balance''"
  have "run_state (erc20_TransferFrom plain_geth dec_lib mini_config mini_tokens mini_map [0xC0] ''0x07'' [0xA1] [0xB2] 500) w = (Inl ?e, w)"
    by (rule mini_insufficient) (simp_all add: assms mini_done_def)
  moreover have "isPermanentError ?e" by (simp add: isPermanentError_def app_errors)
  moreover have "mp_rows w = [mini_row MempoolPending None]" "pg_faults w = []" "pg_now w = 10 ^ 18" by (simp_all add: assms)
  ultimately show ?thesis
    by (simp add: mini_fetch submitter_process_def mini_submit record_outcome_def failEntry_def FailMempoolEntry_def del: power_numeral) blast
qed

lemma reach_drain:
  assumes "facade_reach G T sha256 m skip D cfg L c w0 (w, [], [])" "run_state (drain G (service_ERC20 G D cfg L c) n) w = (r, w')"
  shows "facade_reach G T sha256 m skip D cfg L c w0 (w', [], [])"
proof -
  let ?step = "ethrpc_step G T sha256 m (IsWhitelisted skip) (service_ERC20 G D cfg L c)"
  from drain_steps[OF assms(2), of T sha256 m "IsWhitelisted skip" "[]" "[]"] obtain L' A' where "?step\<^sup>*\<^sup>* (w, [], []) (w', L', A')" by blast
  with assms(1) have "?step\<^sup>*\<^sup>* (w0, [], []) (w', L', A')" unfolding facade_reach_def by (rule rtranclp_trans)
  then show ?thesis
    unfolding facade_reach_def by (rule rtranclp.rtrancl_into_rtrancl) (rule ethrpc_step.restart)
qed

lemma reach_mine:
  assumes "facade_reach G T sha256 m skip D cfg L c w0 (w, [], [])" "run_state (mine G sha256 m) w = (r, w')"
  shows "facade_reach G T sha256 m skip D cfg L c w0 (w', [], [])"
  using assms(1) unfolding facade_reach_def by (rule rtranclp.rtrancl_into_rtrancl) (rule ethrpc_step.mine_round[OF assms(2)])

abbreviation mini_reach :: "bool list \<Rightarrow> mini_ledger api_db_scheme \<Rightarrow> bool" where
  "mini_reach lost w \<equiv> facade_reach plain_geth mini_types (\<lambda>b. b) mini_miner False dec_lib mini_config mini_tokens mini_map (mini_world lost) (w, [], [])"

lemma mini_fresh: "fresh_facade (mini_world lost)"
  by (simp add: fresh_facade_def mini_world_def)

lemma mini_reach_sent: "mini_reach lost (mini_queued lost MempoolPending None)"
proof -
  have "ethrpc_step plain_geth mini_types (\<lambda>b. b) mini_miner (IsWhitelisted False) mini_erc20 (mini_world lost, [], []) (mini_queued lost MempoolPending None, [], [])"
    by (rule ethrpc_step.send) (rule mini_sent[unfolded mini_send_def])
  then show ?thesis unfolding facade_reach_def mini_erc20_def by (rule r_into_rtranclp)
qed

lemma mini_mined:
  assumes "mini_reach lost w" "pg_faults w = []" "mp_rows w = [mini_row st err]" "st \<in> {MempoolCompleted, MempoolFailed}"
  shows "\<exists>w' rc. mini_reach lost w' \<and> run_state (GetTransactionReceipt plain_geth mini_types [7]) w' = (Inr (Some rc), w') \<and>
    RR_Status rc = (if st = MempoolCompleted then 1 else 0) \<and> api_db.more w' = api_db.more w \<and> length (mp_rows w') = 1"
proof -
  have ok: "evm_ok w" using mini.reach_ok[OF mini_fresh assms(1)] by (simp add: facade_ok_def)
  from evm_ok_state[OF ok] obtain est where est: "row_of ES_ID 1 (evm_state w) = Some est" by blast
  have r: "entry_settled (mini_row st err)" "MP_TxHash (mini_row st err) = [7]" "outcome_status (mini_row st err) = (if st = MempoolCompleted then 1 else 0)"
    using assms(4) by (auto simp: entry_settled_def mini_row_def outcome_status_def)
  from rounds_receipt[OF assms(2) ok, of 1 "mini_row st err" plain_geth "\<lambda>b. b" mini_miner] assms(3) r(1)
  obtain w' t where w': "run_state (mine_rounds plain_geth (\<lambda>b. b) mini_miner 1) w = ((), w')" "pg_faults w' = []" "evm_ok w'" "length (mp_rows w') = 1"
    "t \<in> set (evm_txs w')" "ET_TxHash t = [7]" "ET_Status t = (if st = MempoolCompleted then 1 else 0)"
    unfolding r(2,3) by auto
  from mine_works[OF assms(2) est, of plain_geth "\<lambda>b. b" mini_miner] w'(1)
  have run: "run_state (mine plain_geth (\<lambda>b. b) mini_miner) w = (Inr (), w')" "api_db.more w' = api_db.more w"
    by (auto simp: sealed_round_def Let_def split: if_splits)
  from w'(3,4) have "unique_rows ET_TxHash (evm_txs w')" by (auto simp: evm_ok_def chain_ok_def)
  from receipt_works[OF w'(2) this w'(5), of plain_geth mini_types] w'(4,6,7) run reach_mine[OF assms(1) run(1)]
  show ?thesis by auto
qed

definition mini_outcome :: "bool list \<Rightarrow> nat \<Rightarrow> octet \<Rightarrow> mini_ledger api_db_scheme \<Rightarrow> bool" where
  "mini_outcome lost n st w \<longleftrightarrow> mini_reach lost w \<and> length (mp_rows w) = n \<and> ''0x07'' \<in> set (ml_completed (api_db.more w)) \<and>
     (\<exists>rc. run_state (GetTransactionReceipt plain_geth mini_types [7]) w = (Inr (Some rc), w) \<and> RR_Status rc = ucast st)"

lemma mini_success: "\<exists>w. mini_outcome [] 1 1 w"
proof -
  from mini_drained obtain c where d: "run_state (drain plain_geth mini_erc20 10) (mini_queued [] MempoolPending None) =
    (Inr (), (mini_update (mini_done ''0x07'' c) (mini_queued [] MempoolPending None))\<lparr>mp_rows := [mini_row MempoolCompleted None]\<rparr>)" by blast
  from mini_mined[OF reach_drain[OF mini_reach_sent d[unfolded mini_erc20_def]], of MempoolCompleted None] show ?thesis
    by (auto simp: mini_outcome_def mini_done_def)
qed

lemma mini_failure: "\<exists>w. mini_outcome [True] 1 0 w"
proof -
  from mini_lost obtain c where d: "run_state (drain plain_geth mini_erc20 10) (mini_queued [True] MempoolPending None) =
    (Inr (), mini_update (mini_done ''0x07'' c) (mini_queued [True] MempoolPending None))" by blast
  define w where "w = mini_update (mini_done ''0x07'' c) (mini_queued [True] MempoolPending None)"
  from mini_retry[OF w_def] obtain m where e: "run_state (drain plain_geth mini_erc20 10) w = (Inr (), w\<lparr>mp_rows := [mini_row MempoolFailed (Some m)]\<rparr>)" by blast
  have "mini_reach [True] w" using reach_drain[OF mini_reach_sent d[unfolded mini_erc20_def]] by (simp add: w_def)
  from mini_mined[OF reach_drain[OF this e[unfolded mini_erc20_def]], of MempoolFailed "Some m"] show ?thesis
    by (auto simp: mini_outcome_def mini_done_def w_def)
qed

theorem facade_chain_wellformed_witness:
  "\<exists>w. mini_outcome [] 1 1 w \<and> (\<exists>latest. evm_state w = [\<lparr>ES_ID = 1, ES_LatestBlock = latest\<rparr>] \<and>
    chain_ok (evm_txs w) (evm_logs w) latest \<and> receipts_match (mp_rows w) (evm_txs w))"
proof -
  from mini_success obtain w where w: "mini_outcome [] 1 1 w" by blast
  then have "mini_reach [] w" "length (mp_rows w) < 2 ^ 64 - 1" by (simp_all add: mini_outcome_def)
  from facade_chain_wellformed[OF mini.token_ledger_axioms mini_fresh this] w show ?thesis by blast
qed


theorem answered_gets_receipt_witness:
  "\<exists>w1 w2 rc. run_state (record_outcome (fromMempoolEntryDao (mini_row MempoolPending None)) OCompleted) (mini_queued [] MempoolPending None) = ((), w1) \<and>
    run_state (mine_rounds plain_geth (\<lambda>b. b) mini_miner 1) w1 = ((), w2) \<and>
    run_state (GetTransactionReceipt plain_geth mini_types [7]) w2 = (Inr (Some rc), w2) \<and> RR_Status rc = 1"
  using answered_gets_receipt[OF mini.token_ledger_axioms mini_fresh mini_reach_sent, of "[]" OCompleted "mini_row MempoolPending None"
      "fromMempoolEntryDao (mini_row MempoolPending None)"]
  by (simp add: mini_row_def fromMempoolEntryDao_def)


end
