(* ===== verification/Transfer_Service.thy ===== *)
theory Transfer_Service
  imports Token_Service Indexer_Decoder
begin

text \<open>
  \<open>pkg/transfer\<close>: transfers of users who keep their own keys, in two steps (prepare, then execute
  with the client's signature), the single-call transfers of custodial users, the claim-back of
  offers, and the listings.  Prepared transactions wait in an in-memory cache (\<open>cache.go\<close>), part of
  the world here.  The status code of a gRPC error, RFC 3339 formatting, the indexer's HTTP client and
  the party registry are parameters; log lines and metrics are left out.
\<close>

section \<open>Requests and responses\<close>

record PrepareRequest =
  Rq_To :: string
  Rq_ToPartyID :: string
  Rq_Amount :: string
  Rq_Token :: string
  Rq_ValiditySeconds :: int

record CustodialTransferRequest =
  Cu_ToPartyID :: string
  Cu_Amount :: string
  Cu_Token :: string
  Cu_ValiditySeconds :: int

record PrepareResponse =
  Rs_TransferID :: string
  Rs_TransactionHash :: string
  Rs_PartyID :: string
  Rs_ExpiresAt :: string

record ExecuteRequest =
  Er_TransferID :: string
  Er_Signature :: string
  Er_SignedBy :: string

text \<open>
  The items of the three listings have ten fields in common, which are those of an incoming transfer;
  an absent optional string is empty.
\<close>

record IncomingTransfer =
  Li_ContractID :: string
  Li_FromPartyID :: string
  Li_ToPartyID :: string
  Li_Amount :: string
  Li_InstrumentAdmin :: string
  Li_InstrumentID :: string
  Li_Symbol :: string
  Li_Decimals :: int
  Li_Name :: string
  Li_ContractAddress :: string

record OutgoingTransfer = IncomingTransfer +
  Lo_Status :: string
  Lo_CreatedAt :: string
  Lo_ExpiresAt :: string

record CompletedTransfer = IncomingTransfer +
  Lc_Kind :: string
  Lc_Status :: string
  Lc_Timestamp :: string
  Lc_TxID :: string

record 'i TransfersList =
  Ls_Items :: "'i list"
  Ls_Total :: int
  Ls_Page :: int
  Ls_Limit :: int
  Ls_HasMore :: bool

section \<open>The cache of prepared transfers\<close>

definition ErrTransferNotFound :: goerr where "ErrTransferNotFound = Sentinel ''transfer not found''"
definition ErrTransferExpired :: goerr where "ErrTransferExpired = Sentinel ''transfer expired''"
definition ErrCacheFull :: goerr where "ErrCacheFull = Sentinel ''cache is full''"

record transfer_db = api_db +
  pc_entries :: "(string \<times> PreparedTransfer) list"
  pc_ttl :: int
  pc_maxSize :: int

text \<open>\<open>Put\<close> sets the expiry of the transfer it is given, which its caller reads afterwards.\<close>

definition cache_Put :: "PreparedTransfer \<Rightarrow> ('a transfer_db_scheme, goerr + PreparedTransfer) state" where
  "cache_Put t = do {
     w \<leftarrow> State_Monad.get;
     if pc_maxSize w > 0 \<and> int (length (pc_entries w)) \<ge> pc_maxSize w then ret (Inl ErrCacheFull)
     else do {
       let t' = t\<lparr>PT_ExpiresAt := pg_now w + pc_ttl w\<rparr>;
       State_Monad.set (w\<lparr>pc_entries := AList.update (PT_TransferID t) t' (pc_entries w)\<rparr>);
       ret (Inr t') } }"

definition cache_GetAndDelete :: "string \<Rightarrow> ('a transfer_db_scheme, goerr + PreparedTransfer) state" where
  "cache_GetAndDelete transferID = do {
     w \<leftarrow> State_Monad.get;
     case map_of (pc_entries w) transferID of
       None \<Rightarrow> ret (Inl ErrTransferNotFound)
     | Some entry \<Rightarrow> do {
         State_Monad.set (w\<lparr>pc_entries := AList.delete transferID (pc_entries w)\<rparr>);
         ret (if pg_now w > PT_ExpiresAt entry then Inl ErrTransferExpired else Inr entry) } }"

definition cache_cleanup :: "('a transfer_db_scheme, unit) state" where
  "cache_cleanup = modify (\<lambda>w. w\<lparr>pc_entries := filter (\<lambda>e. \<not> pg_now w > PT_ExpiresAt (snd e)) (pc_entries w)\<rparr>)"

section \<open>The service\<close>

record instrumentMeta =
  im_contractAddress :: string
  im_name :: string
  im_symbol :: string
  im_decimals :: int

text \<open>
  The reader of the indexer, the party registry (nil when not configured), \<open>status.FromError\<close> and
  \<open>Format(time.RFC3339)\<close>.
\<close>

record 'w TransferEnv =
  TE_GetTransfers :: "string \<Rightarrow> TransferQuery \<Rightarrow> Pagination \<Rightarrow> ('w, goerr + IxTransfer Page) state"
  TE_GetTransfer :: "string \<Rightarrow> ('w, goerr + IxTransfer option) state"
  TE_PartyExists :: "(string \<Rightarrow> ('w, goerr + bool) state) option"
  TE_FromError :: "goerr \<Rightarrow> nat option"
  TE_RFC3339 :: "time \<Rightarrow> string"

record TransferService =
  ts_allowedTokenSymbols :: "string \<Rightarrow> bool"
  ts_externalTokenSymbols :: "string \<Rightarrow> bool"
  ts_tokensByInstrument :: "string \<rightharpoonup> instrumentMeta"

text \<open>The configuration is read in the order a \<open>range\<close> over the map happens to have.\<close>

definition NewTransferService :: "GethCommon \<Rightarrow> token_map option \<Rightarrow> TransferService" where
  "NewTransferService G tokenCfg =
     (case tokenCfg of
        None \<Rightarrow> \<lparr>ts_allowedTokenSymbols = (\<lambda>_. False), ts_externalTokenSymbols = (\<lambda>_. False), ts_tokensByInstrument = Map.empty\<rparr>
      | Some toks \<Rightarrow> foldl (\<lambda>s (addr, tkn).
          \<lparr>ts_allowedTokenSymbols = (ts_allowedTokenSymbols s)(Tk_Symbol tkn := True),
           ts_externalTokenSymbols = (if Tk_ExternalTransfer tkn then (ts_externalTokenSymbols s)(Tk_Symbol tkn := True)
                                      else ts_externalTokenSymbols s),
           ts_tokensByInstrument = (ts_tokensByInstrument s)(Tk_InstrumentID tkn \<mapsto>
             \<lparr>im_contractAddress = G_AddressHex G addr, im_name = Tk_Name tkn, im_symbol = Tk_Symbol tkn, im_decimals = Tk_Decimals tkn\<rparr>)\<rparr>)
          \<lparr>ts_allowedTokenSymbols = (\<lambda>_. False), ts_externalTokenSymbols = (\<lambda>_. False), ts_tokensByInstrument = Map.empty\<rparr> toks)"

definition maxValiditySeconds :: int where "maxValiditySeconds = (2 ^ 63 - 1) div 10 ^ 9"

definition validityDuration :: "int \<Rightarrow> goerr + int" where
  "validityDuration seconds =
     (if seconds \<le> 0 then Inl (BadRequestError None ''validity_seconds must be a positive number'')
      else if seconds > maxValiditySeconds then Inl (BadRequestError None ''validity_seconds is too large'')
      else Inr (seconds * 10 ^ 9))"

fun strings_Cut :: "string \<Rightarrow> string \<times> string \<times> bool" where
  "strings_Cut (c # d # s) =
     (if c = CHR '':'' \<and> d = CHR '':'' then ('''', s, True)
      else let (a, b, ok) = strings_Cut (d # s) in (c # a, b, ok))"
| "strings_Cut s = (s, '''', False)"

definition validatePartyID :: "string \<Rightarrow> goerr + unit" where
  "validatePartyID partyID =
     (let (hint, fingerprint, ok) = strings_Cut partyID
      in if \<not> ok \<or> hint = '''' \<or> fingerprint = '''' then Inl (Err ''party id must be of the form <hint>::<fingerprint>'')
         else case hex_DecodeString fingerprint of
           Inl _ \<Rightarrow> Inl (Err ''party id fingerprint must be hex-encoded'')
         | Inr _ \<Rightarrow> Inr ())"

text \<open>The gRPC status codes the service tells apart.\<close>

definition InvalidArgument :: nat where "InvalidArgument = 3"
definition DeadlineExceeded_code :: nat where "DeadlineExceeded_code = 4"
definition NotFound :: nat where "NotFound = 5"
definition PermissionDenied :: nat where "PermissionDenied = 7"
definition FailedPrecondition :: nat where "FailedPrecondition = 9"
definition Aborted :: nat where "Aborted = 10"
definition Unavailable :: nat where "Unavailable = 14"

definition mapTransferErr :: "(goerr \<Rightarrow> nat option) \<Rightarrow> goerr \<Rightarrow> string \<Rightarrow> goerr" where
  "mapTransferErr FromError err0 op =
     (if errors_Is err0 ErrInsufficientBalance then BadRequestError (Some err0) ''insufficient balance''
      else
        let err = Errorf op err0
        in case FromError err of
             None \<Rightarrow> err
           | Some code \<Rightarrow>
               if code \<in> {InvalidArgument, NotFound, FailedPrecondition}
               then BadRequestError (Some err) ''transfer rejected by the ledger: verify the recipient party id and amount''
               else if code = Aborted
               then ConflictError (Some err) ''transfer conflicted with a concurrent operation, try again''
               else if code \<in> {Unavailable, DeadlineExceeded_code}
               then DependencyError (Some err) ''ledger temporarily unavailable, try again later''
               else err)"

definition mapWithdrawErr :: "(goerr \<Rightarrow> nat option) \<Rightarrow> goerr \<Rightarrow> goerr" where
  "mapWithdrawErr FromError err =
     (case FromError err of
        Some code \<Rightarrow>
          if code \<in> {NotFound, FailedPrecondition, Aborted, AlreadyExists}
          then ConflictError (Some err) ''offer is no longer claimable (it may have been accepted or already withdrawn)''
          else Errorf ''withdraw transfer'' err
      | None \<Rightarrow> Errorf ''withdraw transfer'' err)"

definition checkRecipientParty ::
  "TransferService \<Rightarrow> 'a transfer_db_scheme TransferEnv \<Rightarrow> string \<Rightarrow> string \<Rightarrow> ('a transfer_db_scheme, goerr + unit) state" where
  "checkRecipientParty s E tokenSymbol toPartyID = do {
     u \<leftarrow> GetUserByCantonPartyID toPartyID;
     case u of
       Inr _ \<Rightarrow> ret (Inr ())
     | Inl e \<Rightarrow>
         if \<not> errors_Is e ErrUserNotFound then ret (Inl (Errorf ''lookup recipient party'' e))
         else if \<not> ts_externalTokenSymbols s tokenSymbol then ret (Inl (BadRequestError None
           (''recipient party is not registered with this service and '' @ tokenSymbol @
            '' does not support transfers to external parties'')))
         else (case TE_PartyExists E of
           None \<Rightarrow> ret (Inl (DependencyError None ''could not verify recipient party id''))
         | Some PartyExists \<Rightarrow> do {
             known \<leftarrow> PartyExists toPartyID;
             (case known of
                Inl e \<Rightarrow> ret (Inl (DependencyError (Some e) ''could not verify recipient party id''))
              | Inr k \<Rightarrow> if \<not> k then ret (Inl (BadRequestError None ''recipient party id is not known on the network''))
                        else ret (Inr ())) }) }"

text \<open>The lookup of the caller, with the error the two kinds of endpoints give an unknown user.\<close>

definition lookup_user ::
  "(goerr option \<Rightarrow> string \<Rightarrow> goerr) \<Rightarrow> string \<Rightarrow> string \<Rightarrow> ('a api_db_scheme, goerr + User) state" where
  "lookup_user unknown label evmAddr = do {
     u \<leftarrow> GetUserByEVMAddress evmAddr;
     case u of
       Inl e \<Rightarrow> if errors_Is e ErrUserNotFound then ret (Inl (unknown (Some e) ''user not found''))
                else ret (Inl (Errorf label e))
     | Inr usr \<Rightarrow> ret (Inr usr) }"

text \<open>The end of the three prepare operations: the result is cached and described to the client.\<close>

definition cache_prepared :: "'w TransferEnv \<Rightarrow> PreparedTransfer \<Rightarrow> ('a transfer_db_scheme, goerr + PrepareResponse) state" where
  "cache_prepared E pt = do {
     p \<leftarrow> cache_Put pt;
     case p of
       Inl e \<Rightarrow> ret (Inl (GeneralError (Some (Errorf ''too many pending transfers'' e))))
     | Inr pt' \<Rightarrow> ret (Inr
         \<lparr>Rs_TransferID = PT_TransferID pt', Rs_TransactionHash = ''0x'' @ hex_EncodeToString (PT_TransactionHash pt'),
          Rs_PartyID = PT_PartyID pt', Rs_ExpiresAt = TE_RFC3339 E (PT_ExpiresAt pt')\<rparr>) }"

definition resolve_recipient :: "PrepareRequest \<Rightarrow> ('a api_db_scheme, goerr + string) state" where
  "resolve_recipient req =
     (if Rq_ToPartyID req = '''' then do {
        r \<leftarrow> GetUserByEVMAddress (Rq_To req);
        case r of
          Inl e \<Rightarrow> if errors_Is e ErrUserNotFound then ret (Inl (BadRequestError (Some e) ''recipient not found''))
                   else ret (Inl (Errorf ''lookup recipient'' e))
        | Inr recipient \<Rightarrow> ret (Inr (U_CantonPartyID recipient)) }
      else case validatePartyID (Rq_ToPartyID req) of
        Inl e \<Rightarrow> ret (Inl (BadRequestError (Some e) ''invalid recipient party id''))
      | Inr _ \<Rightarrow> ret (Inr (Rq_ToPartyID req)))"

definition Prepare ::
  "'d DecimalLib \<Rightarrow> TokenConfig \<Rightarrow> 'a transfer_db_scheme TokenLedger \<Rightarrow> TransferService \<Rightarrow> 'a transfer_db_scheme TransferEnv \<Rightarrow>
   string \<Rightarrow> PrepareRequest \<Rightarrow> ('a transfer_db_scheme, goerr + PrepareResponse) state" where
  "Prepare D cfg L s E senderEVMAddr req =
     (if \<not> ts_allowedTokenSymbols s (Rq_Token req) then ret (Inl (BadRequestError None ''unsupported token''))
      else case validityDuration (Rq_ValiditySeconds req) of
        Inl e \<Rightarrow> ret (Inl e)
      | Inr validity \<Rightarrow> do {
          u \<leftarrow> lookup_user UnAuthorizedError ''lookup sender'' senderEVMAddr;
          case u of
            Inl e \<Rightarrow> ret (Inl e)
          | Inr sender \<Rightarrow>
              if U_KeyMode sender \<noteq> KeyModeExternal
              then ret (Inl (BadRequestError None ''prepare/execute API requires key_mode=external''))
              else if (Rq_To req = '''') = (Rq_ToPartyID req = '''')
              then ret (Inl (BadRequestError None ''exactly one of to or to_party_id is required''))
              else do {
                p \<leftarrow> resolve_recipient req;
                case p of
                  Inl e \<Rightarrow> ret (Inl e)
                | Inr toPartyID \<Rightarrow>
                    if toPartyID = U_CantonPartyID sender then ret (Inl (BadRequestError None ''cannot transfer to self''))
                    else do {
                      c \<leftarrow> (if Rq_ToPartyID req \<noteq> '''' then checkRecipientParty s E (Rq_Token req) toPartyID else ret (Inr ()));
                      case c of
                        Inl e \<Rightarrow> ret (Inl e)
                      | Inr _ \<Rightarrow> do {
                          t \<leftarrow> PrepareTransfer D cfg L \<lparr>PR_FromPartyID = U_CantonPartyID sender, PR_ToPartyID = toPartyID,
                                 PR_Amount = Rq_Amount req, PR_TokenSymbol = Rq_Token req, PR_Validity = validity\<rparr>;
                          (case t of
                             Inl e \<Rightarrow> ret (Inl (mapTransferErr (TE_FromError E) e ''prepare transfer''))
                           | Inr pt \<Rightarrow> cache_prepared E pt) } } } })"

definition SendCustodial ::
  "'d DecimalLib \<Rightarrow> TokenConfig \<Rightarrow> 'a transfer_db_scheme TokenLedger \<Rightarrow> TransferService \<Rightarrow> 'a transfer_db_scheme TransferEnv \<Rightarrow>
   string \<Rightarrow> CustodialTransferRequest \<Rightarrow> ('a transfer_db_scheme, goerr + string) state" where
  "SendCustodial D cfg L s E senderEVMAddr req =
     (if \<not> ts_allowedTokenSymbols s (Cu_Token req) then ret (Inl (BadRequestError None ''unsupported token''))
      else case validityDuration (Cu_ValiditySeconds req) of
        Inl e \<Rightarrow> ret (Inl e)
      | Inr validity \<Rightarrow>
          (case validatePartyID (Cu_ToPartyID req) of
             Inl e \<Rightarrow> ret (Inl (BadRequestError (Some e) ''invalid recipient party id''))
           | Inr _ \<Rightarrow> do {
               u \<leftarrow> lookup_user UnAuthorizedError ''lookup sender'' senderEVMAddr;
               case u of
                 Inl e \<Rightarrow> ret (Inl e)
               | Inr sender \<Rightarrow>
                   if U_KeyMode sender \<noteq> KeyModeCustodial
                   then ret (Inl (BadRequestError None ''this endpoint requires key_mode=custodial''))
                   else if Cu_ToPartyID req = U_CantonPartyID sender
                   then ret (Inl (BadRequestError None ''cannot transfer to self''))
                   else do {
                     c \<leftarrow> checkRecipientParty s E (Cu_Token req) (Cu_ToPartyID req);
                     case c of
                       Inl e \<Rightarrow> ret (Inl e)
                     | Inr _ \<Rightarrow> do {
                         key \<leftarrow> TK_NewUUID L;
                         r \<leftarrow> TransferByPartyID D cfg L key (U_CantonPartyID sender) (Cu_ToPartyID req) (Cu_Amount req)
                                (Cu_Token req) validity;
                         (case r of
                            Inl e \<Rightarrow> ret (Inl (mapTransferErr (TE_FromError E) e ''transfer''))
                          | Inr _ \<Rightarrow> ret (Inr ''submitted'')) } } }))"

definition TrimPrefix0x :: "string \<Rightarrow> string" where
  "TrimPrefix0x s = (if HasPrefix s ''0x'' then drop 2 s else s)"

definition Execute ::
  "TokenConfig \<Rightarrow> 'a transfer_db_scheme TokenLedger \<Rightarrow> 'a transfer_db_scheme TransferEnv \<Rightarrow> string \<Rightarrow> ExecuteRequest
     \<Rightarrow> ('a transfer_db_scheme, goerr + string) state" where
  "Execute cfg L E senderEVMAddr req = do {
     u \<leftarrow> lookup_user UnAuthorizedError ''lookup sender'' senderEVMAddr;
     case u of
       Inl e \<Rightarrow> ret (Inl e)
     | Inr sender \<Rightarrow>
         if U_CantonPublicKeyFingerprint sender \<noteq> Er_SignedBy req
         then ret (Inl (ForbiddenError None ''signature fingerprint does not match registered key''))
         else do {
           p \<leftarrow> cache_GetAndDelete (Er_TransferID req);
           case p of
             Inl e \<Rightarrow>
               if errors_Is e ErrTransferNotFound then ret (Inl (ResourceNotFoundError (Some e) ''transfer not found''))
               else if errors_Is e ErrTransferExpired then ret (Inl (GoneError (Some e) ''transfer expired''))
               else ret (Inl (Errorf ''retrieve prepared transfer'' e))
           | Inr pt \<Rightarrow>
               (case hex_DecodeString (TrimPrefix0x (Er_Signature req)) of
                  Inl e \<Rightarrow> ret (Inl (BadRequestError (Some e) ''invalid DER signature''))
                | Inr sigBytes \<Rightarrow> do {
                    r \<leftarrow> ExecuteTransfer cfg L
                           \<lparr>XR_PreparedTransfer = Some pt, XR_Signature = sigBytes, XR_SignedBy = Er_SignedBy req\<rparr>;
                    (case r of
                       Inr _ \<Rightarrow> ret (Inr ''completed'')
                     | Inl e \<Rightarrow>
                         (case TE_FromError E e of
                            Some code \<Rightarrow>
                              if code \<in> {InvalidArgument, PermissionDenied}
                              then ret (Inl (ForbiddenError (Some e) ''signature verification failed''))
                              else ret (Inl (Errorf ''execute transfer'' e))
                          | None \<Rightarrow> ret (Inl (Errorf ''execute transfer'' e)))) }) } }"

definition ExecuteAccept ::
  "TokenConfig \<Rightarrow> 'a transfer_db_scheme TokenLedger \<Rightarrow> 'a transfer_db_scheme TransferEnv \<Rightarrow> string \<Rightarrow> ExecuteRequest
     \<Rightarrow> ('a transfer_db_scheme, goerr + string) state" where
  "ExecuteAccept cfg L E evmAddr req = Execute cfg L E evmAddr req"

section \<open>Listings\<close>

text \<open>The ellipsis of the source is one character of three bytes.\<close>

definition truncatePartyID :: "string \<Rightarrow> string" where
  "truncatePartyID partyID =
     (if length partyID \<le> 8 + 8 + 1 then partyID
      else take 8 partyID @ [CHR 0xE2, CHR 0x80, CHR 0xA6] @ drop (length partyID - 8) partyID)"

text \<open>The common fields, with the token metadata when the instrument is configured.\<close>

definition incoming_item :: "TransferService \<Rightarrow> IxTransfer \<Rightarrow> IncomingTransfer" where
  "incoming_item s o' =
     (let m = ts_tokensByInstrument s (X_InstrumentID o')
      in \<lparr>Li_ContractID = X_ContractID o', Li_FromPartyID = truncatePartyID (X_FromPartyID o'),
          Li_ToPartyID = truncatePartyID (X_ToPartyID o'), Li_Amount = X_Amount o',
          Li_InstrumentAdmin = X_InstrumentAdmin o', Li_InstrumentID = X_InstrumentID o',
          Li_Symbol = (case m of None \<Rightarrow> '''' | Some x \<Rightarrow> im_symbol x),
          Li_Decimals = (case m of None \<Rightarrow> 0 | Some x \<Rightarrow> im_decimals x),
          Li_Name = (case m of None \<Rightarrow> '''' | Some x \<Rightarrow> im_name x),
          Li_ContractAddress = (case m of None \<Rightarrow> '''' | Some x \<Rightarrow> im_contractAddress x)\<rparr>)"

definition outgoing_item :: "TransferService \<Rightarrow> (time \<Rightarrow> string) \<Rightarrow> IxTransfer \<Rightarrow> OutgoingTransfer" where
  "outgoing_item s fmt o' = IncomingTransfer.extend (incoming_item s o')
     (OutgoingTransfer.fields (X_Status o') (fmt (X_CreatedAt o')) (case X_ExpiresAt o' of None \<Rightarrow> '''' | Some t \<Rightarrow> fmt t))"

definition completed_item :: "TransferService \<Rightarrow> (time \<Rightarrow> string) \<Rightarrow> IxTransfer \<Rightarrow> CompletedTransfer" where
  "completed_item s fmt t = IncomingTransfer.extend (incoming_item s t)
     (CompletedTransfer.fields (X_Kind t) (X_Status t) (fmt (X_CreatedAt t)) (X_TxID t))"

definition transfers_list :: "Pagination \<Rightarrow> IxTransfer Page \<Rightarrow> 'i list \<Rightarrow> 'i TransfersList" where
  "transfers_list p result items =
     \<lparr>Ls_Items = items, Ls_Total = Pg_Total result, Ls_Page = P_Page p, Ls_Limit = P_Limit p,
      Ls_HasMore = (P_Page p * P_Limit p < Pg_Total result)\<rparr>"

definition ListIncoming ::
  "TransferService \<Rightarrow> 'a api_db_scheme TransferEnv \<Rightarrow> string \<Rightarrow> Pagination
     \<Rightarrow> ('a api_db_scheme, goerr + IncomingTransfer TransfersList) state" where
  "ListIncoming s E evmAddr p = do {
     r \<leftarrow> lookup_user BadRequestError ''lookup user'' evmAddr;
     case r of
       Inl e \<Rightarrow> ret (Inl e)
     | Inr u \<Rightarrow>
         if U_KeyMode u \<noteq> KeyModeExternal
         then ret (Inl (BadRequestError None ''incoming transfer API requires key_mode=external''))
         else do {
           g \<leftarrow> TE_GetTransfers E (U_CantonPartyID u) \<lparr>Q_Role = TransferRoleReceiver, Q_Status = StatusPending\<rparr> p;
           (case g of
              Inl e \<Rightarrow> ret (Inl (Errorf ''list pending transfers'' e))
            | Inr result \<Rightarrow> ret (Inr (transfers_list p result
                (map (incoming_item s) (filter (\<lambda>o'. X_Status o' = StatusPending) (Pg_Items result)))))) } }"

definition ListOutgoing ::
  "TransferService \<Rightarrow> 'a api_db_scheme TransferEnv \<Rightarrow> string \<Rightarrow> string \<Rightarrow> Pagination
     \<Rightarrow> ('a api_db_scheme, goerr + OutgoingTransfer TransfersList) state" where
  "ListOutgoing s E evmAddr status p = do {
     r \<leftarrow> lookup_user BadRequestError ''lookup user'' evmAddr;
     case r of
       Inl e \<Rightarrow> ret (Inl e)
     | Inr u \<Rightarrow> do {
         g \<leftarrow> TE_GetTransfers E (U_CantonPartyID u) \<lparr>Q_Role = TransferRoleSender, Q_Status = status\<rparr> p;
         (case g of
            Inl e \<Rightarrow> ret (Inl (Errorf ''list outgoing transfers'' e))
          | Inr result \<Rightarrow> ret (Inr (transfers_list p result (map (outgoing_item s (TE_RFC3339 E)) (Pg_Items result))))) } }"

definition ListCompleted ::
  "TransferService \<Rightarrow> 'a api_db_scheme TransferEnv \<Rightarrow> string \<Rightarrow> Pagination
     \<Rightarrow> ('a api_db_scheme, goerr + CompletedTransfer TransfersList) state" where
  "ListCompleted s E evmAddr p = do {
     r \<leftarrow> lookup_user BadRequestError ''lookup user'' evmAddr;
     case r of
       Inl e \<Rightarrow> ret (Inl e)
     | Inr u \<Rightarrow> do {
         g \<leftarrow> TE_GetTransfers E (U_CantonPartyID u) \<lparr>Q_Role = TransferRoleAny, Q_Status = StatusCompleted\<rparr> p;
         (case g of
            Inl e \<Rightarrow> ret (Inl (Errorf ''list completed transfers'' e))
          | Inr result \<Rightarrow> ret (Inr (transfers_list p result (map (completed_item s (TE_RFC3339 E)) (Pg_Items result))))) } }"

section \<open>Accepting and claiming back\<close>

definition PrepareAccept ::
  "TokenConfig \<Rightarrow> 'a transfer_db_scheme TokenLedger \<Rightarrow> 'a transfer_db_scheme TransferEnv \<Rightarrow> string \<Rightarrow> string \<Rightarrow> string
     \<Rightarrow> ('a transfer_db_scheme, goerr + PrepareResponse) state" where
  "PrepareAccept cfg L E evmAddr contractID admin = do {
     r \<leftarrow> lookup_user UnAuthorizedError ''lookup user'' evmAddr;
     case r of
       Inl e \<Rightarrow> ret (Inl e)
     | Inr u \<Rightarrow>
         if U_KeyMode u \<noteq> KeyModeExternal
         then ret (Inl (BadRequestError None ''incoming transfer API requires key_mode=external''))
         else do {
           t \<leftarrow> PrepareAcceptTransfer cfg L (U_CantonPartyID u) contractID admin;
           (case t of
              Inl e \<Rightarrow> ret (Inl (Errorf ''prepare accept'' e))
            | Inr pt \<Rightarrow> cache_prepared E pt) } }"

definition claimableTransfer :: "'w TransferEnv \<Rightarrow> string \<Rightarrow> string \<Rightarrow> ('w, goerr + IxTransfer) state" where
  "claimableTransfer E callerParty contractID = do {
     r \<leftarrow> TE_GetTransfer E contractID;
     case r of
       Inl e \<Rightarrow> ret (Inl e)
     | Inr None \<Rightarrow> ret (Inl (ResourceNotFoundError None ''no claimable offer found for this contract id''))
     | Inr (Some t) \<Rightarrow>
         if X_FromPartyID t \<noteq> callerParty
         then ret (Inl (ResourceNotFoundError None ''no claimable offer found for this contract id''))
         else if X_Kind t \<noteq> TransferKindOffer
         then ret (Inl (BadRequestError None ''only offer-based transfers can be claimed back''))
         else if X_Status t = StatusCompleted
         then ret (Inl (BadRequestError None ''transfer already completed; nothing to claim back''))
         else if X_Status t = StatusCanceled
         then ret (Inl (BadRequestError None ''transfer already canceled; nothing to claim back''))
         else if X_Status t = StatusRejected
         then ret (Inl (BadRequestError None ''transfer was rejected by the receiver; nothing to claim back''))
         else ret (Inr t) }"

definition PrepareWithdraw ::
  "TokenConfig \<Rightarrow> 'a transfer_db_scheme TokenLedger \<Rightarrow> 'a transfer_db_scheme TransferEnv \<Rightarrow> string \<Rightarrow> string
     \<Rightarrow> ('a transfer_db_scheme, goerr + PrepareResponse) state" where
  "PrepareWithdraw cfg L E evmAddr contractID = do {
     r \<leftarrow> lookup_user UnAuthorizedError ''lookup user'' evmAddr;
     case r of
       Inl e \<Rightarrow> ret (Inl e)
     | Inr u \<Rightarrow>
         if U_KeyMode u \<noteq> KeyModeExternal
         then ret (Inl (BadRequestError None ''withdraw prepare/execute API requires key_mode=external''))
         else do {
           o' \<leftarrow> claimableTransfer E (U_CantonPartyID u) contractID;
           case o' of
             Inl e \<Rightarrow> ret (Inl e)
           | Inr offer \<Rightarrow> do {
               t \<leftarrow> PrepareWithdrawTransfer cfg L (U_CantonPartyID u) contractID (X_InstrumentAdmin offer);
               (case t of
                  Inl e \<Rightarrow> ret (Inl (mapWithdrawErr (TE_FromError E) e))
                | Inr pt \<Rightarrow> cache_prepared E pt) } } }"

definition WithdrawCustodial ::
  "TokenConfig \<Rightarrow> 'a api_db_scheme TokenLedger \<Rightarrow> 'a api_db_scheme TransferEnv \<Rightarrow> string \<Rightarrow> string
     \<Rightarrow> ('a api_db_scheme, goerr + string) state" where
  "WithdrawCustodial cfg L E evmAddr contractID = do {
     r \<leftarrow> lookup_user UnAuthorizedError ''lookup user'' evmAddr;
     case r of
       Inl e \<Rightarrow> ret (Inl e)
     | Inr u \<Rightarrow>
         if U_KeyMode u \<noteq> KeyModeCustodial
         then ret (Inl (BadRequestError None ''this endpoint requires key_mode=custodial''))
         else do {
           o' \<leftarrow> claimableTransfer E (U_CantonPartyID u) contractID;
           case o' of
             Inl e \<Rightarrow> ret (Inl e)
           | Inr offer \<Rightarrow> do {
               w \<leftarrow> WithdrawTransferInstruction cfg L (U_CantonPartyID u) contractID (X_InstrumentAdmin offer);
               (case w of
                  Inl e \<Rightarrow> ret (Inl (mapWithdrawErr (TE_FromError E) e))
                | Inr _ \<Rightarrow> ret (Inr ''submitted'')) } } }"

end
