(* ===== verification/Transfer_Safety.thy ===== *)
theory Transfer_Safety
  imports Transfer_Service
begin

text \<open>
  What the transfer service guarantees about prepared transfers: the cache stays within its bound, an
  entry comes out at most once and not after its expiry, and so a prepared transfer is executed at
  most once, whatever else the service does in between.
\<close>

section \<open>Durations\<close>

text \<open>The product of an accepted validity fits a signed 64-bit integer.\<close>

lemma validity_fits: "validityDuration n = Inr d \<Longrightarrow> d = n * 10 ^ 9 \<and> 0 < d \<and> d < 2 ^ 63"
  by (auto simp: validityDuration_def maxValiditySeconds_def split: if_splits)

section \<open>The cache\<close>

abbreviation cached :: "'a transfer_db_scheme \<Rightarrow> string \<Rightarrow> PreparedTransfer option" where
  "cached w \<equiv> map_of (pc_entries w)"

abbreviation cache_ids :: "'a transfer_db_scheme \<Rightarrow> string set" where
  "cache_ids w \<equiv> fst ` set (pc_entries w)"

definition cache_ok :: "'a transfer_db_scheme \<Rightarrow> bool" where
  "cache_ok w \<longleftrightarrow> distinct (map fst (pc_entries w)) \<and> (0 < pc_maxSize w \<longrightarrow> int (length (pc_entries w)) \<le> pc_maxSize w)"

lemma put_cases:
  assumes "run_state (cache_Put t) w = (r, w')"
  obtains (full) "pc_maxSize w > 0" "int (length (pc_entries w)) \<ge> pc_maxSize w" "r = Inl ErrCacheFull" "w' = w"
  | (stored) t' where "\<not> (pc_maxSize w > 0 \<and> int (length (pc_entries w)) \<ge> pc_maxSize w)" "t' = t\<lparr>PT_ExpiresAt := pg_now w + pc_ttl w\<rparr>"
      "r = Inr t'" "w' = w\<lparr>pc_entries := AList.update (PT_TransferID t) t' (pc_entries w)\<rparr>"
proof (cases "pc_maxSize w > 0 \<and> int (length (pc_entries w)) \<ge> pc_maxSize w")
  case True
  with assms have "r = Inl ErrCacheFull" "w' = w" by (auto simp: cache_Put_def)
  with True full show thesis by blast
next
  case False
  let ?t = "t\<lparr>PT_ExpiresAt := pg_now w + pc_ttl w\<rparr>"
  from False assms have "r = Inr ?t" "w' = w\<lparr>pc_entries := AList.update (PT_TransferID t) ?t (pc_entries w)\<rparr>"
    by (auto simp: cache_Put_def Let_def)
  with False stored show thesis by blast
qed

lemma length_update_le: "length (AList.update k v xs) \<le> Suc (length xs)"
  by (induction xs) auto

lemma update_ids: "fst ` set (AList.update k v xs) = insert k (fst ` set xs)"
  by (simp add: dom_update)

lemma delete_ids: "fst ` set (AList.delete k xs) = fst ` set xs - {k}"
  by (auto simp: AList.delete_eq image_iff)

lemma put_ok:
  assumes "run_state (cache_Put t) w = (r, w')" "cache_ok w"
  shows "cache_ok w'"
  using assms(1)
proof (cases rule: put_cases)
  case full
  with assms(2) show ?thesis by simp
next
  case (stored t')
  with assms(2) length_update_le[of "PT_TransferID t" t' "pc_entries w"] show ?thesis
    by (auto simp: cache_ok_def distinct_update)
qed

lemma get_cases:
  assumes "run_state (cache_GetAndDelete k) w = (r, w')"
  obtains (absent) "cached w k = None" "r = Inl ErrTransferNotFound" "w' = w"
  | (expired) pt where "cached w k = Some pt" "PT_ExpiresAt pt < pg_now w" "r = Inl ErrTransferExpired"
      "w' = w\<lparr>pc_entries := AList.delete k (pc_entries w)\<rparr>"
  | (found) pt where "cached w k = Some pt" "pg_now w \<le> PT_ExpiresAt pt" "r = Inr pt"
      "w' = w\<lparr>pc_entries := AList.delete k (pc_entries w)\<rparr>"
proof (cases "cached w k")
  case None
  with assms have "r = Inl ErrTransferNotFound" "w' = w" by (auto simp: cache_GetAndDelete_def)
  with None absent show thesis by blast
next
  case (Some pt)
  with assms have w': "w' = w\<lparr>pc_entries := AList.delete k (pc_entries w)\<rparr>" and
    r: "r = (if pg_now w > PT_ExpiresAt pt then Inl ErrTransferExpired else Inr pt)"
    by (auto simp: cache_GetAndDelete_def)
  show thesis
  proof (cases "pg_now w > PT_ExpiresAt pt")
    case True
    with r have "r = Inl ErrTransferExpired" by simp
    from expired[OF Some True this w'] show thesis .
  next
    case False
    with r have "r = Inr pt" "pg_now w \<le> PT_ExpiresAt pt" by simp_all
    from found[OF Some this(2,1) w'] show thesis .
  qed
qed

lemma get_ok:
  assumes "run_state (cache_GetAndDelete k) w = (r, w')" "cache_ok w"
  shows "cache_ok w'"
proof -
  have "length (AList.delete k (pc_entries w)) \<le> length (pc_entries w)"
    by (simp add: AList.delete_eq)
  with assms(2) have "cache_ok (w\<lparr>pc_entries := AList.delete k (pc_entries w)\<rparr>)"
    by (auto simp: cache_ok_def distinct_delete)
  with assms(2) show ?thesis using assms(1) by (auto elim!: get_cases)
qed

section \<open>What every operation does to the cache\<close>

text \<open>
  \<open>issued w\<close> stands for the ids generated so far.  Outside the cache operations the entries stay and
  ids are only added; the service as a whole adds no entry but under a new id.
\<close>

definition keeps :: "('a transfer_db_scheme \<Rightarrow> string set) \<Rightarrow> 'a transfer_db_scheme \<Rightarrow> 'a transfer_db_scheme \<Rightarrow> bool" where
  "keeps issued w w' \<longleftrightarrow> pc_entries w' = pc_entries w \<and> pc_maxSize w' = pc_maxSize w \<and> issued w \<subseteq> issued w'"

definition grows :: "('a transfer_db_scheme \<Rightarrow> string set) \<Rightarrow> 'a transfer_db_scheme \<Rightarrow> 'a transfer_db_scheme \<Rightarrow> bool" where
  "grows issued w w' \<longleftrightarrow> issued w \<subseteq> issued w' \<and> cache_ids w' \<subseteq> cache_ids w \<union> (issued w' - issued w) \<and>
     pc_maxSize w' = pc_maxSize w \<and> (cache_ok w \<longrightarrow> cache_ok w')"

lemma keeps_grows: "keeps issued w w' \<Longrightarrow> grows issued w w'"
  by (auto simp: keeps_def grows_def cache_ok_def)

lemma fresh_trans:
  "I \<subseteq> I' \<Longrightarrow> I' \<subseteq> I'' \<Longrightarrow> C' \<subseteq> C \<union> (I' - I) \<Longrightarrow> C'' \<subseteq> C' \<union> (I'' - I') \<Longrightarrow> C'' \<subseteq> C \<union> (I'' - I)"
  by blast

interpretation growing: preorder_rel "grows issued" for issued :: "'a transfer_db_scheme \<Rightarrow> string set"
proof
  show "grows issued w w" for w by (simp add: grows_def)
  show "grows issued u v \<Longrightarrow> grows issued v w \<Longrightarrow> grows issued u w" for u v w
    using fresh_trans[of "issued u" "issued v" "issued w" "cache_ids v" "cache_ids u" "cache_ids w"]
    subset_trans[of "issued u" "issued v" "issued w"]
    unfolding grows_def by simp
qed

text \<open>
  The operations of the service in any order and with any arguments, the periodic cleanup, and
  anything else in the process or in the database that leaves the cache alone.
\<close>

inductive transfer_step ::
  "'d DecimalLib \<Rightarrow> TokenConfig \<Rightarrow> 'a transfer_db_scheme TokenLedger \<Rightarrow> TransferService \<Rightarrow> 'a transfer_db_scheme TransferEnv \<Rightarrow>
   ('a transfer_db_scheme \<Rightarrow> string set) \<Rightarrow> 'a transfer_db_scheme \<Rightarrow> 'a transfer_db_scheme \<Rightarrow> bool"
  for D cfg L s E issued where
  step_prepare: "run_state (Prepare D cfg L s E a req) w = (r, w') \<Longrightarrow> transfer_step D cfg L s E issued w w'"
| step_send: "run_state (SendCustodial D cfg L s E a creq) w = (r', w') \<Longrightarrow> transfer_step D cfg L s E issued w w'"
| step_execute: "run_state (Execute cfg L E a ereq) w = (r', w') \<Longrightarrow> transfer_step D cfg L s E issued w w'"
| step_incoming: "run_state (ListIncoming s E a p) w = (li, w') \<Longrightarrow> transfer_step D cfg L s E issued w w'"
| step_outgoing: "run_state (ListOutgoing s E a st p) w = (lo, w') \<Longrightarrow> transfer_step D cfg L s E issued w w'"
| step_completed: "run_state (ListCompleted s E a p) w = (lc, w') \<Longrightarrow> transfer_step D cfg L s E issued w w'"
| step_accept: "run_state (PrepareAccept cfg L E a cid admin) w = (r, w') \<Longrightarrow> transfer_step D cfg L s E issued w w'"
| step_execute_accept: "run_state (ExecuteAccept cfg L E a ereq) w = (r', w') \<Longrightarrow> transfer_step D cfg L s E issued w w'"
| step_withdraw: "run_state (PrepareWithdraw cfg L E a cid) w = (r, w') \<Longrightarrow> transfer_step D cfg L s E issued w w'"
| step_claim: "run_state (WithdrawCustodial cfg L E a cid) w = (r', w') \<Longrightarrow> transfer_step D cfg L s E issued w w'"
| step_cleanup: "run_state cache_cleanup w = (u, w') \<Longrightarrow> transfer_step D cfg L s E issued w w'"
| step_elsewhere: "keeps issued w w' \<Longrightarrow> transfer_step D cfg L s E issued w w'"

text \<open>A lookup of a user only uses up the fault schedule.\<close>

definition only_faults :: "'a transfer_db_scheme \<Rightarrow> 'a transfer_db_scheme \<Rightarrow> bool" where
  "only_faults w w' \<longleftrightarrow> w' = w\<lparr>pg_faults := pg_faults w'\<rparr>"

interpretation lookups: preorder_rel only_faults
proof
  show "only_faults w w" for w :: "'a transfer_db_scheme" by (simp add: only_faults_def)
  show "only_faults u v \<Longrightarrow> only_faults v w \<Longrightarrow> only_faults u w" for u v w :: "'a transfer_db_scheme"
    unfolding only_faults_def by (metis pg.fold_congs(2) pg.surjective pg.update_convs(2))
qed

lemma lookup_only: "stays (only_faults :: 'a transfer_db_scheme \<Rightarrow> _) (lookup_user unknown label a)"
proof -
  have query: "stays (only_faults :: 'a transfer_db_scheme \<Rightarrow> _) (query what g)" for what and g :: "_ \<Rightarrow> 'b"
    by (auto simp: stays_def only_faults_def query_def pg_exec_def split: list.splits fault.splits)
  show ?thesis
    unfolding lookup_user_def GetUserByEVMAddress_def getUserBy_def
    by (auto intro!: lookups.stays_intros query split: sum.splits option.splits)
qed

text \<open>
  What the service relies on: the calls to the ledger, to the indexer and to the party registry leave
  the cache alone, and a generated id was not generated before.
\<close>

locale prepared_flow = token_frame "keeps issued" L
  for issued :: "'a transfer_db_scheme \<Rightarrow> string set" and L :: "'a transfer_db_scheme TokenLedger" +
  fixes E :: "'a transfer_db_scheme TransferEnv"
  assumes env_transfer: "stays (keeps issued) (TE_GetTransfer E cid)"
    and env_transfers: "stays (keeps issued) (TE_GetTransfers E p q pg)"
    and env_party: "TE_PartyExists E = Some f \<Longrightarrow> stays (keeps issued) (f p)"
    and uuid_fresh: "run_state (TK_NewUUID L) w = (u, w') \<Longrightarrow> u \<notin> issued w \<and> u \<in> issued w'"
    and issued_cache: "issued (w\<lparr>pc_entries := es\<rparr>) = issued w"
    and issued_faults: "issued (w\<lparr>pg_faults := fs\<rparr>) = issued w"
begin

lemma growsI: "stays (keeps issued) m \<Longrightarrow> stays (grows issued) m"
  by (auto simp: stays_def intro: keeps_grows)

lemma keeps_query: "stays (keeps issued) (query what g)"
  by (auto simp: stays_def keeps_def query_def pg_exec_def issued_faults split: list.splits fault.splits)

lemma keeps_user: "stays (keeps issued) (getUserBy P)"
  unfolding getUserBy_def by (auto intro!: stays_intros keeps_query split: sum.splits option.splits)

lemma keeps_lookup: "stays (keeps issued) (lookup_user unknown label a)"
  unfolding lookup_user_def GetUserByEVMAddress_def by (auto intro!: stays_intros keeps_user split: sum.splits)

lemma keeps_recipient: "stays (keeps issued) (checkRecipientParty s E t p)"
  unfolding checkRecipientParty_def GetUserByCantonPartyID_def
  by (auto intro!: stays_intros keeps_user env_party split: sum.splits option.splits)

lemma keeps_resolve: "stays (keeps issued) (resolve_recipient req)"
  unfolding resolve_recipient_def GetUserByEVMAddress_def by (auto intro!: stays_intros keeps_user split: sum.splits)

lemma keeps_claimable: "stays (keeps issued) (claimableTransfer E p cid)"
  unfolding claimableTransfer_def by (auto intro!: stays_intros env_transfer split: sum.splits option.splits)

text \<open>The id of a prepared transfer is new.\<close>

definition prepares :: "('a transfer_db_scheme, goerr + PreparedTransfer) state \<Rightarrow> bool" where
  "prepares m \<longleftrightarrow> stays (keeps issued) m \<and>
     (\<forall>w pt w'. run_state m w = (Inr pt, w') \<longrightarrow> PT_TransferID pt \<in> issued w' - issued w)"

lemma prepares_fail: "prepares (ret (Inl e))"
  by (simp add: prepares_def stays_ret)

lemma prepares_bind:
  assumes "stays (keeps issued) m" "\<And>x. prepares (f x)"
  shows "prepares (State_Monad.bind m f)"
  unfolding prepares_def
proof (intro conjI allI impI)
  show "stays (keeps issued) (State_Monad.bind m f)"
    using assms by (auto simp: prepares_def intro: stays_bind)
  fix w pt w' assume run: "run_state (State_Monad.bind m f) w = (Inr pt, w')"
  obtain x w1 where x: "run_state m w = (x, w1)" by (rule run_obtain)
  with run have "run_state (f x) w1 = (Inr pt, w')" by simp
  with assms(2)[of x] have "PT_TransferID pt \<in> issued w' - issued w1" by (auto simp: prepares_def)
  moreover have "issued w \<subseteq> issued w1" using staysD[OF assms(1) x] by (simp add: keeps_def)
  ultimately show "PT_TransferID pt \<in> issued w' - issued w" by blast
qed

lemma prepares_id:
  assumes "\<And>u. stays (keeps issued) (f u)" "\<And>u w pt w'. run_state (f u) w = (Inr pt, w') \<Longrightarrow> PT_TransferID pt = u"
  shows "prepares (State_Monad.bind (TK_NewUUID L) f)"
  unfolding prepares_def
proof (intro conjI allI impI)
  show "stays (keeps issued) (State_Monad.bind (TK_NewUUID L) f)" by (intro stays_bind frame_uuid assms(1))
  fix w pt w' assume run: "run_state (State_Monad.bind (TK_NewUUID L) f) w = (Inr pt, w')"
  obtain u w1 where u: "run_state (TK_NewUUID L) w = (u, w1)" by (rule run_obtain)
  with run have f: "run_state (f u) w1 = (Inr pt, w')" by simp
  then have "issued w1 \<subseteq> issued w'" using staysD[OF assms(1)] by (auto simp: keeps_def)
  with uuid_fresh[OF u] assms(2)[OF f] show "PT_TransferID pt \<in> issued w' - issued w" by auto
qed

lemma prepares_last: "prepares (do { uuid \<leftarrow> TK_NewUUID L; ret (Inr (prepared_transfer uuid prep p t)) })"
  by (rule prepares_id) (auto simp: prepared_transfer_def intro: stays_ret)

lemma prepares_last_now:
  "prepares (do { uuid \<leftarrow> TK_NewUUID L; now \<leftarrow> TK_Now L; ret (Inr (prepared_transfer uuid prep p (now + ttl))) })"
  by (rule prepares_id) (auto simp: prepared_transfer_def split: prod.splits intro!: stays_intros frame_now)

lemma prepares_PrepareTransfer: "prepares (PrepareTransfer D cfg L req)"
  unfolding PrepareTransfer_def
  by (auto intro!: prepares_fail prepares_last prepares_bind[OF frame_holdings] prepares_bind[OF frame_resolve]
      prepares_bind[OF frame_now] prepares_bind[OF frame_uuid] prepares_bind[OF frame_prepare] split: sum.splits)

lemma prepares_instruction: "prepares (prepareInstructionTx cfg L p cmd d)"
  unfolding prepareInstructionTx_def
  by (auto intro!: prepares_fail prepares_last_now prepares_bind[OF frame_uuid] prepares_bind[OF frame_prepare] split: sum.splits)

lemma prepares_PrepareAccept: "prepares (PrepareAcceptTransfer cfg L p cid admin)"
  and prepares_PrepareWithdraw: "prepares (PrepareWithdrawTransfer cfg L p cid admin)"
  unfolding PrepareAcceptTransfer_def PrepareWithdrawTransfer_def
  by (auto intro!: prepares_fail prepares_instruction prepares_bind[OF frame_instruction] split: sum.splits prod.splits)

lemma grows_put:
  assumes "run_state (cache_prepared E t) w = (r, w')" "PT_TransferID t \<in> issued w - I"
  shows "issued w' = issued w" "cache_ids w' \<subseteq> cache_ids w \<union> (issued w' - I)" "pc_maxSize w' = pc_maxSize w" "cache_ok w \<longrightarrow> cache_ok w'"
proof -
  obtain q w1 where q: "run_state (cache_Put t) w = (q, w1)" by (rule run_obtain)
  with assms(1) have [simp]: "w1 = w'" by (auto simp: cache_prepared_def split: sum.splits)
  show "cache_ok w \<longrightarrow> cache_ok w'" using put_ok[OF q] by simp
  have "issued w' = issued w \<and> cache_ids w' \<subseteq> insert (PT_TransferID t) (cache_ids w) \<and> pc_maxSize w' = pc_maxSize w"
    using q by (cases rule: put_cases) (simp_all add: issued_cache update_ids subset_insertI)
  then show "issued w' = issued w" "cache_ids w' \<subseteq> cache_ids w \<union> (issued w' - I)" "pc_maxSize w' = pc_maxSize w"
    using assms(2) subset_trans[of "cache_ids w'" "insert (PT_TransferID t) (cache_ids w)" "cache_ids w \<union> (issued w' - I)"] by simp_all
qed

lemma grows_prepared:
  assumes "prepares m" "\<And>e. stays (grows issued) (f e)"
  shows "stays (grows issued) (do { t \<leftarrow> m; case t of Inl e \<Rightarrow> f e | Inr pt \<Rightarrow> cache_prepared E pt })"
  unfolding stays_def
proof (intro allI impI)
  fix w r w' assume run: "run_state (do { t \<leftarrow> m; case t of Inl e \<Rightarrow> f e | Inr pt \<Rightarrow> cache_prepared E pt }) w = (r, w')"
  obtain t w1 where t: "run_state m w = (t, w1)" by (rule run_obtain)
  with assms(1) have k: "keeps issued w w1" by (auto simp: prepares_def dest: staysD)
  show "grows issued w w'"
  proof (cases t)
    case (Inl e)
    with run t have "run_state (f e) w1 = (r, w')" by simp
    with staysD[OF assms(2)] have "grows issued w1 w'" .
    with keeps_grows[OF k] show ?thesis by (rule growing.R_trans)
  next
    case (Inr pt)
    with run t have put: "run_state (cache_prepared E pt) w1 = (r, w')" by simp
    from Inr t assms(1) have "PT_TransferID pt \<in> issued w1 - issued w" by (auto simp: prepares_def)
    from grows_put[OF put this] k show ?thesis by (simp add: keeps_def grows_def cache_ok_def)
  qed
qed

lemmas keeps_parts = keeps_lookup keeps_recipient keeps_resolve keeps_claimable
lemmas grows_intros = growing.stays_intros grows_prepared prepares_PrepareTransfer prepares_PrepareAccept prepares_PrepareWithdraw
  keeps_parts[THEN growsI]

lemma grows_Prepare: "stays (grows issued) (Prepare D cfg L s E a req)"
  unfolding Prepare_def by (auto intro!: grows_intros split: sum.splits)

lemma grows_PrepareAccept: "stays (grows issued) (PrepareAccept cfg L E a cid admin)"
  unfolding PrepareAccept_def by (auto intro!: grows_intros split: sum.splits)

lemma grows_PrepareWithdraw: "stays (grows issued) (PrepareWithdraw cfg L E a cid)"
  unfolding PrepareWithdraw_def by (auto intro!: grows_intros split: sum.splits)

lemma keeps_SendCustodial: "stays (keeps issued) (SendCustodial D cfg L s E a creq)"
  unfolding SendCustodial_def by (auto intro!: stays_intros keeps_parts frame_uuid frame_by_party split: sum.splits)

lemma keeps_WithdrawCustodial: "stays (keeps issued) (WithdrawCustodial cfg L E a cid)"
  unfolding WithdrawCustodial_def by (auto intro!: stays_intros keeps_parts frame_Withdraw split: sum.splits)

lemma keeps_lists: "stays (keeps issued) (ListIncoming s E a p)" "stays (keeps issued) (ListOutgoing s E a st p)"
  "stays (keeps issued) (ListCompleted s E a p)"
  unfolding ListIncoming_def ListOutgoing_def ListCompleted_def
  by (auto intro!: stays_intros keeps_lookup env_transfers split: sum.splits)

lemma grows_cleanup: "stays (grows issued) cache_cleanup"
  unfolding stays_def
proof (intro allI impI)
  fix w r w' assume "run_state (cache_cleanup :: ('a transfer_db_scheme, unit) state) w = (r, w')"
  then have w': "w' = w\<lparr>pc_entries := filter (\<lambda>e. \<not> pg_now w > PT_ExpiresAt (snd e)) (pc_entries w)\<rparr>"
    by (simp add: cache_cleanup_def)
  have "cache_ok w \<longrightarrow> cache_ok w'"
    unfolding w' cache_ok_def
    by (auto simp: distinct_map inj_on_def intro: order_trans[OF of_nat_mono[OF length_filter_le]])
  then show "grows issued w w'" by (auto simp: grows_def w' issued_cache)
qed

text \<open>An attempt to execute is turned away, or it takes the prepared transfer out of the cache.\<close>

lemma taken_grows:
  assumes get: "run_state (cache_GetAndDelete x) w1 = (p, w2)" "w2 = w1\<lparr>pc_entries := AList.delete x (pc_entries w1)\<rparr>"
    and w1: "w1 = w\<lparr>pg_faults := fs\<rparr>" and k: "keeps issued w2 w'"
  shows "x \<notin> cache_ids w' \<and> grows issued w w'"
  using get_ok[OF get(1)] k by (auto simp: keeps_def grows_def get(2) w1 issued_cache issued_faults delete_ids cache_ok_def)

lemma Execute_cases:
  assumes "run_state (Execute cfg L E a req) w = (r, w')"
  obtains (turned_away) e fs where "r = Inl e" "w' = w\<lparr>pg_faults := fs\<rparr>"
  | (taken) pt where "cached w (Er_TransferID req) = Some pt" "Er_TransferID req \<notin> cache_ids w' \<and> grows issued w w'"
      "\<And>s. r = Inr s \<Longrightarrow> pg_now w \<le> PT_ExpiresAt pt"
proof -
  let ?x = "Er_TransferID req"
  obtain u w1 where u: "run_state (lookup_user UnAuthorizedError ''lookup sender'' a) w = (u, w1)" by (rule run_obtain)
  define fs where "fs = pg_faults w1"
  have w1: "w1 = w\<lparr>pg_faults := fs\<rparr>" using staysD[OF lookup_only u] by (simp add: only_faults_def fs_def)
  consider e where "u = Inl e" | sender where "u = Inr sender" "U_CantonPublicKeyFingerprint sender \<noteq> Er_SignedBy req"
    | sender where "u = Inr sender" "U_CantonPublicKeyFingerprint sender = Er_SignedBy req"
    by (cases u) auto
  then show thesis
  proof cases
    case 1
    with assms u have "r = Inl e" "w' = w1" by (auto simp: Execute_def)
    with w1 turned_away show thesis by blast
  next
    case 2
    with assms u have "\<exists>e. r = Inl e" "w' = w1" by (auto simp: Execute_def)
    with w1 turned_away show thesis by blast
  next
    case 3
    obtain p w2 where p: "run_state (cache_GetAndDelete ?x) w1 = (p, w2)" by (rule run_obtain)
    from p show thesis
    proof (cases rule: get_cases)
      case absent
      with assms u 3 p have "\<exists>e. r = Inl e" "w' = w1" by (auto simp: Execute_def split: if_splits)
      with w1 turned_away show thesis by blast
    next
      case (expired pt)
      with assms u 3 p have "\<exists>e. r = Inl e" "w' = w2" by (auto simp: Execute_def split: if_splits)
      with expired(1) w1 taken_grows[OF p expired(4) w1] taken show thesis by (auto simp: keeps_def)
    next
      case (found pt)
      with assms u 3 p have "keeps issued w2 w'"
        by (auto simp: Execute_def keeps_def split: sum.splits option.splits prod.splits if_splits
            dest!: staysD[OF frame_ExecuteTransfer])
      with found(1,2) w1 taken_grows[OF p found(4) w1] taken show thesis by auto
    qed
  qed
qed

lemma grows_Execute: "stays (grows issued) (Execute cfg L E a req)"
  unfolding stays_def
proof (intro allI impI)
  fix w r w' assume "run_state (Execute cfg L E a req) w = (r, w')"
  then show "grows issued w w'"
    by (cases rule: Execute_cases) (auto simp: grows_def issued_faults cache_ok_def)
qed

lemma grows_step: "transfer_step D cfg L s E issued w w' \<Longrightarrow> grows issued w w'"
  by (induction rule: transfer_step.induct)
    (auto simp: ExecuteAccept_def dest: staysD[OF grows_Prepare] staysD[OF grows_PrepareAccept] staysD[OF grows_PrepareWithdraw]
      staysD[OF grows_Execute] staysD[OF grows_cleanup] staysD[OF keeps_SendCustodial] staysD[OF keeps_WithdrawCustodial]
      staysD[OF keeps_lists(1)] staysD[OF keeps_lists(2)] staysD[OF keeps_lists(3)] intro: keeps_grows)

lemma grows_steps: "(transfer_step D cfg L s E issued)\<^sup>*\<^sup>* w w' \<Longrightarrow> grows issued w w'"
  by (induction rule: rtranclp_induct) (auto intro: growing.R_refl growing.R_trans grows_step)

end

section \<open>At most one execution\<close>

text \<open>
  C5: of two attempts to execute the same prepared transfer, by any callers and with any operations
  of the service in between, at least one is turned away having changed nothing: it neither reaches
  the ledger nor touches the cache.  An attempt that succeeds found the transfer in the cache before
  its expiry.  All along the cache stays within its bound.
\<close>

theorem prepared_executed_once:
  assumes "prepared_flow issued L E" "Er_TransferID req \<in> issued w" "Er_TransferID req' = Er_TransferID req"
    and "run_state (Execute cfg L E a req) w = (r, w1)" "(transfer_step D cfg L s E issued)\<^sup>*\<^sup>* w1 w2"
    and "run_state (Execute cfg L E a' req') w2 = (r', w3)"
  shows "((\<exists>e fs. r = Inl e \<and> w1 = w\<lparr>pg_faults := fs\<rparr>) \<or> (\<exists>e fs. r' = Inl e \<and> w3 = w2\<lparr>pg_faults := fs\<rparr>)) \<and>
    (\<forall>st. r = Inr st \<longrightarrow> (\<exists>pt. cached w (Er_TransferID req) = Some pt \<and> pg_now w \<le> PT_ExpiresAt pt)) \<and>
    (cache_ok w \<longrightarrow> cache_ok w3)"
proof (intro conjI)
  note flow = assms(1)
  have g: "grows issued w w1" "grows issued w1 w2" "grows issued w2 w3"
    using staysD[OF prepared_flow.grows_Execute[OF flow] assms(4)] prepared_flow.grows_steps[OF flow assms(5)]
      staysD[OF prepared_flow.grows_Execute[OF flow] assms(6)] .
  then show "cache_ok w \<longrightarrow> cache_ok w3" by (simp add: grows_def)
  show "\<forall>st. r = Inr st \<longrightarrow> (\<exists>pt. cached w (Er_TransferID req) = Some pt \<and> pg_now w \<le> PT_ExpiresAt pt)"
    using assms(4) by (cases rule: prepared_flow.Execute_cases[OF flow]) auto
  show "(\<exists>e fs. r = Inl e \<and> w1 = w\<lparr>pg_faults := fs\<rparr>) \<or> (\<exists>e fs. r' = Inl e \<and> w3 = w2\<lparr>pg_faults := fs\<rparr>)"
    using assms(4)
  proof (cases rule: prepared_flow.Execute_cases[OF flow, consumes 1, case_names turned_away taken])
    case (taken pt)
    with g(1,2) assms(2) have "Er_TransferID req \<notin> cache_ids w2" unfolding grows_def by blast
    then have "cached w2 (Er_TransferID req') = None" by (simp add: assms(3) map_of_eq_None_iff)
    with assms(6) show ?thesis by (cases rule: prepared_flow.Execute_cases[OF flow]) auto
  qed blast
qed

text \<open>A ledger that numbers its ids in unary and accepts every submission.\<close>

definition unary_id :: "nat \<Rightarrow> string" where
  "unary_id n = replicate n CHR ''u''"

definition issued_ids :: "nat transfer_db_scheme \<Rightarrow> string set" where
  "issued_ids w = unary_id ` {..<transfer_db.more w}"

definition counted_tokens :: "nat transfer_db_scheme TokenLedger" where
  "counted_tokens =
     \<lparr>TK_GetLedgerEnd = ret (Inr 1), TK_ByTemplate = \<lambda>off parties i. ret (Inr []), TK_ByInterface = \<lambda>off parties i. ret (Inr []),
      TK_ActiveContracts = \<lambda>off p i. ret (Inr ([], None)), TK_SubmitAndWaitForTransaction = \<lambda>c. ret (Inl (Err ''not used'')),
      TK_SubmitAndWait = \<lambda>c. ret (Inl (Err ''not used'')),
      TK_PrepareSubmission = \<lambda>c. ret (Inr \<lparr>PS_PreparedTransactionHash = [1], PS_PreparedTransaction = [2], PS_HashingSchemeVersion = 2\<rparr>),
      TK_ExecuteSubmissionAndWait = \<lambda>x. ret (Inr ()), TK_GetFingerprintMapping = \<lambda>fp. ret (Inr fp), TK_KeyResolver = None,
      TK_Registry = None, TK_ChoiceContext = None,
      TK_NewUUID = do { w \<leftarrow> State_Monad.get; State_Monad.set (transfer_db.more_update Suc w); ret (unary_id (transfer_db.more w)) },
      TK_Now = gets pg_now\<rparr>"

definition empty_indexer :: "nat transfer_db_scheme TransferEnv" where
  "empty_indexer =
     \<lparr>TE_GetTransfers = \<lambda>p q pg. ret (Inl (Err ''unavailable'')), TE_GetTransfer = \<lambda>cid. ret (Inr None), TE_PartyExists = None,
      TE_FromError = \<lambda>e. None, TE_RFC3339 = \<lambda>t. ''''\<rparr>"

interpretation counted: prepared_flow issued_ids counted_tokens empty_indexer
proof
  show "run_state (TK_NewUUID counted_tokens) w = (u, w') \<Longrightarrow> u \<notin> issued_ids w \<and> u \<in> issued_ids w'" for w u w'
    by (auto simp: counted_tokens_def issued_ids_def unary_id_def image_iff lessThan_Suc dest: arg_cong[of _ _ length])
qed (auto simp: counted_tokens_def empty_indexer_def stays_def keeps_def issued_ids_def lessThan_Suc)

definition demo_user :: UserDao where
  "demo_user = toUserDao 1 0 (user_NewExternal ''0xa1'' ''alice::01'' ''alice'' '''' ''key'')"

definition demo_prepared :: "nat transfer_db_scheme" where
  "demo_prepared = \<lparr>pg_now = 5, pg_faults = [], mp_rows = [], mp_seq = 0, evm_txs = [], evm_logs = [], evm_state = [],
     us_rows = [demo_user], us_seq = 1, wl_rows = [],
     pc_entries = [(''u'', prepared_transfer ''u'' \<lparr>PS_PreparedTransactionHash = [1], PS_PreparedTransaction = [2], PS_HashingSchemeVersion = 2\<rparr> ''alice::01'' 9)],
     pc_ttl = 4, pc_maxSize = 10, \<dots> = 2\<rparr>"

definition demo_request :: ExecuteRequest where
  "demo_request = \<lparr>Er_TransferID = ''u'', Er_Signature = ''0x3045'', Er_SignedBy = ''key''\<rparr>"

abbreviation demo_config :: TokenConfig where
  "demo_config \<equiv> \<lparr>tc_DomainID = ''d'', tc_IssuerParty = ''issuer'', tc_UserID = ''user'', tc_CIP56PackageID = ''p'',
     tc_SpliceTransferPackageID = ''t'', tc_SpliceHoldingPackageID = ''h'', tc_ExternalTokens = Map.empty\<rparr>"

abbreviation demo_execute :: "(nat transfer_db_scheme, goerr + string) state" where
  "demo_execute \<equiv> Execute demo_config counted_tokens empty_indexer ''0xa1'' demo_request"

lemma demo_executes: "fst (run_state demo_execute demo_prepared) = Inr ''completed''"
proof -
  have "hex_DecodeString (TrimPrefix0x ''0x3045'') = Inr [0x30, 0x45]" by code_simp
  then show ?thesis
    by (simp add: Execute_def demo_request_def demo_prepared_def demo_user_def lookup_user_def GetUserByEVMAddress_def getUserBy_def
        query_def pg_exec_def toUserDao_def toUser_def user_NewExternal_def stringPtrOrNil_def deref_string_def
        cache_GetAndDelete_def prepared_transfer_def ExecuteTransfer_def execute_validate_def counted_tokens_def)
qed

theorem prepared_executed_once_witness:
  "fst (run_state demo_execute demo_prepared) = Inr ''completed'' \<and>
   (\<exists>e fs. run_state demo_execute (snd (run_state demo_execute demo_prepared)) =
     (Inl e, (snd (run_state demo_execute demo_prepared))\<lparr>pg_faults := fs\<rparr>))"
proof
  show first: "fst (run_state demo_execute demo_prepared) = Inr ''completed''" by (rule demo_executes)
  have "''u'' \<in> issued_ids demo_prepared" by (auto simp: issued_ids_def demo_prepared_def unary_id_def image_iff intro!: bexI[of _ "Suc 0"])
  then have id: "Er_TransferID demo_request \<in> issued_ids demo_prepared" by (simp add: demo_request_def)
  let ?w = "snd (run_state demo_execute demo_prepared)"
  from prepared_executed_once[where s = "NewTransferService plain_geth None" and D = dec_lib, OF counted.prepared_flow_axioms id refl prod.collapse[symmetric] rtranclp.rtrancl_refl
      prod.collapse[symmetric], where cfg = demo_config and a = "''0xa1''" and a' = "''0xa1''"]
  show "\<exists>e fs. run_state demo_execute ?w = (Inl e, ?w\<lparr>pg_faults := fs\<rparr>)"
    using first by (auto simp: prod_eq_iff)
qed

end
