(* ===== verification/Spec2Isabelle.thy ===== *)
theory Spec2Isabelle
  imports Relayer_Safety Indexer_Properties Ethrpc_Properties Transfer_Safety
begin

text \<open>
  \<^bold>\<open>Canton middleware.\<close>  The repository connects Ethereum users with a Canton ledger.  Three programs
  share its packages.  The \<^emph>\<open>relayer\<close> watches deposits on Ethereum and mints on Canton, watches
  withdrawals on Canton and pays out on Ethereum, and keeps transfers and chain offsets in
  PostgreSQL.  The \<^emph>\<open>indexer\<close> follows the ledger and keeps events, tokens, balances, holdings and
  transfer offers in tables.  The \<^emph>\<open>api server\<close> offers an Ethereum JSON-RPC facade, behind which token
  transfers run on Canton, and a transfer service for users with and without their own keys.

  \<^bold>\<open>Modelling.\<close>  Structs are records, enumerations are datatypes, errors are values of \<open>goerr\<close> with
  their wrapping chains, a fallible operation returns \<open>goerr + 'a\<close>.  Effects are explicit: an
  operation is a function in the state monad over a world that holds the tables of its database as
  lists of rows, the clock, and a schedule that says which statements fail and which succeed while
  their answer is lost.  A Go interface is a record of such operations.  64-bit integers are words
  where they can wrap.  Third-party code and remote services are parameters: the decimal package, the
  Ethereum node and go-ethereum, the ledger API, SHA-256 and Keccak, the registry of another issuer,
  time formatting and gRPC status codes.  What is relied on is stated as the assumptions of a locale
  and discharged on a concrete instance.

  \<^bold>\<open>Theories and sources\<close> (paths under \<open>src/pkg\<close>).
  \<^item> \<open>Go_Prelude\<close>, \<open>Strconv\<close>, \<open>Encodings\<close>, \<open>Sql_Table\<close>: errors, the state monad, loops, words, decimal
    and hex text, the contract \<open>decimal_lib\<close> of the decimal package, rows, statements and transactions.
    \<open>App_Errors\<close>: \<open>app/errors\<close>.
  \<^item> Ledger: \<open>Ledger_Values\<close> (\<open>cantonsdk/values\<close>), \<open>Ledger_Stream\<close> (\<open>cantonsdk/streaming\<close>: decoding, the
    receive loop, reconnection), \<open>Canton_Bridge\<close> (\<open>cantonsdk/bridge\<close>), \<open>Canton_Token\<close>
    (\<open>cantonsdk/token\<close>: holdings and their selection, minting, transfers, offers).
  \<^item> Relayer: \<open>Relayer_Store\<close> (\<open>relayer/types.go\<close>, \<open>relayer/store\<close>, contract \<open>bridge_store\<close>),
    \<open>Relayer_Processor\<close> (\<open>relayer/engine/processor.go\<close>, on that contract), \<open>Eth_Client\<close>
    (\<open>ethereum/client.go\<close>, on a node contract), \<open>Relayer_Endpoints\<close> (\<open>source.go\<close>, \<open>destination.go\<close>),
    \<open>Relayer_Engine\<close> (\<open>engine.go\<close>), \<open>Relayer_Safety\<close> (the composed relayer).
  \<^item> Indexer: \<open>Indexer_Decoder\<close> (\<open>indexer/types.go\<close>, \<open>engine/decoder.go\<close>, \<open>fetcher.go\<close>), \<open>Indexer_Processor\<close>
    (\<open>engine/processor.go\<close> and its abstract meaning \<open>spec_batch\<close>), \<open>Indexer_Store\<close> (\<open>store/pg.go\<close>,
    \<open>store/model.go\<close>), \<open>Indexer_Books\<close>, \<open>Indexer_Replay\<close>, \<open>Indexer_Progress\<close>, \<open>Indexer_Safety\<close> (lemmas),
    \<open>Indexer_Properties\<close>.
  \<^item> JSON-RPC facade: \<open>Ethrpc_Store\<close> (\<open>ethrpc/types.go\<close>, \<open>ethrpc/store\<close>), \<open>Ethrpc_Miner\<close>,
    \<open>Ethrpc_Submitter\<close>, \<open>Ethrpc_Service\<close> (the packages of the same names), \<open>Ethrpc_Chain\<close> (the synthetic
    chain), \<open>Ethrpc_Safety\<close> (the step relation \<open>ethrpc_step\<close> and its invariant), \<open>Ethrpc_Progress\<close>,
    \<open>Ethrpc_Properties\<close>.
  \<^item> Users and tokens: \<open>User_Store\<close> (\<open>user/user.go\<close>, \<open>userstore\<close>, \<open>user/whitelist\<close>, the addresses of
    \<open>auth/evm.go\<close>), \<open>Token_Service\<close> (\<open>token\<close>, \<open>token/provider\<close>).
  \<^item> Transfer service: \<open>Transfer_Service\<close> (\<open>transfer/cache.go\<close>, \<open>service.go\<close>, \<open>types.go\<close>),
    \<open>Transfer_Safety\<close>.

  \<^bold>\<open>What is shown.\<close>
  \<^item> Relayer: no deposit and no withdrawal is submitted twice, under replays, restarts and database
    failures; no checkpoint overtakes a deposit; a saved offset belongs to a recorded event, survives a
    restart and is never ahead of the ledger; reconciliation touches only what is due; block ranges are
    split without loss; amounts and offsets round-trip.
  \<^item> Ledger streams: delivery exactly once and in order across reconnects; the value codec round-trips.
  \<^item> Indexer: the tables are what the ledger up to the saved offset means (a refinement of
    \<open>spec_batch\<close>); it catches up; a batch that can be stored is stored and one that cannot is never
    skipped; balances are never negative and cover the supply; settled transfers stay settled; replays
    change nothing unless they create holdings, which count twice.
  \<^item> Facade: over all interleavings the synthetic chain is well formed, a successful receipt means that
    Canton completed the command, an answered transaction gets its receipt; a transfer whose answer is
    lost can be reported as failed.  The contract \<open>canton_transfers\<close> of the facade follows from the
    contract \<open>token_ledger\<close> of the ledger through the modelled token service and client.
  \<^item> Token client: the selected holdings cover the amount and no shorter prefix does.
  \<^item> Whitelist: a set of addresses without regard to case; the paged listing ends and is complete.
  \<^item> Transfer service: a prepared transfer is executed at most once and not after its expiry.

  \<^bold>\<open>Bounds and fuel.\<close>  Loops over data are structurally recursive.  A loop that runs until its context
  ends takes the list of what its environment delivers: connections for the streams, ticks for the
  poller, restarts for the engine.  The retry loop of the indexer takes a number of attempts; one more
  than the length of the fault schedule is proved to be enough.  The walk through the whitelist takes
  a number of pages; one more than there are entries is enough.  Mining takes a number of rounds; as
  many as there are mempool entries are enough.  The facade's properties assume fewer than
  \<open>2 ^ 64 - 1\<close> mempool rows, so that the block counter does not wrap.

  \<^bold>\<open>Not modelled.\<close>  HTTP and gRPC transport, logging, metrics, configuration and process wiring;
  tickers and deadlines, whose effect appears as steps that may happen at any time; the schema
  migrations, of which the unique indexes are part of the statements; registration and key handling,
  which are cryptography and remote calls; the reconciler and the custodial accept worker; the
  read-only queries of the indexer; \<open>eth_call\<close>; the issuer-side internal transfer of the token client.
\<close>

end
